(* ===== verification/Prelude.thy ===== *)
theory Prelude
  imports Complex_Main "HOL-Library.Word"
begin

text \<open>
  Shared vocabulary of the development: Python numbers and dictionaries as HOL values.

  Python floats are modelled by exact real numbers (rounding to 53 bits is not modelled);
  the special values \<open>inf\<close> and \<open>nan\<close> appear as the type \<open>pynum\<close> where the code
  reads numbers from text or from JSON and they can enter. Python integers are \<open>int\<close>
  (\<open>nat\<close> where the code builds them non-negative). A dictionary whose values are numbers
  or booleans is a map from key to real: in Python \<open>True\<close> is the number 1 and a number is
  truthy iff it is not 0.
\<close>

named_theorems py_defs \<open>unfolding rules of the Python primitives\<close>
named_theorems clamp_rules \<open>range facts about clamping\<close>

section \<open>Clamping\<close>

text \<open>\<open>max(lo, min(hi, x))\<close>, the idiom the controllers use for every limit.\<close>

definition clamp :: "'a::linorder \<Rightarrow> 'a \<Rightarrow> 'a \<Rightarrow> 'a" where
  "clamp lo hi x = max lo (min hi x)"

lemma clamp_ge [clamp_rules, simp]: "lo \<le> clamp lo hi x"
  by (simp add: clamp_def)

lemma clamp_le [clamp_rules, simp]: "lo \<le> hi \<Longrightarrow> clamp lo hi x \<le> hi"
  by (simp add: clamp_def)

lemma clamp_id [simp]: "lo \<le> x \<Longrightarrow> x \<le> hi \<Longrightarrow> clamp lo hi x = x"
  by (simp add: clamp_def)

lemma clamp_mono: "x \<le> y \<Longrightarrow> clamp lo hi x \<le> clamp lo hi y"
  by (auto simp: clamp_def min_def max_def)

lemma clamp_abs_le: "0 \<le> m \<Longrightarrow> \<bar>clamp (- m) m x\<bar> \<le> (m::real)"
  by (auto simp: clamp_def min_def max_def)

section \<open>Angles\<close>

definition radians :: "real \<Rightarrow> real" where
  "radians d = d * pi / 180"

definition degrees :: "real \<Rightarrow> real" where
  "degrees r = r * 180 / pi"

lemma degrees_radians [simp]: "degrees (radians d) = d"
  by (simp add: degrees_def radians_def)

lemma radians_degrees [simp]: "radians (degrees r) = r"
  by (simp add: degrees_def radians_def)

lemma degrees_nonneg_iff [simp]: "0 \<le> degrees r \<longleftrightarrow> 0 \<le> r"
  by (simp add: degrees_def zero_le_mult_iff divide_simps)

section \<open>Floating modulus and rounding\<close>

text \<open>Python's \<open>x % y\<close> on floats takes the sign of \<open>y\<close>.\<close>

definition py_mod :: "real \<Rightarrow> real \<Rightarrow> real" where
  "py_mod x y = x - y * of_int \<lfloor>x / y\<rfloor>"

lemma py_mod_range:
  assumes "0 < y"
  shows "0 \<le> py_mod x y" and "py_mod x y < y"
proof -
  have "of_int \<lfloor>x / y\<rfloor> * y \<le> x"
    using of_int_floor_le [of "x / y"] assms by (simp only: pos_le_divide_eq)
  moreover have "x < (of_int \<lfloor>x / y\<rfloor> + 1) * y"
    using floor_correct [of "x / y"] assms by (simp only: pos_divide_less_eq of_int_add of_int_1)
  ultimately show "0 \<le> py_mod x y" and "py_mod x y < y"
    by (simp_all add: py_mod_def algebra_simps)
qed

lemma py_mod_id: "0 \<le> x \<Longrightarrow> x < y \<Longrightarrow> py_mod x y = x"
proof -
  assume "0 \<le> x" and "x < y"
  then have "\<lfloor>x / y\<rfloor> = 0" by (simp add: floor_eq_iff)
  then show ?thesis by (simp add: py_mod_def)
qed

text \<open>\<open>round(x, n)\<close> and the fixed formats round to the nearest decimal, ties to even.\<close>

definition round_half_even :: "real \<Rightarrow> int" where
  "round_half_even x =
     (let f = \<lfloor>x\<rfloor>; d = x - of_int f
      in if d < 1/2 then f else if d > 1/2 then f + 1 else if even f then f else f + 1)"

definition py_round :: "nat \<Rightarrow> real \<Rightarrow> real" where
  "py_round n x = of_int (round_half_even (x * 10 ^ n)) / 10 ^ n"

lemma round_half_even_of_int [simp]: "round_half_even (of_int k) = k"
  by (simp add: round_half_even_def)

lemma round_half_even_dist: "\<bar>of_int (round_half_even x) - x\<bar> \<le> 1/2"
proof -
  have "of_int \<lfloor>x\<rfloor> \<le> x" "x < of_int \<lfloor>x\<rfloor> + 1" by linarith+
  then show ?thesis by (auto simp: round_half_even_def Let_def)
qed

lemma round_half_even_mono:
  assumes "x \<le> y"
  shows "round_half_even x \<le> round_half_even y"
proof (cases "\<lfloor>x\<rfloor> = \<lfloor>y\<rfloor>")
  case True
  with assms show ?thesis by (auto simp: round_half_even_def Let_def)
next
  case False
  with assms have "\<lfloor>x\<rfloor> + 1 \<le> \<lfloor>y\<rfloor>" using floor_mono[of x y] by linarith
  moreover have "round_half_even x \<le> \<lfloor>x\<rfloor> + 1" and "\<lfloor>y\<rfloor> \<le> round_half_even y"
    by (auto simp: round_half_even_def Let_def)
  ultimately show ?thesis by linarith
qed

lemma round_half_even_nonneg: "0 \<le> x \<Longrightarrow> 0 \<le> round_half_even x"
  using round_half_even_mono [of 0 x] round_half_even_of_int [of 0] by simp

lemma py_round_mono: "x \<le> y \<Longrightarrow> py_round n x \<le> py_round n y"
  by (simp add: py_round_def divide_right_mono round_half_even_mono)

lemma py_round_dist: "\<bar>py_round n x - x\<bar> \<le> 1 / (2 * 10 ^ n)"
proof -
  have "py_round n x - x = (of_int (round_half_even (x * 10 ^ n)) - x * 10 ^ n) / 10 ^ n"
    by (simp add: py_round_def diff_divide_distrib)
  then have "\<bar>py_round n x - x\<bar> = \<bar>of_int (round_half_even (x * 10 ^ n)) - x * 10 ^ n\<bar> / 10 ^ n"
    by (simp only: abs_divide) simp
  also have "\<dots> \<le> (1/2) / 10 ^ n"
    by (intro divide_right_mono round_half_even_dist) simp
  finally show ?thesis by simp
qed

text \<open>Rounding keeps every bound that is itself a decimal with \<open>n\<close> places.\<close>

lemma py_round_grid: "x * 10 ^ n = of_int k \<Longrightarrow> py_round n x = x"
  by (simp add: py_round_def) (simp add: field_simps)

lemma py_round_le: "x \<le> b \<Longrightarrow> b * 10 ^ n = of_int k \<Longrightarrow> py_round n x \<le> b"
  using py_round_mono [of x b n] py_round_grid [of b n k] by simp

lemma py_round_ge: "b \<le> x \<Longrightarrow> b * 10 ^ n = of_int k \<Longrightarrow> b \<le> py_round n x"
  using py_round_mono [of b x n] py_round_grid [of b n k] by simp

lemma py_round_0 [simp]: "py_round n 0 = 0"
  using py_round_grid [of 0 n 0] by simp

lemma py_round_nonneg: "0 \<le> x \<Longrightarrow> 0 \<le> py_round n x"
  using py_round_mono [of 0 x n] by simp

text \<open>Rounding is symmetric about zero.\<close>

lemma round_half_even_minus: "round_half_even (- x) = - round_half_even x"
proof (cases "x = of_int \<lfloor>x\<rfloor>")
  case True
  then show ?thesis by (metis of_int_minus round_half_even_of_int)
next
  case False
  then have "\<lfloor>- x\<rfloor> = - \<lfloor>x\<rfloor> - 1" by linarith
  then show ?thesis by (auto simp: round_half_even_def Let_def)
qed

lemma py_round_minus: "py_round n (- x) = - py_round n x"
  by (simp add: py_round_def round_half_even_minus)

lemma py_round_abs_le: "\<bar>x\<bar> \<le> m \<Longrightarrow> \<bar>py_round n x\<bar> \<le> py_round n m"
  using py_round_mono [of x m n] py_round_mono [of "- x" m n] by (simp add: abs_le_iff py_round_minus)

section \<open>Dictionaries\<close>

type_synonym num_dict = "string \<rightharpoonup> real"

text \<open>\<open>d.get(k, v)\<close>\<close>

definition dget :: "('k \<rightharpoonup> 'v) \<Rightarrow> 'k \<Rightarrow> 'v \<Rightarrow> 'v" where
  "dget d k v = (case d k of None \<Rightarrow> v | Some x \<Rightarrow> x)"

lemma dget_upd [simp]: "dget (d(k \<mapsto> x)) k' v = (if k' = k then x else dget d k' v)"
  by (simp add: dget_def)

lemma dget_empty [simp]: "dget (\<lambda>_. None) k v = v" "dget Map.empty k v = v"
  by (simp_all add: dget_def)

lemma dget_None: "d k = None \<Longrightarrow> dget d k v = v"
  by (simp add: dget_def)

lemma dget_Some: "d k = Some x \<Longrightarrow> dget d k v = x"
  by (simp add: dget_def)

text \<open>The truth value of \<open>d.get(k, False)\<close>.\<close>

definition dflag :: "num_dict \<Rightarrow> string \<Rightarrow> bool" where
  "dflag d k \<longleftrightarrow> dget d k 0 \<noteq> 0"

lemma dflag_upd [simp]: "dflag (d(k \<mapsto> x)) k' = (if k' = k then x \<noteq> 0 else dflag d k')"
  by (simp add: dflag_def)

lemma dflag_empty [simp]: "\<not> dflag (\<lambda>_. None) k" "\<not> dflag Map.empty k"
  by (simp_all add: dflag_def)

end
