(* ===== verification/Py_Text.thy ===== *)
theory Py_Text
  imports Prelude
begin

unbundle bit_operations_syntax

text \<open>
  The text operations of Python the wire protocols use: characters as code points below 256
  (the serial lines are decoded with \<open>decode('ascii', errors='ignore')\<close>), \<open>strip\<close>,
  \<open>upper\<close>, \<open>split\<close>, the formats \<open>:02X\<close>, \<open>:d\<close> and \<open>:.nf\<close>, and the number
  readers \<open>float(s)\<close> and \<open>int(s, 16)\<close>. Each format comes with the lemma that reads it
  back.
\<close>

named_theorems text_simps \<open>rewriting of Python text operations on protocol frames\<close>

abbreviation ord :: "char \<Rightarrow> nat" where
  "ord c \<equiv> of_char c"

section \<open>Stripping, case, splitting\<close>

text \<open>\<open>str.isspace\<close> on code points below 256.\<close>

definition is_space :: "char \<Rightarrow> bool" where
  "is_space c \<longleftrightarrow> (let n = ord c in 9 \<le> n \<and> n \<le> 13 \<or> 28 \<le> n \<and> n \<le> 32 \<or> n = 133 \<or> n = 160)"

definition py_strip :: "string \<Rightarrow> string" where
  "py_strip s = rev (dropWhile is_space (rev (dropWhile is_space s)))"

definition upper_char :: "char \<Rightarrow> char" where
  "upper_char c = (if 97 \<le> ord c \<and> ord c \<le> 122 then char_of (ord c - 32) else c)"

definition py_upper :: "string \<Rightarrow> string" where
  "py_upper s = map upper_char s"

definition py_lower :: "string \<Rightarrow> string" where
  "py_lower s = map (\<lambda>c. if 65 \<le> ord c \<and> ord c \<le> 90 then char_of (ord c + 32) else c) s"

fun py_split :: "char \<Rightarrow> string \<Rightarrow> string list" where
  "py_split c [] = [[]]"
| "py_split c (x # xs) =
     (if x = c then [] # py_split c xs
      else case py_split c xs of [] \<Rightarrow> [[x]] | p # ps \<Rightarrow> (x # p) # ps)"

definition starts_with :: "string \<Rightarrow> string \<Rightarrow> bool" where
  "starts_with s p \<longleftrightarrow> take (length p) s = p"

definition ends_with :: "string \<Rightarrow> string \<Rightarrow> bool" where
  "ends_with s p \<longleftrightarrow> length p \<le> length s \<and> drop (length s - length p) s = p"

lemma py_split_not_Nil [simp]: "py_split c s \<noteq> []"
  by (induction s) (auto split: list.splits)

lemma py_split_notin: "c \<notin> set s \<Longrightarrow> py_split c s = [s]"
  by (induction s) auto

lemma py_split_cons [text_simps]:
  "c \<notin> set a \<Longrightarrow> py_split c (a @ c # b) = a # py_split c b"
  by (induction a) auto

lemma py_split_hd: "hd (py_split c s) = takeWhile (\<lambda>x. x \<noteq> c) s"
  by (induction s) (auto split: list.splits)

lemma py_split_parts: "p \<in> set (py_split c s) \<Longrightarrow> set p \<subseteq> set s - {c}"
proof (induction s arbitrary: p)
  case Nil
  then show ?case by simp
next
  case (Cons x s)
  obtain q qs where q: "py_split c s = q # qs" by (cases "py_split c s") auto
  show ?case using Cons.IH [unfolded q] Cons.prems q by (cases "x = c") (auto, blast+)
qed

lemma py_split_length: "length (py_split c s) = Suc (count_list s c)"
  by (induction s) (auto split: list.splits)

lemma py_split_two:
  assumes "py_split c s = [a, b]"
  shows "s = a @ c # b" and "c \<notin> set a" and "c \<notin> set b"
proof -
  have *: "s = a @ c # b" if "py_split c s = [a, b]" for a b
    using that
  proof (induction s arbitrary: a)
    case Nil
    then show ?case by simp
  next
    case (Cons x s)
    show ?case
    proof (cases "x = c")
      case True
      with Cons.prems have a: "a = []" and "py_split c s = [b]" by auto
      then have "count_list s c = 0" using py_split_length [of c s] by simp
      then have "c \<notin> set s" by (simp add: count_list_0_iff)
      with \<open>py_split c s = [b]\<close> have "s = b" by (simp add: py_split_notin)
      with a True show ?thesis by simp
    next
      case False
      with Cons.prems obtain a' where "py_split c s = [a', b]" and "a = x # a'"
        by (auto split: list.splits)
      with Cons.IH show ?thesis by simp
    qed
  qed
  show "s = a @ c # b" using * assms .
  show "c \<notin> set a" "c \<notin> set b" using py_split_parts [of _ c s] assms by auto
qed

lemma dropWhile_space_hd: "s \<noteq> [] \<Longrightarrow> \<not> is_space (hd s) \<Longrightarrow> dropWhile is_space s = s"
  by (cases s) auto

text \<open>A text that ends in white space is stripped back to its last visible character.\<close>

lemma py_strip_trail:
  assumes "s \<noteq> []" "\<not> is_space (hd s)" "\<not> is_space (last s)" "\<forall>c \<in> set w. is_space c"
  shows "py_strip (s @ w) = s"
proof -
  have "dropWhile is_space (rev w @ rev s) = rev s"
    using assms by (subst dropWhile_append2) (auto simp: dropWhile_space_hd hd_rev)
  moreover have "dropWhile is_space (s @ w) = s @ w"
    using assms by (intro dropWhile_space_hd) auto
  ultimately show ?thesis by (simp add: py_strip_def)
qed

lemma py_strip_id:
  "s \<noteq> [] \<Longrightarrow> \<not> is_space (hd s) \<Longrightarrow> \<not> is_space (last s) \<Longrightarrow> py_strip s = s"
  using py_strip_trail [of s "[]"] by simp

lemma py_strip_no_space: "\<forall>c \<in> set s. \<not> is_space c \<Longrightarrow> py_strip s = s"
  by (cases "s = []") (auto simp: py_strip_id, simp add: py_strip_def)

section \<open>Numbers to text\<close>

definition digit_char :: "nat \<Rightarrow> char" where
  "digit_char n = ''0123456789'' ! n"

definition hex_digit :: "nat \<Rightarrow> char" where
  "hex_digit n = ''0123456789ABCDEF'' ! n"

lemma less_10_cases: "n < 10 \<Longrightarrow> n \<in> {0, 1, 2, 3, 4, 5, 6, 7, 8, 9::nat}"
  by auto

lemma less_16_cases: "n < 16 \<Longrightarrow> n \<in> {0, 1, 2, 3, 4, 5, 6, 7, 8, 9, 10, 11, 12, 13, 14, 15::nat}"
  by (simp only: insert_iff empty_iff) presburger

lemma ord_digit_char [simp]: "n < 10 \<Longrightarrow> ord (digit_char n) = 48 + n"
  by (drule less_10_cases) (auto simp: digit_char_def)

fun nat_str :: "nat \<Rightarrow> string" where
  "nat_str n = (if n < 10 then [digit_char n] else nat_str (n div 10) @ [digit_char (n mod 10)])"

declare nat_str.simps [simp del]

definition int_str :: "int \<Rightarrow> string" where
  "int_str i = (if i < 0 then ''-'' @ nat_str (nat (- i)) else nat_str (nat i))"

fun hex_str :: "nat \<Rightarrow> string" where
  "hex_str n = (if n < 16 then [hex_digit n] else hex_str (n div 16) @ [hex_digit (n mod 16)])"

declare hex_str.simps [simp del]

text \<open>\<open>f"{n:02X}"\<close>\<close>

definition fmt_02X :: "nat \<Rightarrow> string" where
  "fmt_02X n = (if n < 16 then ''0'' @ hex_str n else hex_str n)"

lemma fmt_02X_byte: "n < 256 \<Longrightarrow> fmt_02X n = [hex_digit (n div 16), hex_digit (n mod 16)]"
  by (auto simp: fmt_02X_def hex_str.simps [of n] hex_str.simps [of "n div 16"]) (simp add: hex_digit_def)

text \<open>The last \<open>k\<close> decimal digits of \<open>n\<close>, most significant first.\<close>

fun pad_digits :: "nat \<Rightarrow> nat \<Rightarrow> string" where
  "pad_digits 0 n = []"
| "pad_digits (Suc k) n = pad_digits k (n div 10) @ [digit_char (n mod 10)]"

text \<open>\<open>f"{x:.nf}"\<close> for a number of places \<open>n > 0\<close>.\<close>

definition fmt_fixed :: "nat \<Rightarrow> real \<Rightarrow> string" where
  "fmt_fixed n x =
     (let m = nat (round_half_even (\<bar>x\<bar> * 10 ^ n))
      in (if x < 0 then ''-'' else []) @ nat_str (m div 10 ^ n) @ ''.'' @ pad_digits n (m mod 10 ^ n))"

section \<open>Text to numbers\<close>

definition is_digit :: "char \<Rightarrow> bool" where
  "is_digit c \<longleftrightarrow> 48 \<le> ord c \<and> ord c \<le> 57"

definition nat_of_digits :: "string \<Rightarrow> nat" where
  "nat_of_digits s = foldl (\<lambda>a c. 10 * a + (ord c - 48)) 0 s"

text \<open>
  Underscores may separate digits in the argument of \<open>float\<close>: each one stands between two
  digits, and all are dropped. The first argument is the character before the rest.
\<close>

fun drop_underscores :: "char \<Rightarrow> string \<Rightarrow> string option" where
  "drop_underscores prev [] = (if prev = CHR ''_'' then None else Some [])"
| "drop_underscores prev (c # cs) =
     (if c = CHR ''_'' then (if is_digit prev then drop_underscores c cs else None)
      else if prev = CHR ''_'' \<and> \<not> is_digit c then None
      else map_option ((#) c) (drop_underscores c cs))"

datatype pynum = Fin real | PosInf | NegInf | NaN

text \<open>A decimal too large for a double reads as infinity.\<close>

definition float_limit :: real where
  "float_limit = 2 ^ 1024 - 2 ^ 970"

definition to_pynum :: "real \<Rightarrow> pynum" where
  "to_pynum v = (if v \<ge> float_limit then PosInf
                 else if v \<le> - float_limit then NegInf else Fin v)"

lemma to_pynum_Fin: "\<bar>v\<bar> < float_limit \<Longrightarrow> to_pynum v = Fin v"
  by (auto simp: to_pynum_def)

lemma float_limit_gt: "10 ^ 300 + 1 < float_limit"
  by (simp add: float_limit_def)

definition split_sign :: "string \<Rightarrow> bool \<times> string" where
  "split_sign s = (case s of [] \<Rightarrow> (False, [])
     | c # r \<Rightarrow> if c = CHR ''-'' then (True, r) else if c = CHR ''+'' then (False, r) else (False, s))"

text \<open>The exponent part: empty, or \<open>e\<close>, an optional sign and at least one digit.\<close>

definition read_exponent :: "string \<Rightarrow> int option" where
  "read_exponent s = (case s of [] \<Rightarrow> Some 0
     | c # r \<Rightarrow>
        let (neg, d) = split_sign r
        in if (c = CHR ''e'' \<or> c = CHR ''E'') \<and> d \<noteq> [] \<and> list_all is_digit d
           then Some (if neg then - int (nat_of_digits d) else int (nat_of_digits d)) else None)"

definition scale10 :: "real \<Rightarrow> int \<Rightarrow> real" where
  "scale10 v e = (if 0 \<le> e then v * 10 ^ nat e else v / 10 ^ nat (- e))"

definition read_decimal :: "string \<Rightarrow> real option" where
  "read_decimal s =
     (let ip = takeWhile is_digit s; r = dropWhile is_digit s;
          (fp, e) = (case r of [] \<Rightarrow> ([], r)
             | c # r' \<Rightarrow> if c = CHR ''.'' then (takeWhile is_digit r', dropWhile is_digit r') else ([], r))
      in if ip @ fp = [] then None
         else map_option (\<lambda>x. scale10 (real (nat_of_digits (ip @ fp))) (x - int (length fp))) (read_exponent e))"

text \<open>\<open>float(s)\<close>; \<open>None\<close> is the \<open>ValueError\<close>.\<close>

definition py_float :: "string \<Rightarrow> pynum option" where
  "py_float s = (case drop_underscores (CHR 0x00) (py_strip s) of None \<Rightarrow> None
     | Some t \<Rightarrow>
        let (neg, b) = split_sign t
        in if py_lower b = ''inf'' \<or> py_lower b = ''infinity'' then Some (if neg then NegInf else PosInf)
           else if py_lower b = ''nan'' then Some NaN
           else map_option (\<lambda>v. to_pynum (if neg then - v else v)) (read_decimal b))"

definition is_hex :: "char \<Rightarrow> bool" where
  "is_hex c \<longleftrightarrow> is_digit c \<or> 65 \<le> ord c \<and> ord c \<le> 70 \<or> 97 \<le> ord c \<and> ord c \<le> 102"

definition hex_val :: "char \<Rightarrow> nat" where
  "hex_val c = (if is_digit c then ord c - 48 else if ord c \<le> 70 then ord c - 55 else ord c - 87)"

text \<open>Hexadecimal digits with single underscores between them; at least one digit.\<close>

fun read_hex :: "nat \<Rightarrow> string \<Rightarrow> nat option" where
  "read_hex a [] = None"
| "read_hex a [c] = (if is_hex c then Some (16 * a + hex_val c) else None)"
| "read_hex a (c # d # cs) =
     (if \<not> is_hex c then None
      else if d = CHR ''_'' then read_hex (16 * a + hex_val c) cs
      else read_hex (16 * a + hex_val c) (d # cs))"

text \<open>\<open>int(s, 16)\<close>; \<open>None\<close> is the \<open>ValueError\<close>.\<close>

definition py_int16 :: "string \<Rightarrow> int option" where
  "py_int16 s =
     (let (neg, b) = split_sign (py_strip s);
          d = (if take 2 b = ''0x'' \<or> take 2 b = ''0X''
               then (if take 1 (drop 2 b) = ''_'' then drop 3 b else drop 2 b) else b)
      in map_option (\<lambda>n. if neg then - int n else int n) (read_hex 0 d))"

section \<open>Reading back what was formatted\<close>

lemma is_digit_digit_char [simp]: "n < 10 \<Longrightarrow> is_digit (digit_char n)"
  by (simp add: is_digit_def)

lemma digit_not_space: "is_digit c \<Longrightarrow> \<not> is_space c"
  by (auto simp: is_digit_def is_space_def Let_def)

lemma digit_not_under [simp]: "is_digit c \<Longrightarrow> c \<noteq> CHR ''_''"
  by (auto simp: is_digit_def)

lemma nat_of_digits_foldl:
  "foldl (\<lambda>a c. 10 * a + (ord c - 48)) a s = a * 10 ^ length s + foldl (\<lambda>a c. 10 * a + (ord c - 48)) 0 s"
proof (induction s rule: rev_induct)
  case (snoc c s)
  then show ?case by (simp add: algebra_simps)
qed simp

lemma nat_of_digits_append:
  "nat_of_digits (a @ b) = nat_of_digits a * 10 ^ length b + nat_of_digits b"
  by (simp only: nat_of_digits_def foldl_append) (rule nat_of_digits_foldl)

lemma nat_of_digits_single [simp]: "n < 10 \<Longrightarrow> nat_of_digits [digit_char n] = n"
  by (simp add: nat_of_digits_def)

lemma nat_of_digits_Nil [simp]: "nat_of_digits [] = 0"
  by (simp add: nat_of_digits_def)

lemma nat_of_digits_nat_str [simp]: "nat_of_digits (nat_str n) = n"
proof (induction n rule: nat_str.induct)
  case (1 n)
  then show ?case by (subst nat_str.simps) (auto simp: nat_of_digits_append)
qed

lemma nat_str_digits: "c \<in> set (nat_str n) \<Longrightarrow> is_digit c"
proof (induction n rule: nat_str.induct)
  case (1 n)
  then show ?case by (auto simp: nat_str.simps [of n] split: if_splits)
qed

lemma nat_str_not_Nil [simp]: "nat_str n \<noteq> []"
  by (simp add: nat_str.simps [of n])

lemma length_pad_digits [simp]: "length (pad_digits k n) = k"
  by (induction k arbitrary: n) auto

lemma pad_digits_digits: "c \<in> set (pad_digits k n) \<Longrightarrow> is_digit c"
  by (induction k arbitrary: n) auto

lemma nat_of_digits_pad [simp]: "nat_of_digits (pad_digits k n) = n mod 10 ^ k"
proof (induction k arbitrary: n)
  case (Suc k)
  then show ?case
    by (simp add: nat_of_digits_append mod_mult2_eq [of n 10 "10 ^ k"])
qed simp

lemma drop_underscores_none:
  "CHR ''_'' \<notin> set s \<Longrightarrow> prev \<noteq> CHR ''_'' \<Longrightarrow> drop_underscores prev s = Some s"
  by (induction s arbitrary: prev) auto

lemma py_round_abs: "\<bar>py_round n x\<bar> = py_round n \<bar>x\<bar>"
proof (cases "0 \<le> x")
  case False
  then have "0 \<le> py_round n (- x)" by (simp add: py_round_nonneg)
  with False show ?thesis by (simp add: py_round_minus)
qed (simp add: py_round_nonneg)

text \<open>The field \<open>f"{x:.nf}"\<close> reads back as \<open>x\<close> rounded to \<open>n\<close> places.\<close>

lemma fmt_fixed_chars: "c \<in> set (fmt_fixed n x) \<Longrightarrow> is_digit c \<or> c = CHR ''.'' \<or> c = CHR ''-''"
  by (auto simp: fmt_fixed_def Let_def dest: nat_str_digits pad_digits_digits split: if_splits)

lemma read_decimal_fixed:
  assumes "list_all is_digit a" "a \<noteq> []" "list_all is_digit b"
  shows "read_decimal (a @ CHR ''.'' # b) = Some (real (nat_of_digits (a @ b)) / 10 ^ length b)"
proof -
  have a: "\<forall>c \<in> set a. is_digit c" and b: "\<forall>c \<in> set b. is_digit c"
    using assms by (auto simp: list_all_iff)
  have dot: "\<not> is_digit (CHR ''.'')" by (simp add: is_digit_def)
  have ta: "takeWhile is_digit (a @ CHR ''.'' # b) = a" "dropWhile is_digit (a @ CHR ''.'' # b) = CHR ''.'' # b"
    using a dot by (simp_all add: takeWhile_append2 dropWhile_append2)
  have tb: "takeWhile is_digit b = b" "dropWhile is_digit b = []"
    using b by (simp_all add: takeWhile_eq_all_conv dropWhile_eq_Nil_conv)
  show ?thesis
    by (simp add: read_decimal_def ta tb assms(2) read_exponent_def scale10_def Let_def)
qed

lemma split_sign_digits: "s \<noteq> [] \<Longrightarrow> is_digit (hd s) \<Longrightarrow> split_sign s = (False, s)"
  by (cases s) (auto simp: split_sign_def is_digit_def)

lemma py_lower_digits: "s \<noteq> [] \<Longrightarrow> is_digit (hd s) \<Longrightarrow> py_lower s \<noteq> CHR ''i'' # u \<and> py_lower s \<noteq> CHR ''n'' # u"
  by (cases s) (auto simp: py_lower_def is_digit_def)

lemma py_float_parts:
  assumes "py_strip s = t" "drop_underscores (CHR 0x00) t = Some t" "split_sign t = (neg, b)"
    and "\<And>u. py_lower b \<noteq> CHR ''i'' # u \<and> py_lower b \<noteq> CHR ''n'' # u"
    and "read_decimal b = Some v"
  shows "py_float s = Some (to_pynum ((if neg then - 1 else 1) * v))"
  using assms by (simp add: py_float_def)

lemma py_float_signed:
  assumes "list_all is_digit a" "a \<noteq> []" "list_all is_digit b"
  shows "py_float ((if neg then ''-'' else []) @ a @ CHR ''.'' # b) =
    Some (to_pynum ((if neg then - 1 else 1) * (real (nat_of_digits (a @ b)) / 10 ^ length b)))"
proof -
  let ?b = "a @ CHR ''.'' # b" and ?s = "(if neg then ''-'' else []) @ a @ CHR ''.'' # b"
  have hd: "?b \<noteq> []" "is_digit (hd ?b)" using assms by (cases a; simp)+
  have chars: "is_digit c \<or> c = CHR ''.'' \<or> c = CHR ''-''" if "c \<in> set ?s" for c
    using that assms by (auto simp: list_all_iff split: if_splits)
  have "\<not> is_space c \<and> c \<noteq> CHR ''_''" if "c \<in> set ?s" for c
    using chars [OF that] digit_not_space by (auto simp: is_space_def is_digit_def)
  then have strip: "py_strip ?s = ?s" and "CHR ''_'' \<notin> set ?s"
    by (blast intro: py_strip_no_space)+
  from this(2) have under: "drop_underscores (CHR 0x00) ?s = Some ?s"
    by (rule drop_underscores_none) simp
  have sign: "split_sign ?s = (neg, ?b)"
    using split_sign_digits [OF hd] by (cases neg) (simp_all add: split_sign_def)
  show ?thesis
    by (rule py_float_parts [OF strip under sign py_lower_digits [OF hd] read_decimal_fixed [OF assms]])
qed

lemma py_round_fmt:
  "(if x < 0 then - 1 else 1) * (real (nat (round_half_even (\<bar>x\<bar> * 10 ^ n))) / 10 ^ n) = py_round n x"
proof -
  have "0 \<le> round_half_even (\<bar>x\<bar> * 10 ^ n)" by (simp add: round_half_even_nonneg)
  then have "real (nat (round_half_even (\<bar>x\<bar> * 10 ^ n))) / 10 ^ n = py_round n \<bar>x\<bar>"
    by (simp add: py_round_def)
  then show ?thesis using py_round_minus [of n x] by simp
qed

lemma py_float_fmt_fixed:
  assumes "\<bar>x\<bar> \<le> 10 ^ 300"
  shows "py_float (fmt_fixed n x) = Some (Fin (py_round n x))"
proof -
  let ?m = "nat (round_half_even (\<bar>x\<bar> * 10 ^ n))"
  have digits: "list_all is_digit (nat_str (?m div 10 ^ n))" "list_all is_digit (pad_digits n (?m mod 10 ^ n))"
    by (auto simp: list_all_iff dest: nat_str_digits pad_digits_digits)
  have "nat_of_digits (nat_str (?m div 10 ^ n) @ pad_digits n (?m mod 10 ^ n)) = ?m"
    by (simp add: nat_of_digits_append div_mult_mod_eq)
  moreover have "fmt_fixed n x = (if x < 0 then ''-'' else []) @
      nat_str (?m div 10 ^ n) @ CHR ''.'' # pad_digits n (?m mod 10 ^ n)"
    by (simp add: fmt_fixed_def Let_def)
  ultimately have "py_float (fmt_fixed n x) = Some (to_pynum (py_round n x))"
    using py_float_signed [OF digits(1) nat_str_not_Nil digits(2), of "x < 0"]
    by (simp only: length_pad_digits py_round_fmt)
  moreover have "\<bar>py_round n x\<bar> < float_limit"
  proof -
    have "(1::real) \<le> 10 ^ n" by (rule one_le_power) simp
    then have "1 \<le> 2 * (10::real) ^ n" by linarith
    then have "1 / (2 * 10 ^ n) \<le> (1::real)" by simp
    then have "\<bar>py_round n x\<bar> \<le> 10 ^ 300 + 1" using py_round_dist [of n x] assms by linarith
    also have "\<dots> < float_limit" by (rule float_limit_gt)
    finally show ?thesis .
  qed
  ultimately show ?thesis by (simp add: to_pynum_Fin)
qed

end
