(* ===== verification/Interlocks.thy ===== *)
theory Interlocks
  imports Py_Text
begin

unbundle bit_operations_syntax

text \<open>
  The anchor windlass (\<open>anchor_interlock_subroutine.py\<close>) and the flag changer
  (\<open>flag_changer_subroutine.py\<close>), and the contracts shared by the interlocks of this theory and of
  \<open>Authority\<close>: the locale \<open>latch\<close> (a protection that stays on until it is cleared) and the
  locale \<open>authority_gate\<close> (a mode register that only known modes can enter). Clock readings are
  arguments.
\<close>

section \<open>Contracts\<close>

locale latch =
  fixes step :: "'s \<Rightarrow> 'i \<Rightarrow> 's" and locked :: "'s \<Rightarrow> bool"
    and trip :: "'i \<Rightarrow> bool" and clear :: "'i \<Rightarrow> bool"
  assumes trip_locks: "trip i \<Longrightarrow> locked (step s i)"
    and quiet_keeps: "\<not> trip i \<Longrightarrow> locked (step s i) \<longleftrightarrow> locked s \<and> \<not> clear i"
begin

definition run :: "'s \<Rightarrow> 'i list \<Rightarrow> 's" where
  "run s is = foldl step s is"

lemma run_simps [simp]: "run s [] = s" "run s (is @ [i]) = step (run s is) i"
  by (simp_all add: run_def)

lemma step_locked: "locked (step s i) \<longleftrightarrow> trip i \<or> locked s \<and> \<not> clear i"
  using trip_locks quiet_keeps by blast

lemma locked_iff:
  assumes "\<not> locked s"
  shows "locked (run s is) \<longleftrightarrow>
    (\<exists>k < length is. trip (is ! k) \<and> (\<forall>j. k < j \<and> j < length is \<longrightarrow> trip (is ! j) \<or> \<not> clear (is ! j)))"
proof (induction "is" rule: rev_induct)
  case Nil
  with assms show ?case by simp
next
  case (snoc i "is")
  let ?n = "length is"
  have "locked (run s (is @ [i])) \<longleftrightarrow> trip i \<or> locked (run s is) \<and> \<not> clear i" by (simp add: step_locked)
  also have "\<dots> \<longleftrightarrow> (\<exists>k < Suc ?n. trip ((is @ [i]) ! k) \<and>
      (\<forall>j. k < j \<and> j < Suc ?n \<longrightarrow> trip ((is @ [i]) ! j) \<or> \<not> clear ((is @ [i]) ! j)))" (is "?L \<longleftrightarrow> (\<exists>k < _. ?R k)")
  proof
    assume ?L
    then consider "trip i" | "locked (run s is)" "\<not> clear i" by blast
    then show "\<exists>k < Suc ?n. ?R k"
    proof cases
      case 1
      then show ?thesis by (intro exI [of _ ?n]) auto
    next
      case 2
      then obtain k where "k < ?n" "trip (is ! k)" "\<forall>j. k < j \<and> j < ?n \<longrightarrow> trip (is ! j) \<or> \<not> clear (is ! j)"
        using snoc by blast
      with 2 show ?thesis by (intro exI [of _ k]) (auto simp: nth_append less_Suc_eq)
    qed
  next
    assume "\<exists>k < Suc ?n. ?R k"
    then obtain k where k: "k < Suc ?n" "?R k" by blast
    show ?L
    proof (cases "k = ?n")
      case False
      with k have kn: "k < ?n" and "trip (is ! k)" by (auto simp: nth_append)
      moreover have "trip i \<or> \<not> clear i" using k(2) kn by (auto dest: spec [of _ ?n])
      moreover have "trip (is ! j) \<or> \<not> clear (is ! j)" if "k < j" "j < ?n" for j
        using k(2) that by (auto simp: nth_append dest: spec [of _ j])
      ultimately have "locked (run s is)" "trip i \<or> \<not> clear i" using snoc by blast+
      then show ?thesis by blast
    qed (use k in simp)
  qed
  finally show ?case by simp
qed

end

locale authority_gate =
  fixes mode :: "'s \<Rightarrow> string" and request :: "'s \<Rightarrow> 'r \<Rightarrow> 's \<times> bool"
    and asked :: "'r \<Rightarrow> string" and allowed :: "string set"
  assumes granted: "asked r \<in> allowed \<Longrightarrow> snd (request s r) \<and> mode (fst (request s r)) = asked r"
    and refused: "asked r \<notin> allowed \<Longrightarrow> request s r = (s, False)"
begin

definition serve :: "'s \<Rightarrow> 'r list \<Rightarrow> 's" where
  "serve s rs = foldl (\<lambda>s r. fst (request s r)) s rs"

lemma serve_simps [simp]: "serve s [] = s" "serve s (rs @ [r]) = fst (request (serve s rs) r)"
  by (simp_all add: serve_def)

lemma mode_last_granted:
  "mode (serve s rs) = (case filter (\<lambda>r. asked r \<in> allowed) (rev rs) of [] \<Rightarrow> mode s | r # _ \<Rightarrow> asked r)"
proof (induction rs rule: rev_induct)
  case (snoc r rs)
  then show ?case using granted [of r] refused [of r] by (cases "asked r \<in> allowed") auto
qed simp

lemma mode_allowed: "mode s \<in> allowed \<Longrightarrow> mode (serve s rs) \<in> allowed"
proof (induction rs rule: rev_induct)
  case (snoc r rs)
  then show ?case using granted [of r] refused [of r] by (cases "asked r \<in> allowed") auto
qed simp

end

section \<open>The anchor windlass\<close>

datatype anchor_mode = RELEASED | RETRACTING | LOCKED_EMERGENCY

record anchor_plant =
  anchor_state :: anchor_mode
  navy_manual_override_unlocked :: bool

record anchor_report =
  anchor_lock_state :: anchor_mode
  command_windlass_clutch_engage :: nat
  command_brake_solenoid_lock :: nat
  sea_machines_anchor_authority_allowed :: bool
  telemetry_status_message :: string

definition anchor_init :: anchor_plant where
  "anchor_init = \<lparr>anchor_state = RELEASED, navy_manual_override_unlocked = True\<rparr>"

definition weapon_is_awake :: "num_dict \<Rightarrow> bool" where
  "weapon_is_awake weapon_metrics =
     (let az_rate = \<bar>dget weapon_metrics ''azimuth_rate_rads'' 0\<bar>;
          el_rate = \<bar>dget weapon_metrics ''elevation_rate_rads'' 0\<bar>;
          firing_active = dflag weapon_metrics ''bus_sync_active'' \<or> dflag weapon_metrics ''engagement_sequence_active''
      in az_rate > 0.02 \<or> el_rate > 0.02 \<or> firing_active)"

definition evaluate_anchor_safety_matrix :: "anchor_plant \<Rightarrow> num_dict \<Rightarrow> bool \<Rightarrow> anchor_plant \<times> anchor_report" where
  "evaluate_anchor_safety_matrix p weapon_metrics user_override_unlock =
     (let p = p\<lparr>navy_manual_override_unlocked := user_override_unlock\<rparr>;
          (st, clutch, brake, msg, allowed) =
            (if weapon_is_awake weapon_metrics
             then (LOCKED_EMERGENCY, 1, 1, ''CRITICAL: Weapons Awake. Anchor Interlock Forced LOCKED.'', False)
             else if anchor_state p = LOCKED_EMERGENCY then
               if navy_manual_override_unlocked p
               then (RELEASED, 0, 0, ''NOMINAL: Navy Override Active. Anchor released to Sea Machines.'', True)
               else (LOCKED_EMERGENCY, 1, 1, ''HOLD: Weapons Secure. Awaiting Manual Navy Unlock Command.'', False)
             else (RELEASED, 0, 0, ''NOMINAL: Sea Machines autonomous anchor loop active.'', True))
      in (p\<lparr>anchor_state := st\<rparr>,
          \<lparr>anchor_lock_state = st, command_windlass_clutch_engage = clutch, command_brake_solenoid_lock = brake,
           sea_machines_anchor_authority_allowed = allowed, telemetry_status_message = msg\<rparr>))"

definition anchor_next :: "anchor_plant \<Rightarrow> num_dict \<times> bool \<Rightarrow> anchor_plant" where
  "anchor_next p i = fst (evaluate_anchor_safety_matrix p (fst i) (snd i))"

definition anchor_run :: "anchor_plant \<Rightarrow> (num_dict \<times> bool) list \<Rightarrow> anchor_plant" where
  "anchor_run = foldl anchor_next"

interpretation anchor: latch anchor_next "\<lambda>p. anchor_state p = LOCKED_EMERGENCY"
  "\<lambda>i. weapon_is_awake (fst i)" snd
  by unfold_locales (auto simp: anchor_next_def evaluate_anchor_safety_matrix_def Let_def)

lemma anchor_run_eq: "anchor_run = anchor.run"
  by (simp add: fun_eq_iff anchor_run_def anchor.run_def)

lemma anchor_outputs:
  assumes "evaluate_anchor_safety_matrix p m u = (p', r)"
  shows "anchor_lock_state r = anchor_state p'"
    and "anchor_state p' = LOCKED_EMERGENCY \<Longrightarrow> command_windlass_clutch_engage r = 1 \<and> command_brake_solenoid_lock r = 1
           \<and> \<not> sea_machines_anchor_authority_allowed r"
    and "anchor_state p' \<noteq> LOCKED_EMERGENCY \<Longrightarrow> anchor_state p' = RELEASED \<and> command_windlass_clutch_engage r = 0
           \<and> command_brake_solenoid_lock r = 0 \<and> sea_machines_anchor_authority_allowed r"
  using assms by (auto simp: evaluate_anchor_safety_matrix_def Let_def split: if_splits)

text \<open>Property C12. Over any history of bridge cycles from start-up, Sea Machines gets the anchor
  in the last cycle exactly when every cycle in which the weapons were awake is followed by a
  later quiet cycle with the Navy unlock given, and the clutch, the brake and the lock state
  of that cycle all agree with the answer.
\<close>

theorem anchor_released_iff_cleared:
  assumes "is \<noteq> []"
    and r: "r = snd (evaluate_anchor_safety_matrix (anchor_run anchor_init (butlast is)) (fst (last is)) (snd (last is)))"
  shows "(sea_machines_anchor_authority_allowed r \<longleftrightarrow>
      (\<forall>k < length is. weapon_is_awake (fst (is ! k)) \<longrightarrow>
         (\<exists>j. k < j \<and> j < length is \<and> \<not> weapon_is_awake (fst (is ! j)) \<and> snd (is ! j))))
    \<and> (anchor_lock_state r = RELEASED \<longleftrightarrow> sea_machines_anchor_authority_allowed r)
    \<and> command_windlass_clutch_engage r = (if sea_machines_anchor_authority_allowed r then 0 else 1)
    \<and> command_brake_solenoid_lock r = (if sea_machines_anchor_authority_allowed r then 0 else 1)"
proof -
  obtain p' r' where ev: "evaluate_anchor_safety_matrix (anchor_run anchor_init (butlast is)) (fst (last is)) (snd (last is)) = (p', r')"
    by (cases "evaluate_anchor_safety_matrix (anchor_run anchor_init (butlast is)) (fst (last is)) (snd (last is))")
  have "anchor.run anchor_init is = anchor_next (anchor.run anchor_init (butlast is)) (last is)"
    using anchor.run_simps(2) [of anchor_init "butlast is" "last is"] assms(1) by simp
  then have p': "p' = anchor.run anchor_init is" using ev by (simp add: anchor_next_def anchor_run_eq)
  have "anchor_state p' = LOCKED_EMERGENCY \<longleftrightarrow> (\<exists>k < length is. weapon_is_awake (fst (is ! k)) \<and>
      (\<forall>j. k < j \<and> j < length is \<longrightarrow> weapon_is_awake (fst (is ! j)) \<or> \<not> snd (is ! j)))"
    unfolding p' by (rule anchor.locked_iff) (simp add: anchor_init_def)
  moreover have "sea_machines_anchor_authority_allowed r \<longleftrightarrow> anchor_state p' \<noteq> LOCKED_EMERGENCY"
    using anchor_outputs [OF ev] r ev by auto
  ultimately show ?thesis using anchor_outputs [OF ev] r ev
    by (cases "anchor_state p' = LOCKED_EMERGENCY") auto
qed

theorem anchor_released_iff_cleared_witness:
  "sea_machines_anchor_authority_allowed (snd (evaluate_anchor_safety_matrix
     (anchor_run anchor_init [([''azimuth_rate_rads'' \<mapsto> 0.15], True), (Map.empty, False)]) Map.empty True))"
proof -
  let ?is = "[([''azimuth_rate_rads'' \<mapsto> 0.15], True), (Map.empty, False), (Map.empty, True)] :: (num_dict \<times> bool) list"
  have "\<forall>k < length ?is. weapon_is_awake (fst (?is ! k)) \<longrightarrow>
      (\<exists>j. k < j \<and> j < length ?is \<and> \<not> weapon_is_awake (fst (?is ! j)) \<and> snd (?is ! j))"
    by (auto simp: weapon_is_awake_def less_Suc_eq intro!: exI [of _ "Suc (Suc 0)"])
  then show ?thesis using anchor_released_iff_cleared [of ?is, OF _ refl] by simp
qed

section \<open>The flag changer\<close>

datatype flag_state = ENSIGN | COMBAT | RESTRICTED

record flag_plant =
  current_flag_state :: flag_state
  last_transition_time :: real
  halyard_motor_position_pct :: real

record flag_report =
  active_flag_state_string :: flag_state
  commanded_halyard_motor_position_pct :: real
  actuator_motor_power_relay :: nat
  actuator_mechanical_lock_pin :: nat
  telemetry_flag_log_message :: string

definition flag_init :: "real \<Rightarrow> flag_plant" where
  "flag_init now = \<lparr>current_flag_state = ENSIGN, last_transition_time = now, halyard_motor_position_pct = 0\<rparr>"

definition flag_target :: "num_dict \<Rightarrow> num_dict \<Rightarrow> flag_state \<times> real \<times> string" where
  "flag_target weapon_state telemetry =
     (let az_rate = \<bar>dget weapon_state ''azimuth_rate_rads'' 0\<bar>;
          firing_active = dflag weapon_state ''bus_sync_active'' \<or> dflag weapon_state ''engagement_sequence_active'';
          dist_to_bank = dget telemetry ''distance_to_bank_meters'' 100;
          shallow_slowdown = dflag telemetry ''shallow_water_slowdown_active'';
          weapons_are_active = az_rate > 0.02 \<or> firing_active;
          is_maneuverability_restricted = dist_to_bank < 20 \<or> shallow_slowdown
      in if weapons_are_active
         then (COMBAT, 100, ''WEAPONS ENGAGED: Hoisting High-Visibility Battle Ensign.'')
         else if is_maneuverability_restricted
         then (RESTRICTED, 50, ''RESTRICTED CHANNEL: Deploying international safety signaling codes.'')
         else (ENSIGN, 0, ''CRUISING PROFILE: Maintaining standard sovereign ensign.''))"

definition evaluate_flag_logic_matrix ::
    "flag_plant \<Rightarrow> real \<Rightarrow> num_dict \<Rightarrow> num_dict \<Rightarrow> flag_plant \<times> flag_report" where
  "evaluate_flag_logic_matrix p current_time weapon_state telemetry =
     (let (target_state, halyard_target_pct, action_description) = flag_target weapon_state telemetry;
          p = (if current_flag_state p \<noteq> target_state
               then p\<lparr>current_flag_state := target_state, last_transition_time := current_time\<rparr> else p);
          error_pct = halyard_target_pct - halyard_motor_position_pct p;
          moving = \<bar>error_pct\<bar> > 0.1;
          motor_moving_relay = (if moving then 1 else 0);
          p = p\<lparr>halyard_motor_position_pct :=
                  if moving then halyard_motor_position_pct p + error_pct * 0.1 else halyard_target_pct\<rparr>
      in (p, \<lparr>active_flag_state_string = current_flag_state p,
              commanded_halyard_motor_position_pct = py_round 1 (halyard_motor_position_pct p),
              actuator_motor_power_relay = motor_moving_relay,
              actuator_mechanical_lock_pin = (if motor_moving_relay = 0 then 1 else 0),
              telemetry_flag_log_message = action_description\<rparr>))"

text \<open>A history of cycles: clock reading, weapon state and telemetry of each.\<close>

definition flag_run :: "flag_plant \<Rightarrow> (real \<times> num_dict \<times> num_dict) list \<Rightarrow> flag_plant" where
  "flag_run = foldl (\<lambda>p (now, w, t). fst (evaluate_flag_logic_matrix p now w t))"

fun flag_position :: "flag_state \<Rightarrow> real" where
  "flag_position COMBAT = 100"
| "flag_position RESTRICTED = 50"
| "flag_position ENSIGN = 0"

abbreviation flag_halyard :: "num_dict \<times> num_dict \<Rightarrow> real" where
  "flag_halyard wt \<equiv> fst (snd (flag_target (fst wt) (snd wt)))"

lemma flag_step_state [simp]:
  "current_flag_state (fst (evaluate_flag_logic_matrix p now w t)) = fst (flag_target w t)"
  "halyard_motor_position_pct (fst (evaluate_flag_logic_matrix p now w t)) =
     (let e = flag_halyard (w, t) - halyard_motor_position_pct p
      in if \<bar>e\<bar> > 0.1 then halyard_motor_position_pct p + e * 0.1 else flag_halyard (w, t))"
  by (simp_all add: evaluate_flag_logic_matrix_def Let_def split: prod.splits)

text \<open>
  While the commanded position stays the same, the error shrinks by a tenth per cycle until
  it is at most 0.1, and then is zero for good.
\<close>

lemma flag_error_step:
  assumes "flag_halyard (w, t) = h"
  shows "let d = \<bar>h - halyard_motor_position_pct (fst (evaluate_flag_logic_matrix p now w t))\<bar> in
     d \<le> 0.9 * \<bar>h - halyard_motor_position_pct p\<bar> \<and> (\<bar>h - halyard_motor_position_pct p\<bar> \<le> 0.1 \<longrightarrow> d = 0)"
proof -
  let ?x = "halyard_motor_position_pct p"
  have "h - (?x + (h - ?x) * 0.1) = 0.9 * (h - ?x)" by (simp add: field_simps)
  then have "\<bar>h - (?x + (h - ?x) * 0.1)\<bar> = 0.9 * \<bar>h - ?x\<bar>" by (simp only: abs_mult)
  then show ?thesis using assms by (simp add: Let_def)
qed

lemma flag_error_run:
  assumes "\<forall>(now, w, t) \<in> set is. flag_halyard (w, t) = h"
    and "0 \<le> halyard_motor_position_pct p" "halyard_motor_position_pct p \<le> 100" "0 \<le> h" "h \<le> 100"
  shows "\<bar>h - halyard_motor_position_pct (flag_run p is)\<bar> \<le> 100 * 0.9 ^ length is"
  using assms(1)
proof (induction "is" rule: rev_induct)
  case Nil
  then show ?case using assms(2-) by (auto simp: flag_run_def)
next
  case (snoc i "is")
  obtain now w t where i: "i = (now, w, t)" by (cases i)
  let ?q = "flag_run p is"
  have "flag_halyard (w, t) = h" using snoc.prems i by auto
  then have "\<bar>h - halyard_motor_position_pct (fst (evaluate_flag_logic_matrix ?q now w t))\<bar>
      \<le> 0.9 * \<bar>h - halyard_motor_position_pct ?q\<bar>"
    using flag_error_step [of w t h ?q now] by (simp only: Let_def)
  also have "\<dots> \<le> 0.9 * (100 * 0.9 ^ length is)"
    using snoc by (intro mult_left_mono) auto
  finally show ?case by (simp add: i flag_run_def del: flag_step_state)
qed

text \<open>Property C30. Liveness of the halyard: from any mast position between 0 and 100 percent, once
  the posture inputs command the same flag state for at least 67 cycles followed by one more,
  that last cycle reports the commanded state with the halyard exactly at that state's
  position, the motor off and the mechanical pin locked.
\<close>

theorem halyard_settles_and_locks:
  assumes "0 \<le> halyard_motor_position_pct p" "halyard_motor_position_pct p \<le> 100"
    and same: "\<forall>(now, w, t) \<in> set (is @ [(now', w', t')]). fst (flag_target w t) = st"
    and "67 \<le> length is"
  shows "let (q, r) = evaluate_flag_logic_matrix (flag_run p is) now' w' t';
             pos = flag_position st
         in active_flag_state_string r = st \<and> current_flag_state q = st \<and> halyard_motor_position_pct q = pos
          \<and> commanded_halyard_motor_position_pct r = pos
          \<and> actuator_motor_power_relay r = 0 \<and> actuator_mechanical_lock_pin r = 1"
proof -
  let ?pos = "flag_position st"
  have halyard: "flag_halyard (w, t) = ?pos" if "fst (flag_target w t) = st" for w t
    using that by (auto simp: flag_target_def Let_def split: if_splits)
  then have "\<forall>(now, w, t) \<in> set is. flag_halyard (w, t) = ?pos" using same by auto
  then have "\<bar>?pos - halyard_motor_position_pct (flag_run p is)\<bar> \<le> 100 * 0.9 ^ length is"
    by (rule flag_error_run) (use assms(1,2) in \<open>cases st; simp\<close>)+
  also have "\<dots> \<le> 100 * 0.9 ^ 67" using assms(4) by (intro mult_left_mono power_decreasing) auto
  also have "\<dots> \<le> 0.1" by (simp add: power_divide)
  finally have small: "\<not> \<bar>?pos - halyard_motor_position_pct (flag_run p is)\<bar> > 0.1" by simp
  have st: "fst (flag_target w' t') = st" "fst (snd (flag_target w' t')) = ?pos" using same halyard [of w' t'] by auto
  have "py_round 1 ?pos = ?pos"
    using py_round_grid [of 100 1 1000] py_round_grid [of 50 1 500] by (cases st) simp_all
  with small st show ?thesis
    by (simp add: evaluate_flag_logic_matrix_def Let_def split_beta)
qed

theorem halyard_settles_and_locks_witness:
  "actuator_mechanical_lock_pin (snd (evaluate_flag_logic_matrix
     (flag_run (flag_init 0) (replicate 67 (1, Map.empty, [''distance_to_bank_meters'' \<mapsto> 5])))
     2 Map.empty [''distance_to_bank_meters'' \<mapsto> 5])) = 1"
  using halyard_settles_and_locks [of "flag_init 0" "replicate 67 (1, Map.empty, [''distance_to_bank_meters'' \<mapsto> 5])"
      2 Map.empty "[''distance_to_bank_meters'' \<mapsto> 5]" RESTRICTED]
  by (simp add: flag_init_def flag_target_def split: prod.splits)

end
