(* ===== verification/Authority.thy ===== *)
theory Authority
  imports Interlocks
begin

unbundle bit_operations_syntax

text \<open>
  The bilge discharge gate (\<open>bilge_gating_subroutine.py\<close>), the tri-state bilge authority
  router (\<open>bilge_authority_router.py\<close>), the shore infrastructure core
  (\<open>base_infrastructure_core.py\<close>) and the central warning registry
  (\<open>central_warning_registry.py\<close>). Both authority registers interpret \<open>authority_gate\<close>.
\<close>

section \<open>The bilge discharge gate\<close>

datatype valve_mode = SECURED | DISCHARGING_OVERBOARD | RECIRCULATING_FAULT

record bilge_gate =
  ppm_limit :: real
  valve_state :: valve_mode
  total_liters_discharged :: real
  last_execution_time :: real

record bilge_report =
  gating_valve_state_string :: valve_mode
  actuator_overboard_valve_open :: nat
  actuator_recirculation_valve_open :: nat
  total_clean_water_discharged_liters :: real
  bilge_log_message :: string

definition bilge_gate_init :: "real \<Rightarrow> real \<Rightarrow> bilge_gate" where
  "bilge_gate_init critical_oil_threshold_ppm now =
     \<lparr>ppm_limit = critical_oil_threshold_ppm, valve_state = SECURED, total_liters_discharged = 0,
      last_execution_time = now\<rparr>"

definition is_sloshing_severe :: "num_dict \<Rightarrow> bool" where
  "is_sloshing_severe telemetry =
     (let roll_rate = \<bar>dget telemetry ''roll_rate_rads'' 0\<bar>; pitch_angle = \<bar>dget telemetry ''pitch_angle_rad'' 0\<bar>
      in roll_rate > 0.12 \<or> pitch_angle > 0.08)"

definition evaluate_discharge_safety_matrix ::
    "bilge_gate \<Rightarrow> real \<Rightarrow> num_dict \<Rightarrow> real \<Rightarrow> bilge_gate \<times> bilge_report" where
  "evaluate_discharge_safety_matrix g current_time telemetry ocm_ppm_sensor =
     (let dt = current_time - last_execution_time g;
          g = g\<lparr>last_execution_time := current_time\<rparr>;
          bilge_pump_active = dflag telemetry ''bilge_pump_active_relay'';
          (st, overboard, recirc, msg, litres) =
            (if \<not> bilge_pump_active
             then (SECURED, 0, 0, ''Pumping inactive. Overboard discharge lines closed.'', 0)
             else if ocm_ppm_sensor \<ge> ppm_limit g
             then (RECIRCULATING_FAULT, 0, 1,
                   ''CRITICAL FAULT: Bilge oil at '' @ fmt_fixed 2 ocm_ppm_sensor @ '' PPM. Recirculation locked.'', 0)
             else if is_sloshing_severe telemetry \<and> ocm_ppm_sensor > 8
             then (RECIRCULATING_FAULT, 0, 1, ''WARNING: Heavy hull sloshing detected. Holding overboard discharge.'', 0)
             else (DISCHARGING_OVERBOARD, 1, 0,
                   ''NOMINAL: Discharging clean water ('' @ fmt_fixed 2 ocm_ppm_sensor @ '' PPM).'', 5 * dt));
          g = g\<lparr>valve_state := st, total_liters_discharged := total_liters_discharged g + litres\<rparr>
      in (g, \<lparr>gating_valve_state_string = st, actuator_overboard_valve_open = overboard,
              actuator_recirculation_valve_open = recirc,
              total_clean_water_discharged_liters = py_round 1 (total_liters_discharged g),
              bilge_log_message = msg\<rparr>))"

definition bilge_run :: "bilge_gate \<Rightarrow> (real \<times> num_dict \<times> real) list \<Rightarrow> bilge_gate" where
  "bilge_run = foldl (\<lambda>g (now, t, ppm). fst (evaluate_discharge_safety_matrix g now t ppm))"

text \<open>The contract: what may go over the side.\<close>

definition discharge_legal :: "real \<Rightarrow> num_dict \<Rightarrow> real \<Rightarrow> bool" where
  "discharge_legal limit t ppm \<longleftrightarrow> dflag t ''bilge_pump_active_relay'' \<and> ppm < limit
     \<and> (ppm \<le> 8 \<or> \<not> is_sloshing_severe t)"

fun legal_seconds :: "real \<Rightarrow> real \<Rightarrow> (real \<times> num_dict \<times> real) list \<Rightarrow> real" where
  "legal_seconds limit t0 [] = 0"
| "legal_seconds limit t0 ((now, t, ppm) # is) =
     (if discharge_legal limit t ppm then now - t0 else 0) + legal_seconds limit now is"

lemma bilge_step:
  "valve_state (fst (evaluate_discharge_safety_matrix g now t ppm)) = DISCHARGING_OVERBOARD \<longleftrightarrow> discharge_legal (ppm_limit g) t ppm"
  "ppm_limit (fst (evaluate_discharge_safety_matrix g now t ppm)) = ppm_limit g"
  "last_execution_time (fst (evaluate_discharge_safety_matrix g now t ppm)) = now"
  "total_liters_discharged (fst (evaluate_discharge_safety_matrix g now t ppm)) =
     total_liters_discharged g + 5 * (if discharge_legal (ppm_limit g) t ppm then now - last_execution_time g else 0)"
  by (auto simp: evaluate_discharge_safety_matrix_def discharge_legal_def Let_def)

lemma bilge_report:
  assumes "evaluate_discharge_safety_matrix g now t ppm = (g', r)"
  shows "actuator_overboard_valve_open r = (if discharge_legal (ppm_limit g) t ppm then 1 else 0)"
    and "actuator_recirculation_valve_open r =
      (if dflag t ''bilge_pump_active_relay'' \<and> \<not> discharge_legal (ppm_limit g) t ppm then 1 else 0)"
    and "gating_valve_state_string r = valve_state g'"
    and "total_clean_water_discharged_liters r = py_round 1 (total_liters_discharged g')"
  using assms by (auto simp: evaluate_discharge_safety_matrix_def discharge_legal_def Let_def split: if_splits)

lemma bilge_run_total:
  "total_liters_discharged (bilge_run g is) = total_liters_discharged g + 5 * legal_seconds (ppm_limit g) (last_execution_time g) is"
  "ppm_limit (bilge_run g is) = ppm_limit g"
proof (induction "is" arbitrary: g)
  case (Cons i "is") 
  { case 1 then show ?case using Cons [of "fst (evaluate_discharge_safety_matrix g (fst i) (fst (snd i)) (snd (snd i)))"]
      by (cases i) (auto simp: bilge_run_def bilge_step algebra_simps) }
  { case 2 then show ?case using Cons [of "fst (evaluate_discharge_safety_matrix g (fst i) (fst (snd i)) (snd (snd i)))"]
      by (cases i) (auto simp: bilge_run_def bilge_step) }
qed (simp_all add: bilge_run_def)



section \<open>The bilge authority router\<close>

record bilge_router =
  active_authority_mode :: string
  last_mode_change_time :: real

definition bilge_router_init :: "real \<Rightarrow> bilge_router" where
  "bilge_router_init now = \<lparr>active_authority_mode = ''UNIVAC'', last_mode_change_time = now\<rparr>"

definition quoted :: "string \<Rightarrow> string" where
  "quoted s = [CHR 0x27] @ s @ [CHR 0x27]"

text \<open>The requested mode comes with the clock reading of the call.\<close>

definition set_control_authority :: "bilge_router \<Rightarrow> string \<times> real \<Rightarrow> bilge_router \<times> bool \<times> string" where
  "set_control_authority r req =
     (let (requested_mode, now) = req;
          sanitized_mode = py_strip (py_upper requested_mode)
      in if sanitized_mode \<in> {''UNIVAC'', ''REPLACEMENT'', ''SEA_MACHINES''} then
           if active_authority_mode r \<noteq> sanitized_mode
           then (r\<lparr>active_authority_mode := sanitized_mode, last_mode_change_time := now\<rparr>, True,
                 ''AUTHORITY CHANGED ON THE FLY TO: '' @ sanitized_mode)
           else (r, True, ''Authority already held by: '' @ sanitized_mode)
         else (r, False, ''REJECTED: Unknown authority mode code requested: '' @ quoted requested_mode))"

record resolved_valves =
  resolved_mode :: string
  routing_source_string :: string
  resolved_overboard_valve_open :: real
  resolved_recirculation_valve_open :: real
  timestamp_resolved :: real

definition valve_commands :: "num_dict \<Rightarrow> real \<times> real" where
  "valve_commands d = (dget d ''actuator_overboard_valve_open'' 0, dget d ''actuator_recirculation_valve_open'' 0)"

definition resolve_final_actuator_commands ::
    "bilge_router \<Rightarrow> real \<Rightarrow> num_dict \<Rightarrow> num_dict \<Rightarrow> num_dict \<Rightarrow> resolved_valves" where
  "resolve_final_actuator_commands r now univac_pass_through our_physics_loop seamachines_input =
     (let ((final_overboard, final_recirc), routing_source) =
            (if active_authority_mode r = ''UNIVAC'' then (valve_commands univac_pass_through, ''UNIVAC_MAINFRAME_PASS_THROUGH'')
             else if active_authority_mode r = ''REPLACEMENT'' then (valve_commands our_physics_loop, ''OUR_CORE_PHYSICS_LOOP'')
             else if active_authority_mode r = ''SEA_MACHINES'' then (valve_commands seamachines_input, ''SEA_MACHINES_EXTERNAL_AUTONOMY'')
             else ((0, 0), ''EMERGENCY_ROUTER_FALLBACK_SECURED''))
      in \<lparr>resolved_mode = active_authority_mode r, routing_source_string = routing_source,
          resolved_overboard_valve_open = final_overboard, resolved_recirculation_valve_open = final_recirc,
          timestamp_resolved = now\<rparr>)"

definition bilge_modes :: "string set" where
  "bilge_modes = {''UNIVAC'', ''REPLACEMENT'', ''SEA_MACHINES''}"

definition bilge_request :: "bilge_router \<Rightarrow> string \<times> real \<Rightarrow> bilge_router \<times> bool" where
  "bilge_request r req = (let (r', ok, _) = set_control_authority r req in (r', ok))"

definition bilge_serve :: "bilge_router \<Rightarrow> (string \<times> real) list \<Rightarrow> bilge_router" where
  "bilge_serve = foldl (\<lambda>r req. fst (set_control_authority r req))"

interpretation bilge_gate: authority_gate active_authority_mode bilge_request
  "\<lambda>req. py_strip (py_upper (fst req))" bilge_modes
  by unfold_locales (auto simp: bilge_request_def set_control_authority_def bilge_modes_def Let_def)

lemma bilge_serve_eq: "bilge_serve = bilge_gate.serve"
  by (auto simp: fun_eq_iff bilge_serve_def bilge_gate.serve_def bilge_request_def split_beta Let_def
      intro!: foldl_cong)

text \<open>Whatever requests arrive, the valves follow exactly one source: that of the
  last request naming a known mode (the mainframe if there was none), so the emergency
  fallback is never reached and the other two inputs have no influence.
\<close>

theorem bilge_single_authority:
  "let m = (case filter (\<lambda>q. py_strip (py_upper (fst q)) \<in> bilge_modes) (rev qs) of [] \<Rightarrow> ''UNIVAC'' | q # _ \<Rightarrow> py_strip (py_upper (fst q)));
       out = resolve_final_actuator_commands (bilge_serve (bilge_router_init t0) qs) now u p s;
       src = (if m = ''UNIVAC'' then u else if m = ''REPLACEMENT'' then p else s)
   in resolved_mode out = m \<and> m \<in> bilge_modes \<and> routing_source_string out \<noteq> ''EMERGENCY_ROUTER_FALLBACK_SECURED''
      \<and> resolved_overboard_valve_open out = dget src ''actuator_overboard_valve_open'' 0
      \<and> resolved_recirculation_valve_open out = dget src ''actuator_recirculation_valve_open'' 0"
proof -
  let ?r = "bilge_serve (bilge_router_init t0) qs"
  have "active_authority_mode ?r = (case filter (\<lambda>q. py_strip (py_upper (fst q)) \<in> bilge_modes) (rev qs) of
      [] \<Rightarrow> ''UNIVAC'' | q # _ \<Rightarrow> py_strip (py_upper (fst q)))"
    unfolding bilge_serve_eq bilge_gate.mode_last_granted by (simp add: bilge_router_init_def split: list.split)
  moreover have "active_authority_mode ?r \<in> bilge_modes"
    unfolding bilge_serve_eq by (rule bilge_gate.mode_allowed) (simp add: bilge_router_init_def bilge_modes_def)
  ultimately show ?thesis
    by (auto simp: resolve_final_actuator_commands_def valve_commands_def bilge_modes_def Let_def)
qed

section \<open>The shore infrastructure core\<close>

text \<open>\<open>int(x)\<close> on a float truncates towards zero.\<close>

definition py_int :: "real \<Rightarrow> int" where
  "py_int x = (if 0 \<le> x then \<lfloor>x\<rfloor> else \<lceil>x\<rceil>)"

lemma py_int_eq_0: "py_int x = 0 \<longleftrightarrow> \<bar>x\<bar> < 1"
  by (auto simp: py_int_def) linarith+

record base_cache =
  crane_hoist_power_pct :: real
  crane_hook_lock_solenoid :: nat
  blast_door_actuator_state :: nat
  substation_breaker_relay :: nat
  sump_pump_override_relay :: nat
  hvac_dehumidifier_setpoint :: real
  climate_heating_valve_open :: nat

record base_core =
  active_routing_mode :: string
  base_telemetry_cache :: base_cache
  last_update_time :: real

record base_report =
  base_authority_mode :: string
  resolved_infrastructure_source :: string
  dispatched_actuator_cache :: base_cache
  base_timestamp :: real

definition base_core_init :: "real \<Rightarrow> base_core" where
  "base_core_init now =
     \<lparr>active_routing_mode = ''UNIVAC_DIRECT'',
      base_telemetry_cache =
        \<lparr>crane_hoist_power_pct = 0, crane_hook_lock_solenoid = 1, blast_door_actuator_state = 0,
         substation_breaker_relay = 1, sump_pump_override_relay = 0, hvac_dehumidifier_setpoint = 45,
         climate_heating_valve_open = 0\<rparr>,
      last_update_time = now\<rparr>"

definition set_base_routing_authority :: "base_core \<Rightarrow> string \<times> real \<Rightarrow> base_core \<times> bool \<times> string" where
  "set_base_routing_authority c req =
     (let (requested_mode, now) = req;
          sanitized = py_strip (py_upper requested_mode)
      in if sanitized \<in> {''UNIVAC_DIRECT'', ''NETWORK_OVERRIDE''}
         then (if active_routing_mode c \<noteq> sanitized
               then c\<lparr>active_routing_mode := sanitized, last_update_time := now\<rparr> else c,
               True, ''BASE INFRASTRUCTURE CONTROL ROUTED TO: '' @ sanitized)
         else (c, False, ''REJECTED: Invalid base authority mode code: '' @ quoted requested_mode))"

definition relay_bit :: "real \<Rightarrow> nat" where
  "relay_bit x = (if py_int x \<noteq> 0 then 1 else 0)"

definition resolve_base_cache :: "num_dict \<Rightarrow> base_cache" where
  "resolve_base_cache src =
     \<lparr>crane_hoist_power_pct = clamp (- 100) 100 (dget src ''crane_hoist_power_pct'' 0),
      crane_hook_lock_solenoid = relay_bit (dget src ''crane_hook_lock_solenoid'' 1),
      blast_door_actuator_state = relay_bit (dget src ''blast_door_actuator_state'' 0),
      substation_breaker_relay = relay_bit (dget src ''substation_breaker_relay'' 1),
      sump_pump_override_relay = relay_bit (dget src ''sump_pump_override_relay'' 0),
      hvac_dehumidifier_setpoint = clamp 20 85 (dget src ''hvac_dehumidifier_setpoint'' 45),
      climate_heating_valve_open = relay_bit (dget src ''climate_heating_valve_open'' 0)\<rparr>"

definition execute_infrastructure_update_step ::
    "base_core \<Rightarrow> real \<Rightarrow> num_dict \<Rightarrow> num_dict \<Rightarrow> base_core \<times> base_report" where
  "execute_infrastructure_update_step c now network_commands legacy_mainframe_inputs =
     (let mode = active_routing_mode c;
          (active_input_source, source_string) =
            (if mode = ''NETWORK_OVERRIDE'' then (network_commands, ''NETWORK_REMOTE_CONSOLE'')
             else (legacy_mainframe_inputs, ''UNIVAC_MAINFRAME_PASS_THROUGH''));
          cache = resolve_base_cache active_input_source
      in (c\<lparr>base_telemetry_cache := cache\<rparr>,
          \<lparr>base_authority_mode = mode, resolved_infrastructure_source = source_string,
           dispatched_actuator_cache = cache, base_timestamp = now\<rparr>))"

definition get_infrastructure_snapshot :: "base_core \<Rightarrow> base_cache" where
  "get_infrastructure_snapshot c = base_telemetry_cache c"

text \<open>The operations of the core as events, in the order their locks serialise them.\<close>

datatype base_event = Set_Authority string real | Update_Step real num_dict num_dict

fun base_step :: "base_core \<Rightarrow> base_event \<Rightarrow> base_core" where
  "base_step c (Set_Authority m now) = fst (set_base_routing_authority c (m, now))"
| "base_step c (Update_Step now n l) = fst (execute_infrastructure_update_step c now n l)"

definition base_run :: "base_core \<Rightarrow> base_event list \<Rightarrow> base_core" where
  "base_run = foldl base_step"

definition base_modes :: "string set" where
  "base_modes = {''UNIVAC_DIRECT'', ''NETWORK_OVERRIDE''}"

definition base_request :: "base_core \<Rightarrow> string \<times> real \<Rightarrow> base_core \<times> bool" where
  "base_request c req = (let (c', ok, _) = set_base_routing_authority c req in (c', ok))"

interpretation base_gate: authority_gate active_routing_mode base_request
  "\<lambda>req. py_strip (py_upper (fst req))" base_modes
  by unfold_locales (auto simp: base_request_def set_base_routing_authority_def base_modes_def Let_def)

definition base_envelope :: "base_core \<Rightarrow> bool" where
  "base_envelope c \<longleftrightarrow> (let k = base_telemetry_cache c in
     active_routing_mode c \<in> base_modes
     \<and> \<bar>crane_hoist_power_pct k\<bar> \<le> 100 \<and> 20 \<le> hvac_dehumidifier_setpoint k \<and> hvac_dehumidifier_setpoint k \<le> 85
     \<and> crane_hook_lock_solenoid k \<le> 1 \<and> blast_door_actuator_state k \<le> 1 \<and> substation_breaker_relay k \<le> 1
     \<and> sump_pump_override_relay k \<le> 1 \<and> climate_heating_valve_open k \<le> 1)"

lemma resolve_base_cache_bounds:
  "\<bar>crane_hoist_power_pct (resolve_base_cache d)\<bar> \<le> 100"
  "20 \<le> hvac_dehumidifier_setpoint (resolve_base_cache d)" "hvac_dehumidifier_setpoint (resolve_base_cache d) \<le> 85"
  by (simp_all add: resolve_base_cache_def clamp_abs_le)

lemma relay_bit_le [simp]: "relay_bit x \<le> 1" "relay_bit x \<le> Suc 0"
  by (simp_all add: relay_bit_def)

lemma base_step_envelope: "base_envelope c \<Longrightarrow> base_envelope (base_step c e)"
proof (cases e)
  case (Set_Authority m now)
  assume "base_envelope c"
  with Set_Authority show ?thesis
    by (auto simp: base_envelope_def set_base_routing_authority_def base_modes_def Let_def)
next
  case (Update_Step now n l)
  assume "base_envelope c"
  with Update_Step show ?thesis
    using resolve_base_cache_bounds
    by (auto simp: base_envelope_def execute_infrastructure_update_step_def Let_def)
       (auto simp: resolve_base_cache_def)
qed

lemma base_run_envelope: "base_envelope c \<Longrightarrow> base_envelope (base_run c es)"
  by (induction es arbitrary: c) (simp_all add: base_run_def base_step_envelope)

lemma base_step_mode:
  "active_routing_mode (base_step c e) =
     (case e of Set_Authority m now \<Rightarrow> active_routing_mode (fst (base_request c (m, now))) | _ \<Rightarrow> active_routing_mode c)"
  by (cases e) (auto simp: base_request_def execute_infrastructure_update_step_def Let_def split: prod.splits)

text \<open>The modes asked for in a history, in order.\<close>

fun asked_modes :: "base_event list \<Rightarrow> string list" where
  "asked_modes [] = []"
| "asked_modes (Set_Authority m now # es) = m # asked_modes es"
| "asked_modes (Update_Step now n l # es) = asked_modes es"

lemma asked_modes_append: "asked_modes (es @ fs) = asked_modes es @ asked_modes fs"
  by (induction es rule: asked_modes.induct) auto

definition known_request :: "string \<Rightarrow> bool" where
  "known_request m \<longleftrightarrow> py_strip (py_upper m) \<in> base_modes"

lemma base_run_mode:
  "active_routing_mode (base_run (base_core_init t0) es) =
     (case filter known_request (rev (asked_modes es)) of [] \<Rightarrow> ''UNIVAC_DIRECT'' | m # _ \<Rightarrow> py_strip (py_upper m))"
proof (induction es rule: rev_induct)
  case Nil
  then show ?case by (simp add: base_run_def base_core_init_def)
next
  case (snoc e es)
  let ?c = "base_run (base_core_init t0) es"
  have step: "base_run (base_core_init t0) (es @ [e]) = base_step ?c e" by (simp add: base_run_def)
  show ?case
  proof (cases e)
    case (Set_Authority m now)
    then show ?thesis unfolding step asked_modes_append base_step_mode
      using snoc base_gate.granted [of "(m, now)" ?c] base_gate.refused [of "(m, now)" ?c]
      by (cases "known_request m") (auto simp: known_request_def)
  qed (unfold step asked_modes_append base_step_mode, use snoc in simp)
qed

text \<open>Property C24. In every reachable state of the shore core, whatever commands were received
  and in whatever order, the actuator cache is inside its engineering envelope (hoist within
  100 percent, humidity 20 to 85, relays 0 or 1) and the routing mode is a known one; and the
  next update dispatches the network's commands exactly when the last request for a known
  mode was \<open>NETWORK_OVERRIDE\<close>.
\<close>

theorem base_envelope_always:
  "let c = base_run (base_core_init t0) es;
       overridden = (case filter known_request (rev (asked_modes es)) of
                       [] \<Rightarrow> False | m # _ \<Rightarrow> py_strip (py_upper m) = ''NETWORK_OVERRIDE'')
   in base_envelope c
      \<and> dispatched_actuator_cache (snd (execute_infrastructure_update_step c now n l)) = resolve_base_cache (if overridden then n else l)"
proof -
  have "base_envelope (base_core_init t0)" by (simp add: base_core_init_def base_envelope_def base_modes_def)
  then have "base_envelope (base_run (base_core_init t0) es)" by (rule base_run_envelope)
  then show ?thesis using base_run_mode [of t0 es]
    by (auto simp: execute_infrastructure_update_step_def Let_def split: list.splits)
qed

section \<open>The central warning registry\<close>

record warning_registry =
  draft :: real
  max_torque :: real
  active_warning_mask :: nat
  fault_messages :: "string list"
  fault_reports_append :: "string option"

record warning_report =
  warning_bitmask_hex :: string
  active_faults :: "string list"
  safety_shutdown_engaged :: bool
  warning_timestamp :: real

definition warning_registry_init :: "num_dict \<Rightarrow> warning_registry" where
  "warning_registry_init physical_bounds =
     \<lparr>draft = dget physical_bounds ''draft'' 6.5, max_torque = dget physical_bounds ''max_torque'' 90000,
      active_warning_mask = 0, fault_messages = [], fault_reports_append = None\<rparr>"

text \<open>\<open>f"0x{n:04X}"\<close>\<close>

definition fmt_0x04X :: "nat \<Rightarrow> string" where
  "fmt_0x04X n = ''0x'' @ replicate (4 - length (hex_str n)) (CHR ''0'') @ hex_str n"

definition raise_warning :: "nat \<Rightarrow> string \<Rightarrow> warning_registry \<Rightarrow> warning_registry" where
  "raise_warning b msg r = r\<lparr>active_warning_mask := active_warning_mask r OR push_bit b 1,
                            fault_messages := fault_messages r @ [msg]\<rparr>"

text \<open>
  The gates run in the source's order. The water gate assigns the message to an attribute
  instead of appending it; the heat gate lowers the \<open>rpm\<close> of the caller's target
  dictionary, which is the third component of the result.
\<close>

definition grounding_gate :: "warning_registry \<Rightarrow> num_dict \<Rightarrow> bool" where
  "grounding_gate r telemetry \<longleftrightarrow> dget telemetry ''depth'' 50 - draft r \<le> 1"

definition fire_gate :: "num_dict \<Rightarrow> bool" where
  "fire_gate telemetry \<longleftrightarrow> dget telemetry ''magazine_temperature_c'' 22 \<ge> 70"

definition heat_gate :: "num_dict \<Rightarrow> bool" where
  "heat_gate telemetry \<longleftrightarrow> dget telemetry ''computer_temperature_c'' 25 \<ge> 85"

definition attitude_gate :: "num_dict \<Rightarrow> bool" where
  "attitude_gate telemetry \<longleftrightarrow> degrees \<bar>dget telemetry ''roll_angle_rad'' 0\<bar> \<ge> 25"

definition crash_gate :: "num_dict \<Rightarrow> bool" where
  "crash_gate telemetry \<longleftrightarrow>
     (let distance_to_obstacle_m = dget telemetry ''distance_to_obstacle_meters'' 500;
          vessel_speed_ms = dget telemetry ''speed_ms'' 0;
          time_to_impact = distance_to_obstacle_m / max 0.1 vessel_speed_ms
      in time_to_impact \<le> 3 \<and> distance_to_obstacle_m < 50)"

definition evaluate_physical_warning_gates ::
    "warning_registry \<Rightarrow> real \<Rightarrow> num_dict \<Rightarrow> num_dict \<Rightarrow> warning_registry \<times> bool \<times> num_dict \<times> warning_report" where
  "evaluate_physical_warning_gates r now telemetry targets =
     (let r = r\<lparr>fault_messages := [], active_warning_mask := 0\<rparr>;
          r = (if grounding_gate r telemetry
               then r\<lparr>active_warning_mask := active_warning_mask r OR push_bit 0 1,
                      fault_reports_append := Some ''CRITICAL_WATER_GROUNDING_WARNING''\<rparr> else r);
          hot = heat_gate telemetry;
          r = (if hot then raise_warning 1 ''CORE_THERMAL_CRITICAL_WARNING'' r else r);
          targets = (if hot then targets(''rpm'' \<mapsto> min (dget targets ''rpm'' 500) 150) else targets);
          r = (if fire_gate telemetry then raise_warning 2 ''FIRE_ALARM_MAGAZINE_DELUGE_ACTIVE'' r else r);
          r = (if attitude_gate telemetry then raise_warning 3 ''ATTITUDE_ENVELOPE_EXCEEDED_ROLL_CRITICAL'' r else r);
          r = (if crash_gate telemetry then raise_warning 4 ''CRASH_IMMINENT_COLLISION_INTERLOCK_TRIP'' r else r);
          force_torque_shutdown = (grounding_gate r telemetry \<or> fire_gate telemetry \<or> crash_gate telemetry)
      in (r, force_torque_shutdown, targets,
          \<lparr>warning_bitmask_hex = fmt_0x04X (active_warning_mask r), active_faults = fault_messages r,
           safety_shutdown_engaged = force_torque_shutdown, warning_timestamp = now\<rparr>))"

lemma push_bit_one_nat [simp]: "push_bit (Suc 0) (Suc 0) = (2::nat)" "push_bit 2 (Suc 0) = (4::nat)"
    "push_bit 3 (Suc 0) = (8::nat)" "push_bit 4 (Suc 0) = (16::nat)"
  by (simp_all add: push_bit_eq_mult)

lemma fmt_0x04X_byte:
  assumes "n < 256"
  shows "fmt_0x04X n = ''0x00'' @ fmt_02X n"
proof (cases "n < 16")
  case True
  then have "length (hex_str n) = 1" by (simp add: hex_str.simps [of n])
  moreover have "replicate (4 - 1) (CHR ''0'') = ''000''" by (simp add: eval_nat_numeral)
  ultimately show ?thesis using True by (simp add: fmt_0x04X_def fmt_02X_def)
next
  case False
  moreover have "n div 16 < 16" using assms by (intro less_mult_imp_div_less) simp
  ultimately have "length (hex_str n) = 2" by (simp add: hex_str.simps [of n] hex_str.simps [of "n div 16"])
  moreover have "replicate (4 - 2) (CHR ''0'') = ''00''" by (simp add: eval_nat_numeral)
  ultimately show ?thesis using False by (simp add: fmt_0x04X_def fmt_02X_def)
qed

definition warning_bits :: "warning_registry \<Rightarrow> num_dict \<Rightarrow> (bool \<times> nat) list" where
  "warning_bits r t = [(grounding_gate r t, 1), (heat_gate t, 2), (fire_gate t, 4), (attitude_gate t, 8), (crash_gate t, 16)]"

lemma grounding_gate_upd [simp]:
  "grounding_gate (r\<lparr>fault_messages := a\<rparr>) t = grounding_gate r t"
  "grounding_gate (r\<lparr>active_warning_mask := b\<rparr>) t = grounding_gate r t"
  "grounding_gate (r\<lparr>fault_reports_append := c\<rparr>) t = grounding_gate r t"
  "grounding_gate (raise_warning k m r) t = grounding_gate r t"
  by (simp_all add: grounding_gate_def raise_warning_def)

text \<open>The registry is memoryless: whatever was raised in earlier cycles, the mask's
  five bits are exactly the five gates of this cycle, the torque shutdown is demanded exactly
  for grounding, fire or collision, the rpm target is lowered to at most 150 exactly when
  the core is hot, and every raised gate except grounding is named in the fault list (an
  engaged grounding shutdown may come with an empty list).
\<close>

theorem warning_gates_exact:
  "let (r', shutdown, targets', rep) = evaluate_physical_warning_gates r now t targets;
       bits = warning_bits r t
   in active_warning_mask r' = sum_list (map snd (filter fst bits))
    \<and> warning_bitmask_hex rep = ''0x00'' @ fmt_02X (active_warning_mask r')
    \<and> (shutdown \<longleftrightarrow> grounding_gate r t \<or> fire_gate t \<or> crash_gate t) \<and> safety_shutdown_engaged rep = shutdown
    \<and> targets' = (if heat_gate t then targets(''rpm'' \<mapsto> min (dget targets ''rpm'' 500) 150) else targets)
    \<and> length (active_faults rep) = length (filter fst (tl bits))"
  by (cases "grounding_gate r t"; cases "heat_gate t"; cases "fire_gate t"; cases "attitude_gate t"; cases "crash_gate t")
     (simp_all add: evaluate_physical_warning_gates_def warning_bits_def Let_def raise_warning_def fmt_0x04X_byte)

end
