(* ===== verification/Nmea_Frame.thy ===== *)
theory Nmea_Frame
  imports Py_Text
begin

unbundle bit_operations_syntax

text \<open>
  The NMEA sentence frame shared by every serial protocol of the bridge: \<open>$payload*CS\r\n\<close>
  with \<open>CS\<close> the 8-bit XOR of the payload in two hexadecimal digits. The checksum of the
  senders, the guard of the receivers, and the contract between the two as the locale
  \<open>checked_link\<close>, interpreted on the code's own pair of functions.
\<close>

section \<open>The checksum\<close>

definition xor_checksum :: "string \<Rightarrow> nat" where
  "xor_checksum s = foldl (\<lambda>a c. a XOR ord c) 0 s"

lemma xor_foldl: "foldl (\<lambda>a c. a XOR ord c) a s = a XOR xor_checksum s"
proof (induction s rule: rev_induct)
  case (snoc c s)
  then show ?case by (simp add: xor_checksum_def xor.assoc)
qed (simp add: xor_checksum_def)

lemma xor_checksum_append: "xor_checksum (s @ t) = xor_checksum s XOR xor_checksum t"
  using xor_foldl [of "xor_checksum s" t] by (simp add: xor_checksum_def)

lemma xor_checksum_Cons: "xor_checksum (c # s) = ord c XOR xor_checksum s"
  using xor_checksum_append [of "[c]" s] by (simp add: xor_checksum_def)

lemma xor_byte: "(a::nat) < 256 \<Longrightarrow> b < 256 \<Longrightarrow> a XOR b < 256"
proof -
  assume "a < 256" "b < 256"
  then have "take_bit 8 a = a" "take_bit 8 b = b" by (simp_all add: take_bit_nat_eq_self)
  then have "take_bit 8 (a XOR b) = a XOR b" by (simp add: take_bit_xor)
  moreover have "take_bit 8 (a XOR b) < 2 ^ 8" by (rule take_bit_nat_less_exp)
  ultimately show ?thesis by simp
qed

lemma xor_checksum_byte: "xor_checksum s < 256"
  by (induction s rule: rev_induct) (simp_all add: xor_checksum_def xor_byte)

section \<open>Sending\<close>

definition generate_checksum :: "string \<Rightarrow> string" where
  "generate_checksum payload = fmt_02X (xor_checksum payload)"

definition nmea_sentence :: "string \<Rightarrow> string" where
  "nmea_sentence payload = ''$'' @ payload @ ''*'' @ generate_checksum payload @ [CHR 0x0D, CHR 0x0A]"

section \<open>Receiving\<close>

definition validate_checksum :: "string \<Rightarrow> bool" where
  "validate_checksum s \<longleftrightarrow>
     starts_with s ''$'' \<and> CHR ''*'' \<in> set s \<and>
     (case py_split (CHR ''*'') (drop 1 s) of
        [data_body, hex_checksum] \<Rightarrow> fmt_02X (xor_checksum data_body) = py_upper (py_strip hex_checksum)
      | _ \<Rightarrow> False)"

lemma hex_digit_visible: "n < 16 \<Longrightarrow> \<not> is_space (hex_digit n) \<and> upper_char (hex_digit n) = hex_digit n
    \<and> hex_digit n \<noteq> CHR ''*''"
  by (drule less_16_cases) (auto simp: hex_digit_def is_space_def upper_char_def)

lemma hex_digit_inject: "m < 16 \<Longrightarrow> n < 16 \<Longrightarrow> hex_digit m = hex_digit n \<Longrightarrow> m = n"
  by (drule less_16_cases, drule less_16_cases) (auto simp: hex_digit_def)

lemma generate_checksum_digits:
  obtains a b where "generate_checksum p = [hex_digit a, hex_digit b]" "a < 16" "b < 16"
    "xor_checksum p = 16 * a + b"
proof (rule that [of "xor_checksum p div 16" "xor_checksum p mod 16"])
  show "generate_checksum p = [hex_digit (xor_checksum p div 16), hex_digit (xor_checksum p mod 16)]"
    by (simp add: generate_checksum_def fmt_02X_byte xor_checksum_byte)
qed (use xor_checksum_byte [of p] in auto)

lemma generate_checksum_inject:
  "generate_checksum p = generate_checksum q \<longleftrightarrow> xor_checksum p = xor_checksum q"
proof
  assume eq: "generate_checksum p = generate_checksum q"
  obtain a b where p: "generate_checksum p = [hex_digit a, hex_digit b]" "a < 16" "b < 16"
    "xor_checksum p = 16 * a + b" by (rule generate_checksum_digits)
  obtain c d where q: "generate_checksum q = [hex_digit c, hex_digit d]" "c < 16" "d < 16"
    "xor_checksum q = 16 * c + d" by (rule generate_checksum_digits)
  from eq p q show "xor_checksum p = xor_checksum q" by (auto dest: hex_digit_inject)
qed (simp add: generate_checksum_def)

lemma strip_sentence: "py_strip (nmea_sentence p) = ''$'' @ p @ ''*'' @ generate_checksum p"
proof -
  obtain a b where g: "generate_checksum p = [hex_digit a, hex_digit b]" "a < 16" "b < 16"
    by (rule generate_checksum_digits)
  have "py_strip ((''$'' @ p @ ''*'' @ generate_checksum p) @ [CHR 0x0D, CHR 0x0A]) =
      ''$'' @ p @ ''*'' @ generate_checksum p"
    using g hex_digit_visible [of b]
    by (intro py_strip_trail) (auto simp: is_space_def)
  then show ?thesis by (simp add: nmea_sentence_def)
qed

lemma checksum_tail: "CHR ''*'' \<notin> set (generate_checksum p)"
  "py_upper (py_strip (generate_checksum p)) = generate_checksum p"
proof -
  obtain a b where g: "generate_checksum p = [hex_digit a, hex_digit b]" "a < 16" "b < 16"
    by (rule generate_checksum_digits)
  with hex_digit_visible [of a] hex_digit_visible [of b]
  show "CHR ''*'' \<notin> set (generate_checksum p)"
    "py_upper (py_strip (generate_checksum p)) = generate_checksum p"
    by (auto simp: py_strip_no_space py_upper_def)
qed

lemma validate_iff:
  "validate_checksum s \<longleftrightarrow>
     (\<exists>p h. s = CHR ''$'' # p @ CHR ''*'' # h \<and> CHR ''*'' \<notin> set p \<and> CHR ''*'' \<notin> set h
        \<and> py_upper (py_strip h) = generate_checksum p)" (is "?L \<longleftrightarrow> ?R")
proof
  assume ?L
  then obtain t where s: "s = CHR ''$'' # t"
    by (cases s) (auto simp: validate_checksum_def starts_with_def)
  with \<open>?L\<close> obtain p h where "py_split (CHR ''*'') t = [p, h]"
    and "fmt_02X (xor_checksum p) = py_upper (py_strip h)"
    by (auto simp: validate_checksum_def split: list.splits)
  with s py_split_two show ?R by (metis generate_checksum_def)
next
  assume ?R
  then show ?L
    by (auto simp: validate_checksum_def starts_with_def generate_checksum_def py_split_cons py_split_notin)
qed

section \<open>The contract of a checked link\<close>

definition clean_payload :: "string \<Rightarrow> bool" where
  "clean_payload p \<longleftrightarrow> CHR ''*'' \<notin> set p"

text \<open>
  What a receiver may rely on when sender and receiver agree on the frame: a sealed payload
  is accepted, its body is recovered by cutting at the star, and whatever is accepted has
  the shape of a sealed payload.
\<close>

locale checked_link =
  fixes seal :: "string \<Rightarrow> string" and accepts :: "string \<Rightarrow> bool"
  assumes seal_accepted: "clean_payload p \<Longrightarrow> accepts (py_strip (seal p))"
    and seal_body: "clean_payload p \<Longrightarrow> hd (py_split (CHR ''*'') (py_strip (seal p))) = CHR ''$'' # p"
    and accepted_shape: "accepts s \<Longrightarrow> \<exists>p h. s = CHR ''$'' # p @ CHR ''*'' # h \<and> clean_payload p"
begin

lemma sealed_fields:
  assumes "clean_payload p"
  shows "py_split (CHR '','') (hd (py_split (CHR ''*'') (py_strip (seal p)))) = py_split (CHR '','') (CHR ''$'' # p)"
  by (simp add: seal_body [OF assms])

lemma accepted_starts: "accepts s \<Longrightarrow> s \<noteq> [] \<and> hd s = CHR ''$''"
  using accepted_shape by fastforce

lemma accepted_body:
  assumes "accepts s"
  obtains p where "clean_payload p" "hd (py_split (CHR ''*'') s) = CHR ''$'' # p"
proof -
  from accepted_shape [OF assms] obtain p h
    where s: "s = CHR ''$'' # p @ CHR ''*'' # h" and c: "clean_payload p" by blast
  then have "py_split (CHR ''*'') s = (CHR ''$'' # p) # py_split (CHR ''*'') h"
    using py_split_cons [of "CHR ''*''" "CHR ''$'' # p" h] by (simp add: clean_payload_def)
  with c show thesis by (intro that) simp_all
qed

end

interpretation nmea: checked_link nmea_sentence validate_checksum
proof unfold_locales
  fix p assume p: "clean_payload p"
  show "validate_checksum (py_strip (nmea_sentence p))"
    using p checksum_tail by (simp add: validate_iff strip_sentence clean_payload_def) blast
  show "hd (py_split (CHR ''*'') (py_strip (nmea_sentence p))) = CHR ''$'' # p"
    using p py_split_cons [of "CHR ''*''" "CHR ''$'' # p" "generate_checksum p"]
    by (simp add: strip_sentence clean_payload_def)
next
  fix s assume "validate_checksum s"
  then show "\<exists>p h. s = CHR ''$'' # p @ CHR ''*'' # h \<and> clean_payload p"
    by (auto simp: validate_iff clean_payload_def)
qed

section \<open>Comma-separated payloads\<close>

text \<open>The payload of every command sentence is an f-string of fields between commas.\<close>

fun csv_join :: "string list \<Rightarrow> string" where
  "csv_join [] = []"
| "csv_join [x] = x"
| "csv_join (x # y # zs) = x @ '','' @ csv_join (y # zs)"

definition plain_field :: "string \<Rightarrow> bool" where
  "plain_field f \<longleftrightarrow> CHR ''*'' \<notin> set f \<and> CHR '','' \<notin> set f"

text \<open>The fields a receiver sees: cut at the star, split at the commas.\<close>

definition sentence_fields :: "string \<Rightarrow> string list" where
  "sentence_fields s = py_split (CHR '','') (hd (py_split (CHR ''*'') s))"

named_theorems plain_intros \<open>texts without framing characters\<close>

lemma plain_Nil [plain_intros]: "plain_field []"
  by (simp add: plain_field_def)

lemma plain_Cons [plain_intros]: "c \<noteq> CHR ''*'' \<Longrightarrow> c \<noteq> CHR '','' \<Longrightarrow> plain_field s \<Longrightarrow> plain_field (c # s)"
  by (simp add: plain_field_def)

lemma plain_append [plain_intros]: "plain_field s \<Longrightarrow> plain_field t \<Longrightarrow> plain_field (s @ t)"
  by (simp add: plain_field_def)

lemma plain_take: "plain_field s \<Longrightarrow> plain_field (take n s)"
  by (auto simp: plain_field_def dest: in_set_takeD)

lemma plain_fmt_fixed [plain_intros]: "plain_field (fmt_fixed n x)"
  by (auto simp: plain_field_def is_digit_def dest!: fmt_fixed_chars)

lemma plain_nat_str [plain_intros]: "plain_field (nat_str n)"
  by (auto simp: plain_field_def is_digit_def dest!: nat_str_digits)

lemma plain_int_str [plain_intros]: "plain_field (int_str i)"
  by (simp add: int_str_def plain_intros)

lemma clean_csv_join: "\<forall>f \<in> set fs. plain_field f \<Longrightarrow> clean_payload (csv_join fs)"
  by (induction fs rule: csv_join.induct) (auto simp: clean_payload_def plain_field_def)

lemma split_csv_join: "fs \<noteq> [] \<Longrightarrow> \<forall>f \<in> set fs. plain_field f \<Longrightarrow> py_split (CHR '','') (csv_join fs) = fs"
  by (induction fs rule: csv_join.induct) (auto simp: plain_field_def py_split_notin py_split_cons)

text \<open>
  What every serializer guarantees: its sentence passes the receivers' guard, and splitting
  it gives back the header and the fields it was built from.
\<close>

lemma sealed_csv:
  assumes "\<forall>f \<in> set (h # fs). plain_field f"
  shows "validate_checksum (py_strip (nmea_sentence (csv_join (h # fs))))"
    and "sentence_fields (py_strip (nmea_sentence (csv_join (h # fs)))) = (CHR ''$'' # h) # fs"
proof -
  have clean: "clean_payload (csv_join (h # fs))" using assms by (rule clean_csv_join)
  then show "validate_checksum (py_strip (nmea_sentence (csv_join (h # fs))))"
    by (rule nmea.seal_accepted)
  have "CHR ''$'' # csv_join (h # fs) = csv_join ((CHR ''$'' # h) # fs)" by (cases fs) auto
  moreover have "py_split (CHR '','') (csv_join ((CHR ''$'' # h) # fs)) = (CHR ''$'' # h) # fs"
    using assms by (intro split_csv_join) (auto simp: plain_field_def)
  ultimately show "sentence_fields (py_strip (nmea_sentence (csv_join (h # fs)))) = (CHR ''$'' # h) # fs"
    unfolding sentence_fields_def nmea.sealed_fields [OF clean] by simp
qed

section \<open>What the checksum detects\<close>

lemma xor_checksum_substitution: "x \<noteq> y \<Longrightarrow> xor_checksum (a @ x # b) \<noteq> xor_checksum (a @ y # b)"
proof
  assume "x \<noteq> y" and "xor_checksum (a @ x # b) = xor_checksum (a @ y # b)"
  then have "ord x XOR (xor_checksum a XOR xor_checksum b) = ord y XOR (xor_checksum a XOR xor_checksum b)"
    by (simp add: xor_checksum_append xor_checksum_Cons ac_simps)
  then have "(ord x XOR (xor_checksum a XOR xor_checksum b)) XOR (xor_checksum a XOR xor_checksum b) =
      (ord y XOR (xor_checksum a XOR xor_checksum b)) XOR (xor_checksum a XOR xor_checksum b)" by simp
  then have "ord x = ord y" by (simp only: xor.assoc xor_self_eq xor.right_neutral)
  with \<open>x \<noteq> y\<close> show False by simp
qed

lemma xor_checksum_swap: "xor_checksum (a @ x # y # b) = xor_checksum (a @ y # x # b)"
  by (simp add: xor_checksum_append xor_checksum_Cons ac_simps)

text \<open>Property C16. A line whose checksum is right is refused once any single character of its
  body is replaced by another one, whatever the replacement (a star included).
\<close>

theorem single_substitution_refused:
  assumes "validate_checksum (CHR ''$'' # a @ x # b @ CHR ''*'' # h)" and "CHR ''*'' \<notin> set (a @ x # b)"
    and "y \<noteq> x"
  shows "\<not> validate_checksum (CHR ''$'' # a @ y # b @ CHR ''*'' # h)"
proof
  assume "validate_checksum (CHR ''$'' # a @ y # b @ CHR ''*'' # h)"
  then obtain p g where p: "a @ y # b @ CHR ''*'' # h = p @ CHR ''*'' # g" "CHR ''*'' \<notin> set p" "CHR ''*'' \<notin> set g"
    "py_upper (py_strip g) = generate_checksum p" by (auto simp: validate_iff)
  from assms(1) obtain q f where q: "a @ x # b @ CHR ''*'' # h = q @ CHR ''*'' # f" "CHR ''*'' \<notin> set q" "CHR ''*'' \<notin> set f"
    "py_upper (py_strip f) = generate_checksum q" by (auto simp: validate_iff)
  have star: "takeWhile (\<lambda>c. c \<noteq> CHR ''*'') (u @ CHR ''*'' # v) = u" if "CHR ''*'' \<notin> set u" for u v
    using that by (subst takeWhile_append2) auto
  from q assms(2) have "q = a @ x # b" "f = h"
    using star [of "a @ x # b" h] star [of q f] by auto
  then have ok: "py_upper (py_strip h) = generate_checksum (a @ x # b)" "CHR ''*'' \<notin> set h" using q by auto
  from p(1) have "count_list (a @ y # b @ CHR ''*'' # h) (CHR ''*'') = 1"
    using p(2,3) by (simp add: count_list_0_iff)
  then have "y \<noteq> CHR ''*''" by auto
  then have "p = a @ y # b" "g = h"
    using p assms(2) star [of "a @ y # b" h] star [of p g] by auto
  with p(4) ok(1) have "xor_checksum (a @ x # b) = xor_checksum (a @ y # b)"
    by (simp add: generate_checksum_inject)
  with xor_checksum_substitution [of x y a b] assms(3) show False by simp
qed

theorem single_substitution_refused_witness:
  "validate_checksum ''$P*50'' \<and> \<not> validate_checksum ''$Q*50''"
proof -
  have P: "generate_checksum ''P'' = ''50''"
    by (simp add: generate_checksum_def xor_checksum_def fmt_02X_def hex_str.simps hex_digit_def)
  have h: "py_upper (py_strip ''50'') = ''50''"
    by (simp add: py_upper_def py_strip_def is_space_def upper_char_def)
  have "validate_checksum (CHR ''$'' # [] @ CHR ''P'' # [] @ CHR ''*'' # ''50'')"
    unfolding validate_iff using P h by (intro exI [of _ "''P''"] exI [of _ "''50''"]) simp
  then show ?thesis
    using single_substitution_refused [of "[]" "CHR ''P''" "[]" "''50''" "CHR ''Q''"] by simp
qed

end
