(* ===== verification/Serializers.thy ===== *)
theory Serializers
  imports Nmea_Frame
begin

text \<open>
  The senders: the five classes that turn controller outputs into wire sentences
  (\<open>ActuatorSerialOutputSerializer\<close>, \<open>WeaponSerialOutputSerializer\<close>,
  \<open>AsymmetricNetworkSerializer\<close>, \<open>ShoreWeaponSystemSerializer\<close> and
  \<open>BridgeActuatorNetworkInterface\<close>). Byte strings are texts: the codes and fields are
  ASCII, so \<open>encode('ascii')\<close> is the identity. The theorems say what the receiver of the
  line can rely on: the frame is accepted and each field reads back to the ordered value.
\<close>

section \<open>Engine output packets\<close>

text \<open>
  The engine's output dictionary: its numeric entries, and the entries of the nested
  \<open>UNIVAC_Water_Insight_Link\<close> (empty when the nested dictionary is absent).
\<close>

record engine_packet =
  top :: num_dict
  insight_link :: num_dict

section \<open>ActuatorSerialOutputSerializer\<close>

definition actuator_serializer_init :: "string \<Rightarrow> string" where
  "actuator_serializer_init manufacturer_code = take 4 (py_upper manufacturer_code)"

definition serialize_rudder_command :: "string \<Rightarrow> string \<Rightarrow> engine_packet \<Rightarrow> string" where
  "serialize_rudder_command code message_type engine_output =
     (let rudder_deg = dget (top engine_output) ''command_rudder_angle_deg'' 0;
          slew_rate_cap = 15;
          direction = (if 0 \<le> rudder_deg then ''R'' else ''L'');
          abs_rudder_deg = \<bar>rudder_deg\<bar>;
          payload = csv_join [''P'' @ code @ py_upper message_type, fmt_fixed 2 abs_rudder_deg,
                              direction, fmt_fixed 1 slew_rate_cap]
      in nmea_sentence payload)"

definition serialize_propulsion_command :: "string \<Rightarrow> string \<Rightarrow> engine_packet \<Rightarrow> string" where
  "serialize_propulsion_command code message_type engine_output =
     (let torque_nm = dget (top engine_output) ''command_motor_torque_nm'' 0;
          rpm_cap = dget (top engine_output) ''active_rpm_cap'' 550;
          fatigue_pct = dget (insight_link engine_output) ''structural_fatigue_load_percentage'' 0;
          payload = csv_join [''P'' @ code @ py_upper message_type, fmt_fixed 1 torque_nm,
                              fmt_fixed 1 rpm_cap, fmt_fixed 1 fatigue_pct]
      in nmea_sentence payload)"

section \<open>WeaponSerialOutputSerializer\<close>

text \<open>One entry of the allocation array; an absent key is \<open>None\<close>.\<close>

record allocation =
  mount_id :: "string option"
  ordered_azimuth_deg :: "real option"
  target_range_meters :: "real option"
  allocation_status :: "string option"

definition or_else :: "'a option \<Rightarrow> 'a \<Rightarrow> 'a" where
  "or_else m v = (case m of None \<Rightarrow> v | Some x \<Rightarrow> x)"

lemma or_else_simps [simp]: "or_else None v = v" "or_else (Some x) v = x"
  by (simp_all add: or_else_def)

definition weapon_serializer_init :: "string \<Rightarrow> string" where
  "weapon_serializer_init manufacturer_code = ''P'' @ take 4 (py_upper manufacturer_code) @ ''EW''"

definition mount_id_map :: "string \<rightharpoonup> nat" where
  "mount_id_map = [''MAIN_5IN_MK45'' \<mapsto> 1, ''AUX_76MM_MK75'' \<mapsto> 2,
                   ''PORT_CIWS_MK15'' \<mapsto> 3, ''STBD_CIWS_MK15'' \<mapsto> 4]"

definition serialize_allocation :: "string \<Rightarrow> allocation \<Rightarrow> string" where
  "serialize_allocation prefix alloc =
     (let raw_id_string = or_else (mount_id alloc) ''UNKNOWN'';
          numeric_id = dget mount_id_map raw_id_string 99;
          ordered_az = or_else (ordered_azimuth_deg alloc) 0;
          target_range = or_else (target_range_meters alloc) 0;
          status_flag = or_else (allocation_status alloc) ''NOMINAL'';
          override_bit = (if status_flag = ''OVERRIDE_ACTIVE'' then 1 else 0);
          payload = csv_join [prefix, nat_str numeric_id, fmt_fixed 2 ordered_az,
                              fmt_fixed 1 target_range, nat_str override_bit]
      in nmea_sentence payload)"

definition serialize_jammer_suppression_commands :: "string \<Rightarrow> allocation list \<Rightarrow> string list" where
  "serialize_jammer_suppression_commands prefix allocation_matrices =
     map (serialize_allocation prefix) allocation_matrices"

section \<open>AsymmetricNetworkSerializer\<close>

record asym_headers =
  port_header :: string
  stbd_header :: string

definition asymmetric_serializer_init :: "string \<Rightarrow> asym_headers" where
  "asymmetric_serializer_init prefix_manufacturer =
     (let base_prefix = take 5 (py_upper prefix_manufacturer)
      in \<lparr>port_header = base_prefix @ ''PRT'', stbd_header = base_prefix @ ''STB''\<rparr>)"

text \<open>The stabilizer's output as the serializer reads it; an absent key is \<open>None\<close>.\<close>

record stabilizer_output =
  command_port_actuator_deg :: "real option"
  command_stbd_actuator_deg :: "real option"
  stabilization_state :: "string option"

definition asymmetric_sentence :: "string \<Rightarrow> real \<Rightarrow> real \<Rightarrow> nat \<Rightarrow> string" where
  "asymmetric_sentence header angle depth_slew_cap combat_lock_bit =
     nmea_sentence (csv_join [header, fmt_fixed 2 angle, fmt_fixed 1 depth_slew_cap, nat_str combat_lock_bit])"

definition serialize_asymmetric_actuator_channels ::
    "asym_headers \<Rightarrow> stabilizer_output \<Rightarrow> real \<Rightarrow> string \<times> string" where
  "serialize_asymmetric_actuator_channels hs out depth_slew_cap =
     (let port_angle = or_else (command_port_actuator_deg out) 0;
          stbd_angle = or_else (command_stbd_actuator_deg out) 0;
          tracking_mode = or_else (stabilization_state out) ''NOMINAL_STORM_DAMPING'';
          combat_lock_bit = (if tracking_mode = ''APEX_COMBAT_LOCK_ACTIVE'' then 1 else 0)
      in (asymmetric_sentence (port_header hs) port_angle depth_slew_cap combat_lock_bit,
          asymmetric_sentence (stbd_header hs) stbd_angle depth_slew_cap combat_lock_bit))"

section \<open>ShoreWeaponSystemSerializer\<close>

definition shore_serializer_init :: "string \<Rightarrow> string" where
  "shore_serializer_init prefix_code = take 5 (py_upper prefix_code) @ ''SHR''"

definition shore_battery_catalog :: "string \<rightharpoonup> nat" where
  "shore_battery_catalog = [''SHORE_BATTERY_ALPHA'' \<mapsto> 101, ''COASTAL_VLS_CELL_MATRIX'' \<mapsto> 102]"

text \<open>A shore battery of the inventory; an absent key is \<open>None\<close>.\<close>

record shore_weapon =
  shore_station_id :: "string option"
  umbilical_link_connected :: "bool option"
  navy_combat_release_cleared :: "bool option"

definition shore_interlock_bit :: "num_dict \<Rightarrow> shore_weapon \<Rightarrow> nat" where
  "shore_interlock_bit targets weapon =
     (let target_locked = dflag targets ''is_target_locked'';
          link_connected = or_else (umbilical_link_connected weapon) False;
          navy_fire_authorize = or_else (navy_combat_release_cleared weapon) False
      in if link_connected \<and> target_locked \<and> navy_fire_authorize then 1 else 0)"

definition serialize_shore_weapon :: "string \<Rightarrow> num_dict \<Rightarrow> shore_weapon \<Rightarrow> string" where
  "serialize_shore_weapon prefix targets weapon =
     (let target_bearing = dget targets ''target_bearing_deg'' 0;
          target_elevation = dget targets ''current_elevation_deg'' 0;
          numeric_station_id = dget shore_battery_catalog (or_else (shore_station_id weapon) ''UNKNOWN'') 999;
          payload = csv_join [prefix, nat_str numeric_station_id, fmt_fixed 2 target_bearing,
                              fmt_fixed 2 target_elevation, nat_str (shore_interlock_bit targets weapon)]
      in nmea_sentence payload)"

definition serialize_shore_fire_commands :: "string \<Rightarrow> num_dict \<Rightarrow> shore_weapon list \<Rightarrow> string list" where
  "serialize_shore_fire_commands prefix high_speed_target_buffer active_shore_weapons =
     map (serialize_shore_weapon prefix high_speed_target_buffer) active_shore_weapons"

section \<open>BridgeActuatorNetworkInterface\<close>

text \<open>The UDP frame of the background transmitter, and its command register.\<close>

definition serialize_to_actuator_sentence :: "num_dict \<Rightarrow> string" where
  "serialize_to_actuator_sentence data =
     (let torque = dget data ''command_motor_torque_nm'' 0;
          rudder = dget data ''command_rudder_angle_deg'' 0;
          rpm_cap = dget data ''active_rpm_cap'' 0;
          load_pct = dget data ''telemetry_structural_load_pct'' 0;
          payload = csv_join [''PVCMD'', fmt_fixed 1 torque, fmt_fixed 2 rudder, fmt_fixed 1 rpm_cap, fmt_fixed 1 load_pct]
      in nmea_sentence payload)"

record udp_interface =
  is_running :: bool
  sock_open :: bool
  latest_command_data :: "engine_packet option"

text \<open>The command register starts as the empty dictionary, which is \<open>None\<close> here. A packet of the engine is
  never empty, because it has the key of the nested dictionary.\<close>

definition udp_interface_init :: udp_interface where
  "udp_interface_init = \<lparr>is_running = False, sock_open = True, latest_command_data = None\<rparr>"

definition update_latest_commands :: "udp_interface \<Rightarrow> engine_packet option \<Rightarrow> udp_interface" where
  "update_latest_commands u engine_output = u\<lparr>latest_command_data := engine_output\<rparr>"

text \<open>
  One round of the transmit loop: the datagrams it pushes. The empty dictionary is falsy, so
  nothing is sent before the first update; a send on the closed socket raises, and the loop
  catches it.
\<close>

definition udp_tx_round :: "udp_interface \<Rightarrow> string list" where
  "udp_tx_round u = (if \<not> is_running u then [] else
     case latest_command_data u of None \<Rightarrow> []
     | Some current_frame \<Rightarrow> if sock_open u then [serialize_to_actuator_sentence (top current_frame)] else [])"

definition start_interface :: "udp_interface \<Rightarrow> udp_interface" where
  "start_interface u = u\<lparr>is_running := True\<rparr>"

definition stop_interface :: "udp_interface \<Rightarrow> udp_interface" where
  "stop_interface u = u\<lparr>is_running := False, sock_open := False\<rparr>"

section \<open>What the receiver reads back\<close>

lemma ord_upper_char: "ord (upper_char c) = (if 97 \<le> ord c \<and> ord c \<le> 122 then ord c - 32 else ord c)"
proof -
  have "ord c - 32 < 256" using nat_of_char_less_256 [of c] by linarith
  then show ?thesis by (simp add: upper_char_def)
qed

lemma upper_char_framing: "upper_char c = CHR ''*'' \<Longrightarrow> c = CHR ''*''" "upper_char c = CHR '','' \<Longrightarrow> c = CHR '',''"
  using ord_upper_char [of c] by (auto split: if_splits simp: upper_char_def)

lemma plain_py_upper [plain_intros]: "plain_field s \<Longrightarrow> plain_field (py_upper s)"
  by (auto simp: plain_field_def py_upper_def dest: upper_char_framing upper_char_framing [OF sym])

lemma plain_init_codes [plain_intros]:
  "plain_field m \<Longrightarrow> plain_field (actuator_serializer_init m)"
  "plain_field m \<Longrightarrow> plain_field (weapon_serializer_init m)"
  "plain_field m \<Longrightarrow> plain_field (port_header (asymmetric_serializer_init m))"
  "plain_field m \<Longrightarrow> plain_field (stbd_header (asymmetric_serializer_init m))"
  "plain_field m \<Longrightarrow> plain_field (shore_serializer_init m)"
  by (auto simp: actuator_serializer_init_def weapon_serializer_init_def asymmetric_serializer_init_def
      shore_serializer_init_def Let_def intro!: plain_intros plain_take)

text \<open>A numeric field written with \<open>n\<close> places and read by \<open>float\<close> is within half a unit of it.\<close>

definition reads_as :: "string \<Rightarrow> nat \<Rightarrow> real \<Rightarrow> bool" where
  "reads_as f n x \<longleftrightarrow> (\<exists>v. py_float f = Some (Fin v) \<and> \<bar>v - x\<bar> \<le> 1 / (2 * 10 ^ n))"

lemma reads_as_fmt: "\<bar>x\<bar> \<le> 10 ^ 300 \<Longrightarrow> reads_as (fmt_fixed n x) n x"
  using py_float_fmt_fixed [of x n] py_round_dist [of n x] by (auto simp: reads_as_def)

text \<open>The rudder sentence is accepted by the receivers' checksum guard, has four
  fields, and its magnitude and direction letter together read back to the ordered rudder
  angle within 0.005 degree.
\<close>

theorem rudder_command_readback:
  assumes "plain_field mfr" "plain_field mtype"
    and x: "x = dget (top out) ''command_rudder_angle_deg'' 0" and "\<bar>x\<bar> \<le> 10 ^ 300"
  defines "wire \<equiv> py_strip (serialize_rudder_command (actuator_serializer_init mfr) mtype out)"
  shows "validate_checksum wire \<and>
    (\<exists>h m d v. sentence_fields wire = [h, m, d, ''15.0''] \<and> py_float m = Some (Fin v)
       \<and> \<bar>(if d = ''R'' then v else - v) - x\<bar> \<le> 1 / 200)"
proof -
  let ?d = "if 0 \<le> x then ''R'' else ''L''"
  let ?fs = "[fmt_fixed 2 \<bar>x\<bar>, ?d, fmt_fixed 1 15]"
  let ?h = "''P'' @ actuator_serializer_init mfr @ py_upper mtype"
  have wire: "wire = py_strip (nmea_sentence (csv_join (?h # ?fs)))"
    by (simp add: wire_def serialize_rudder_command_def Let_def x)
  have plain: "\<forall>f \<in> set (?h # ?fs). plain_field f"
    using assms(1,2) by (auto intro!: plain_intros)
  have "fmt_fixed 1 15 = ''15.0''"
    by (simp add: fmt_fixed_def nat_str.simps digit_char_def Let_def
        round_half_even_of_int [of 150, simplified])
  moreover have "py_float (fmt_fixed 2 \<bar>x\<bar>) = Some (Fin (py_round 2 \<bar>x\<bar>))"
    using assms(4) by (simp add: py_float_fmt_fixed)
  moreover have "(if ?d = ''R'' then py_round 2 \<bar>x\<bar> else - py_round 2 \<bar>x\<bar>) = py_round 2 x"
    by (simp add: py_round_minus)
  ultimately show ?thesis
    using sealed_csv [OF plain] py_round_dist [of 2 x] by (fastforce simp: wire)
qed

theorem rudder_command_readback_witness:
  "\<exists>h m d v. sentence_fields (py_strip (serialize_rudder_command (actuator_serializer_init ''UNVC'') ''STR''
       \<lparr>top = [''command_rudder_angle_deg'' \<mapsto> - 14.25], insight_link = Map.empty\<rparr>)) = [h, m, d, ''15.0'']
     \<and> py_float m = Some (Fin v) \<and> \<bar>(if d = ''R'' then v else - v) - (- 14.25)\<bar> \<le> 1 / 200"
proof -
  let ?out = "\<lparr>top = [''command_rudder_angle_deg'' \<mapsto> - 14.25], insight_link = Map.empty\<rparr>"
  have "\<bar>- 14.25 :: real\<bar> \<le> 10 ^ 300" by simp
  moreover have "- 14.25 = dget (top ?out) ''command_rudder_angle_deg'' 0" by simp
  ultimately show ?thesis
    using rudder_command_readback [of "''UNVC''" "''STR''" "- 14.25" ?out]
    by (simp add: plain_field_def)
qed

lemma nat_str_01 [simp]: "nat_str 0 = ''0''" "nat_str (Suc 0) = ''1''"
  by (simp_all add: nat_str.simps digit_char_def)

lemma nat_str_bit: "nat_str (if b then 1 else 0) = (if b then ''1'' else ''0'')"
  by (simp add: nat_str.simps digit_char_def)

lemma plain_bit: "plain_field (if b then ''1'' else ''0'')"
  by (simp add: plain_field_def)

lemma allocation_fields:
  assumes "plain_field prefix"
  defines "wire a \<equiv> py_strip (serialize_allocation prefix a)"
  shows "validate_checksum (wire a) \<and> sentence_fields (wire a) =
    [CHR ''$'' # prefix, nat_str (dget mount_id_map (or_else (mount_id a) ''UNKNOWN'') 99),
     fmt_fixed 2 (or_else (ordered_azimuth_deg a) 0), fmt_fixed 1 (or_else (target_range_meters a) 0),
     if allocation_status a = Some ''OVERRIDE_ACTIVE'' then ''1'' else ''0'']"
proof -
  have bit: "nat_str (if or_else (allocation_status a) ''NOMINAL'' = ''OVERRIDE_ACTIVE'' then 1 else 0) =
      (if allocation_status a = Some ''OVERRIDE_ACTIVE'' then ''1'' else ''0'')"
    by (cases "allocation_status a") auto
  show ?thesis
    unfolding wire_def serialize_allocation_def Let_def bit
    by (intro conjI sealed_csv) (simp_all only: list.set ball_simps assms(1) plain_intros plain_bit simp_thms)
qed

text \<open>One electronic-warfare sentence per allocation, in order: each is accepted,
  carries azimuth and range that read back within half a unit of the last place, and its
  override bit is set exactly for the allocations whose status is \<open>OVERRIDE_ACTIVE\<close>.
\<close>

theorem jammer_commands_readback:
  assumes "plain_field mfr"
    and "\<forall>a \<in> set allocs. \<bar>or_else (ordered_azimuth_deg a) 0\<bar> \<le> 10 ^ 300
           \<and> \<bar>or_else (target_range_meters a) 0\<bar> \<le> 10 ^ 300"
  defines "wires \<equiv> serialize_jammer_suppression_commands (weapon_serializer_init mfr) allocs"
  shows "length wires = length allocs \<and>
    (\<forall>i < length allocs. \<exists>h n az rg bit. validate_checksum (py_strip (wires ! i))
       \<and> sentence_fields (py_strip (wires ! i)) = [h, n, az, rg, bit]
       \<and> reads_as az 2 (or_else (ordered_azimuth_deg (allocs ! i)) 0)
       \<and> reads_as rg 1 (or_else (target_range_meters (allocs ! i)) 0)
       \<and> (bit = ''1'' \<longleftrightarrow> allocation_status (allocs ! i) = Some ''OVERRIDE_ACTIVE''))"
proof -
  have prefix: "plain_field (weapon_serializer_init mfr)" using assms(1) by (rule plain_init_codes)
  have "\<exists>h n az rg bit. validate_checksum (py_strip (wires ! i))
       \<and> sentence_fields (py_strip (wires ! i)) = [h, n, az, rg, bit]
       \<and> reads_as az 2 (or_else (ordered_azimuth_deg (allocs ! i)) 0)
       \<and> reads_as rg 1 (or_else (target_range_meters (allocs ! i)) 0)
       \<and> (bit = ''1'' \<longleftrightarrow> allocation_status (allocs ! i) = Some ''OVERRIDE_ACTIVE'')"
    if i: "i < length allocs" for i
  proof -
    have "allocs ! i \<in> set allocs" using i by simp
    with assms(2) have "reads_as (fmt_fixed 2 (or_else (ordered_azimuth_deg (allocs ! i)) 0)) 2
        (or_else (ordered_azimuth_deg (allocs ! i)) 0)"
      "reads_as (fmt_fixed 1 (or_else (target_range_meters (allocs ! i)) 0)) 1
        (or_else (target_range_meters (allocs ! i)) 0)"
      by (auto intro: reads_as_fmt)
    moreover have "wires ! i = serialize_allocation (weapon_serializer_init mfr) (allocs ! i)"
      using i by (simp add: wires_def serialize_jammer_suppression_commands_def)
    ultimately show ?thesis using allocation_fields [OF prefix, of "allocs ! i"] by auto
  qed
  then show ?thesis by (simp add: wires_def serialize_jammer_suppression_commands_def)
qed

theorem jammer_commands_readback_witness:
  "length (serialize_jammer_suppression_commands (weapon_serializer_init ''UNVC'')
     [\<lparr>mount_id = Some ''AUX_76MM_MK75'', ordered_azimuth_deg = Some 45.32,
        target_range_meters = Some 18450, allocation_status = Some ''OVERRIDE_ACTIVE''\<rparr>]) = 1"
  using jammer_commands_readback [of "''UNVC''"
     "[\<lparr>mount_id = Some ''AUX_76MM_MK75'', ordered_azimuth_deg = Some 45.32,
        target_range_meters = Some 18450, allocation_status = Some ''OVERRIDE_ACTIVE''\<rparr>]"]
  by (simp add: plain_field_def)

lemma shore_fields:
  fixes targets :: num_dict
  assumes "plain_field prefix"
  defines "wire w \<equiv> py_strip (serialize_shore_weapon prefix targets w)"
  shows "validate_checksum (wire w) \<and> sentence_fields (wire w) =
    [CHR ''$'' # prefix, nat_str (dget shore_battery_catalog (or_else (shore_station_id w) ''UNKNOWN'') 999),
     fmt_fixed 2 (dget targets ''target_bearing_deg'' 0), fmt_fixed 2 (dget targets ''current_elevation_deg'' 0),
     nat_str (shore_interlock_bit targets w)]"
  unfolding wire_def serialize_shore_weapon_def Let_def
  by (intro conjI sealed_csv) (simp_all only: list.set ball_simps assms(1) plain_intros simp_thms)

text \<open>The fire bit of a shore sentence is 1 only when the umbilical is connected,
  the ship's target is locked and the Navy release is set for that battery; every battery
  gets one accepted sentence, and bearing and elevation read back within 0.005 degree.
\<close>

theorem shore_fire_authorized:
  assumes "plain_field pre" and "w \<in> set ws"
    and "\<bar>dget targets ''target_bearing_deg'' 0\<bar> \<le> 10 ^ 300" "\<bar>dget targets ''current_elevation_deg'' 0\<bar> \<le> 10 ^ 300"
  shows "\<exists>wire \<in> set (serialize_shore_fire_commands (shore_serializer_init pre) targets ws).
    \<exists>h n br el bit. validate_checksum (py_strip wire) \<and> sentence_fields (py_strip wire) = [h, n, br, el, bit]
      \<and> reads_as br 2 (dget targets ''target_bearing_deg'' 0)
      \<and> reads_as el 2 (dget targets ''current_elevation_deg'' 0)
      \<and> (bit = ''1'' \<longleftrightarrow> umbilical_link_connected w = Some True
            \<and> dget targets ''is_target_locked'' 0 \<noteq> 0 \<and> navy_combat_release_cleared w = Some True)"
proof -
  have bit: "nat_str (shore_interlock_bit targets w) = ''1'' \<longleftrightarrow> umbilical_link_connected w = Some True
      \<and> dget targets ''is_target_locked'' 0 \<noteq> 0 \<and> navy_combat_release_cleared w = Some True"
    by (cases "umbilical_link_connected w"; cases "navy_combat_release_cleared w")
       (auto simp: shore_interlock_bit_def dflag_def nat_str.simps digit_char_def)
  have "plain_field (shore_serializer_init pre)" using assms(1) by (rule plain_init_codes)
  from shore_fields [OF this, of targets w] bit reads_as_fmt [OF assms(3)] reads_as_fmt [OF assms(4)] assms(2)
  show ?thesis unfolding serialize_shore_fire_commands_def by force
qed

theorem shore_fire_authorized_witness:
  "\<exists>wire \<in> set (serialize_shore_fire_commands (shore_serializer_init ''PUNVC'')
      [''target_bearing_deg'' \<mapsto> 90, ''is_target_locked'' \<mapsto> 1]
      [\<lparr>shore_station_id = Some ''SHORE_BATTERY_ALPHA'', umbilical_link_connected = Some True,
         navy_combat_release_cleared = Some False\<rparr>]).
    \<exists>h n br el bit. sentence_fields (py_strip wire) = [h, n, br, el, bit] \<and> bit \<noteq> ''1''"
  using shore_fire_authorized [of "''PUNVC''"
      "\<lparr>shore_station_id = Some ''SHORE_BATTERY_ALPHA'', umbilical_link_connected = Some True,
         navy_combat_release_cleared = Some False\<rparr>"
      "[\<lparr>shore_station_id = Some ''SHORE_BATTERY_ALPHA'', umbilical_link_connected = Some True,
         navy_combat_release_cleared = Some False\<rparr>]"
      "[''target_bearing_deg'' \<mapsto> 90, ''is_target_locked'' \<mapsto> 1]"]
  by (simp add: plain_field_def dget_def) blast

text \<open>The port and starboard sentences of one stabilizer output are both accepted,
  each carries its own angle to within 0.005 degree, and both carry the same combat-lock
  bit, which is 1 exactly in the apex combat lock state.
\<close>

theorem asymmetric_channels_readback:
  fixes cap :: real
  assumes "plain_field pre"
    and "\<bar>or_else (command_port_actuator_deg out) 0\<bar> \<le> 10 ^ 300" "\<bar>or_else (command_stbd_actuator_deg out) 0\<bar> \<le> 10 ^ 300"
  defines "wires \<equiv> serialize_asymmetric_actuator_channels (asymmetric_serializer_init pre) out cap"
  shows "\<exists>hp ap hs as cp bit. validate_checksum (py_strip (fst wires)) \<and> validate_checksum (py_strip (snd wires))
    \<and> sentence_fields (py_strip (fst wires)) = [hp, ap, cp, bit]
    \<and> sentence_fields (py_strip (snd wires)) = [hs, as, cp, bit] \<and> hp \<noteq> hs
    \<and> reads_as ap 2 (or_else (command_port_actuator_deg out) 0)
    \<and> reads_as as 2 (or_else (command_stbd_actuator_deg out) 0)
    \<and> (bit = ''1'' \<longleftrightarrow> stabilization_state out = Some ''APEX_COMBAT_LOCK_ACTIVE'')"
proof -
  let ?hs = "asymmetric_serializer_init pre"
  let ?lock = "or_else (stabilization_state out) ''NOMINAL_STORM_DAMPING'' = ''APEX_COMBAT_LOCK_ACTIVE''"
  have plain: "plain_field (port_header ?hs)" "plain_field (stbd_header ?hs)"
    using assms(1) by (auto intro: plain_init_codes)
  have sent: "validate_checksum (py_strip (asymmetric_sentence h a c b))
      \<and> sentence_fields (py_strip (asymmetric_sentence h a c b)) = [CHR ''$'' # h, fmt_fixed 2 a, fmt_fixed 1 c, nat_str b]"
    if "plain_field h" for h a c b
    unfolding asymmetric_sentence_def by (intro conjI sealed_csv) (use that in \<open>auto intro!: plain_intros\<close>)
  have "?lock \<longleftrightarrow> stabilization_state out = Some ''APEX_COMBAT_LOCK_ACTIVE''"
    by (cases "stabilization_state out") auto
  moreover have "CHR ''$'' # port_header ?hs \<noteq> CHR ''$'' # stbd_header ?hs"
    by (simp add: asymmetric_serializer_init_def Let_def)
  moreover have "wires = (asymmetric_sentence (port_header ?hs) (or_else (command_port_actuator_deg out) 0) cap (if ?lock then 1 else 0),
      asymmetric_sentence (stbd_header ?hs) (or_else (command_stbd_actuator_deg out) 0) cap (if ?lock then 1 else 0))"
    by (simp add: wires_def serialize_asymmetric_actuator_channels_def Let_def)
  ultimately show ?thesis
    using sent [OF plain(1)] sent [OF plain(2)] reads_as_fmt [OF assms(2), of 2] reads_as_fmt [OF assms(3), of 2]
    by (simp add: nat_str_bit)
qed

theorem asymmetric_channels_readback_witness:
  "\<exists>ap hp cp bit. sentence_fields (py_strip (fst (serialize_asymmetric_actuator_channels (asymmetric_serializer_init ''PUNVC'')
      \<lparr>command_port_actuator_deg = Some (- 18.45), command_stbd_actuator_deg = Some 14.12,
        stabilization_state = Some ''APEX_COMBAT_LOCK_ACTIVE''\<rparr> 12.5))) = [hp, ap, cp, bit] \<and> bit = ''1''"
  using asymmetric_channels_readback [of "''PUNVC''" "\<lparr>command_port_actuator_deg = Some (- 18.45),
      command_stbd_actuator_deg = Some 14.12, stabilization_state = Some ''APEX_COMBAT_LOCK_ACTIVE''\<rparr>" "12.5"]
  by (simp add: plain_field_def) blast

end
