(* ===== verification/Py_Math.thy ===== *)
theory Py_Math
  imports Prelude "HOL-Library.Monad_Syntax"
begin

text \<open>
  The partial operations of Python's arithmetic and of the module \<open>math\<close>, over exact reals.
  Where Python raises (\<open>ZeroDivisionError\<close>, \<open>ValueError\<close> for a domain error) the result is
  \<open>None\<close>; where a power of a negative base leaves the reals Python returns a complex number,
  which no caller in the repository can use as a float, and the result is \<open>None\<close> as well. Calls in sequence
  are the option monad.
\<close>

named_theorems py_partial \<open>when the partial operations of Python return\<close>

definition py_div :: "real \<Rightarrow> real \<Rightarrow> real option" where
  "py_div x y = (if y = 0 then None else Some (x / y))"

definition py_sqrt :: "real \<Rightarrow> real option" where
  "py_sqrt x = (if x < 0 then None else Some (sqrt x))"

definition py_log :: "real \<Rightarrow> real option" where
  "py_log x = (if x \<le> 0 then None else Some (ln x))"

definition py_log10 :: "real \<Rightarrow> real option" where
  "py_log10 x = (if x \<le> 0 then None else Some (log 10 x))"

definition py_asin :: "real \<Rightarrow> real option" where
  "py_asin x = (if \<bar>x\<bar> \<le> 1 then Some (arcsin x) else None)"

definition py_acos :: "real \<Rightarrow> real option" where
  "py_acos x = (if \<bar>x\<bar> \<le> 1 then Some (arccos x) else None)"

text \<open>\<open>x ** y\<close> with a float exponent: zero to a negative power raises, a negative base is real only
  for an integral exponent.\<close>

definition py_pow :: "real \<Rightarrow> real \<Rightarrow> real option" where
  "py_pow x y =
     (if x > 0 then Some (x powr y)
      else if x = 0 then (if y = 0 then Some 1 else if y > 0 then Some 0 else None)
      else if y = of_int \<lfloor>y\<rfloor> then Some (power_int x \<lfloor>y\<rfloor>)
      else None)"

text \<open>\<open>x ** n\<close> with an integer exponent.\<close>

definition py_ipow :: "real \<Rightarrow> int \<Rightarrow> real option" where
  "py_ipow x n = (if n < 0 \<and> x = 0 then None else Some (power_int x n))"

text \<open>\<open>math.factorial\<close> of a negative number raises.\<close>

definition py_factorial :: "int \<Rightarrow> real option" where
  "py_factorial k = (if k < 0 then None else Some (fact (nat k)))"

text \<open>\<open>math.tan\<close> has no pole on floats: at the float nearest to a right angle it returns a huge
  finite number, here the parameter \<open>pole\<close>.\<close>

definition py_tan :: "real \<Rightarrow> real \<Rightarrow> real" where
  "py_tan pole x = (if cos x = 0 then pole else tan x)"

text \<open>\<open>math.atan2\<close>\<close>

definition py_atan2 :: "real \<Rightarrow> real \<Rightarrow> real" where
  "py_atan2 y x =
     (if x > 0 then arctan (y / x)
      else if x < 0 then (if y \<ge> 0 then arctan (y / x) + pi else arctan (y / x) - pi)
      else if y > 0 then pi / 2 else if y < 0 then - pi / 2 else 0)"

lemma py_atan2_range: "- pi \<le> py_atan2 y x \<and> py_atan2 y x \<le> pi"
proof -
  have "arctan (y / x) \<le> 0" if "x < 0" "0 \<le> y" using that by (simp add: divide_nonneg_neg)
  moreover have "0 \<le> arctan (y / x)" if "x < 0" "y < 0" using that by (simp add: divide_nonpos_neg)
  ultimately show ?thesis
    using arctan_bounded [of "y / x"] pi_gt_zero by (auto simp: py_atan2_def; linarith)
qed

section \<open>When the partial operations return\<close>

lemma py_div_None [simp, py_partial]: "py_div x y = None \<longleftrightarrow> y = 0"
  by (simp add: py_div_def)

lemma py_div_zero [simp]: "py_div x 0 = None"
  by simp

lemma py_div_Some [py_partial]: "py_div x y = Some z \<longleftrightarrow> y \<noteq> 0 \<and> z = x / y"
  by (auto simp: py_div_def)

lemma py_div_nonzero [simp]: "y \<noteq> 0 \<Longrightarrow> py_div x y = Some (x / y)"
  by (simp add: py_div_def)

lemma py_sqrt_None [simp, py_partial]: "py_sqrt x = None \<longleftrightarrow> x < 0"
  by (simp add: py_sqrt_def)

lemma py_sqrt_nonneg [simp]: "0 \<le> x \<Longrightarrow> py_sqrt x = Some (sqrt x)"
  by (simp add: py_sqrt_def)

lemma py_log_None [simp, py_partial]: "py_log x = None \<longleftrightarrow> x \<le> 0"
  by (simp add: py_log_def)

lemma py_log_pos [simp]: "0 < x \<Longrightarrow> py_log x = Some (ln x)"
  by (simp add: py_log_def)

lemma py_log10_None [simp, py_partial]: "py_log10 x = None \<longleftrightarrow> x \<le> 0"
  by (simp add: py_log10_def)

lemma py_log10_pos [simp]: "0 < x \<Longrightarrow> py_log10 x = Some (log 10 x)"
  by (simp add: py_log10_def)

lemma py_asin_None [simp, py_partial]: "py_asin x = None \<longleftrightarrow> 1 < \<bar>x\<bar>"
  by (simp add: py_asin_def not_le)

lemma py_acos_clamped [simp]: "py_acos (clamp (- 1) 1 x) = Some (arccos (clamp (- 1) 1 x))"
  using clamp_abs_le [of 1 x] by (simp add: py_acos_def)

lemma py_pow_pos [simp]: "0 < x \<Longrightarrow> py_pow x y = Some (x powr y)"
  by (simp add: py_pow_def)

lemma py_pow_zero [simp]: "0 < y \<Longrightarrow> py_pow 0 y = Some 0"
  by (simp add: py_pow_def)

lemma py_pow_None [py_partial]:
  "py_pow x y = None \<longleftrightarrow> (x = 0 \<and> y < 0) \<or> (x < 0 \<and> y \<noteq> of_int \<lfloor>y\<rfloor>)"
  by (auto simp: py_pow_def)

lemma py_ipow_nonneg [simp]: "0 \<le> n \<Longrightarrow> py_ipow x n = Some (x ^ nat n)"
  by (simp add: py_ipow_def power_int_def)

lemma py_ipow_None [simp, py_partial]: "py_ipow x n = None \<longleftrightarrow> x = 0 \<and> n < 0"
  by (auto simp: py_ipow_def)

lemma py_factorial_None [simp, py_partial]: "py_factorial k = None \<longleftrightarrow> k < 0"
  by (simp add: py_factorial_def)

lemma py_factorial_nonneg [simp]: "0 \<le> k \<Longrightarrow> py_factorial k = Some (fact (nat k))"
  by (simp add: py_factorial_def)

end
