(* ===== verification/Nmea_Parsers.thy ===== *)
theory Nmea_Parsers
  imports Nmea_Frame Py_Math
begin

text \<open>
  The receivers of the serial streams: ship sensors (\<open>NmeaSerialDataParser\<close>), the two gun
  mount decoders (\<open>WeaponSerialBusParser\<close>, \<open>WeaponAsyncParserExtension\<close>) and the flight
  telemetry bridge (\<open>AviationTelemetryBridgeNode\<close>). A parser is a state and a step that takes
  the line and the clock; its caches are dictionaries whose values may be \<open>inf\<close> or \<open>nan\<close>,
  since \<open>float\<close> reads them from the wire. An exception that the code catches is \<open>None\<close>
  of the reading steps, and a state assigned before the exception keeps its value.
\<close>

section \<open>Float arithmetic with special values\<close>

fun pn_minus :: "pynum \<Rightarrow> pynum \<Rightarrow> pynum" where
  "pn_minus (Fin x) (Fin y) = Fin (x - y)"
| "pn_minus NaN b = NaN"
| "pn_minus a NaN = NaN"
| "pn_minus PosInf PosInf = NaN"
| "pn_minus NegInf NegInf = NaN"
| "pn_minus PosInf b = PosInf"
| "pn_minus NegInf b = NegInf"
| "pn_minus a PosInf = NegInf"
| "pn_minus a NegInf = PosInf"

text \<open>Multiplication by a positive constant.\<close>

fun pn_scale :: "real \<Rightarrow> pynum \<Rightarrow> pynum" where
  "pn_scale k (Fin x) = Fin (k * x)"
| "pn_scale k a = a"

definition pn_radians :: "pynum \<Rightarrow> pynum" where
  "pn_radians = pn_scale (pi / 180)"

text \<open>\<open>(d + h) % (2 * h) - h\<close> for a half turn \<open>h\<close>; an infinite operand of \<open>%\<close> gives \<open>nan\<close>.\<close>

fun pn_wrap :: "real \<Rightarrow> pynum \<Rightarrow> pynum" where
  "pn_wrap h (Fin d) = Fin (py_mod (d + h) (2 * h) - h)"
| "pn_wrap h a = NaN"

text \<open>\<open>math.atan2\<close> on numbers with the special values.\<close>

fun pn_atan2 :: "pynum \<Rightarrow> pynum \<Rightarrow> pynum" where
  "pn_atan2 (Fin y) (Fin x) = Fin (py_atan2 y x)"
| "pn_atan2 NaN x = NaN"
| "pn_atan2 y NaN = NaN"
| "pn_atan2 (Fin y) PosInf = Fin 0"
| "pn_atan2 (Fin y) NegInf = Fin (if y \<ge> 0 then pi else - pi)"
| "pn_atan2 PosInf (Fin x) = Fin (pi / 2)"
| "pn_atan2 NegInf (Fin x) = Fin (- pi / 2)"
| "pn_atan2 PosInf PosInf = Fin (pi / 4)"
| "pn_atan2 PosInf NegInf = Fin (3 * pi / 4)"
| "pn_atan2 NegInf PosInf = Fin (- pi / 4)"
| "pn_atan2 NegInf NegInf = Fin (- 3 * pi / 4)"

lemma wrap_range:
  assumes "0 < h"
  shows "- h \<le> py_mod (d + h) (2 * h) - h" and "py_mod (d + h) (2 * h) - h < h"
  using py_mod_range [of "2 * h" "d + h"] assms by auto

lemma wrap_congruent: "\<exists>k::int. py_mod (d + h) (2 * h) - h = d - 2 * h * of_int k"
  by (auto simp: py_mod_def)

section \<open>Reading fields\<close>

text \<open>\<open>parts[i]\<close>; \<open>None\<close> is the \<open>IndexError\<close>.\<close>

definition field :: "string list \<Rightarrow> nat \<Rightarrow> string option" where
  "field parts i = (if i < length parts then Some (parts ! i) else None)"

lemma field_simps' [simp]: "field (x # xs) 0 = Some x" "field (x # xs) (Suc i) = field xs i" "field [] i = None"
  by (auto simp: field_def)

lemma field_numeral [simp]: "field (x # xs) (numeral k) = field xs (pred_numeral k)"
  by (simp add: field_def numeral_eq_Suc)

definition float_field :: "string list \<Rightarrow> nat \<Rightarrow> pynum option" where
  "float_field parts i = Option.bind (field parts i) py_float"

section \<open>NmeaSerialDataParser\<close>

type_synonym cache = "string \<rightharpoonup> pynum"

record nmea_parser =
  telemetry_cache :: cache
  last_heading :: "pynum option"
  last_heading_time :: "real option"

definition nmea_parser_init :: nmea_parser where
  "nmea_parser_init =
     \<lparr>telemetry_cache = [''rpm'' \<mapsto> Fin 0, ''depth'' \<mapsto> Fin 50, ''speed_ms'' \<mapsto> Fin 0, ''bow_sensor_meters'' \<mapsto> Fin 0,
        ''yaw_rate_rads'' \<mapsto> Fin 0, ''roll_angle_rad'' \<mapsto> Fin 0, ''roll_rate_rads'' \<mapsto> Fin 0,
        ''distance_to_bank_meters'' \<mapsto> Fin 100, ''rudder_deg'' \<mapsto> Fin 0],
      last_heading = None, last_heading_time = None\<rparr>"

definition set_cache :: "string \<Rightarrow> pynum \<Rightarrow> nmea_parser \<Rightarrow> nmea_parser" where
  "set_cache k v p = p\<lparr>telemetry_cache := (telemetry_cache p)(k \<mapsto> v)\<rparr>"

text \<open>
  The heading branch. The module does not import \<open>math\<close>, so the conversion uses the literal
  3.14159, as does the wrap of the heading difference.
\<close>

definition heading_update :: "nmea_parser \<Rightarrow> pynum \<Rightarrow> real \<Rightarrow> nmea_parser" where
  "heading_update p deg timestamp =
     (let rad = pn_scale (3.14159 / 180) deg;
          p = (case (last_heading p, last_heading_time p) of
                 (Some h, Some t) \<Rightarrow>
                   let dt = timestamp - t
                   in if dt > 0.001
                      then set_cache ''yaw_rate_rads'' (pn_scale (1 / dt) (pn_wrap 3.14159 (pn_minus rad h))) p
                      else p
               | _ \<Rightarrow> p)
      in p\<lparr>last_heading := Some rad, last_heading_time := Some timestamp\<rparr>)"

text \<open>\<open>None\<close> is a \<open>ValueError\<close> or \<open>IndexError\<close>, raised before anything is assigned.\<close>

definition parse_fields :: "nmea_parser \<Rightarrow> string list \<Rightarrow> real \<Rightarrow> nmea_parser option" where
  "parse_fields p parts timestamp =
     (let talker_id = hd parts in
      if ends_with talker_id ''HDT'' then
        (case field parts 1 of None \<Rightarrow> None
         | Some f \<Rightarrow> if f = [] then Some p else map_option (\<lambda>d. heading_update p d timestamp) (py_float f))
      else if ends_with talker_id ''DBT'' then
        (case field parts 3 of None \<Rightarrow> None
         | Some f \<Rightarrow> if f = [] then Some p else map_option (\<lambda>d. set_cache ''depth'' d p) (py_float f))
      else if ends_with talker_id ''DPT'' then
        (case field parts 1 of None \<Rightarrow> None
         | Some f \<Rightarrow> if f = [] then Some p else map_option (\<lambda>d. set_cache ''depth'' d p) (py_float f))
      else if ends_with talker_id ''RMC'' then
        (case field parts 2 of None \<Rightarrow> None
         | Some s \<Rightarrow> if s \<noteq> ''A'' then Some p else
            (case field parts 7 of None \<Rightarrow> None
             | Some f \<Rightarrow> if f = [] then Some p
                 else map_option (\<lambda>k. set_cache ''speed_ms'' (pn_scale 0.514444 k) p) (py_float f)))
      else Some p)"

definition parse_sentence :: "nmea_parser \<Rightarrow> string \<Rightarrow> real \<Rightarrow> nmea_parser" where
  "parse_sentence p raw_sentence timestamp =
     (let clean_str = py_strip raw_sentence in
      if \<not> validate_checksum clean_str then p
      else case parse_fields p (sentence_fields clean_str) timestamp of None \<Rightarrow> p | Some p' \<Rightarrow> p')"

section \<open>WeaponSerialBusParser\<close>

record weapon_state =
  azimuth_deg :: pynum
  elevation_deg :: pynum
  azimuth_rate_rads :: pynum
  elevation_rate_rads :: pynum
  servo_fault_active :: bool

record weapon_parser =
  live_weapon_state :: weapon_state
  last_azimuth_rad :: pynum
  last_elevation_rad :: pynum
  last_packet_time :: "real option"

text \<open>
  The two history angles are \<open>None\<close> exactly while the packet time is, and are not read
  then; the model starts them at 0.
\<close>

definition weapon_parser_init :: weapon_parser where
  "weapon_parser_init =
     \<lparr>live_weapon_state = \<lparr>azimuth_deg = Fin 0, elevation_deg = Fin 0, azimuth_rate_rads = Fin 0,
        elevation_rate_rads = Fin 0, servo_fault_active = False\<rparr>,
      last_azimuth_rad = Fin 0, last_elevation_rad = Fin 0, last_packet_time = None\<rparr>"

definition tracking_rates :: "real option \<Rightarrow> pynum \<Rightarrow> pynum \<Rightarrow> real \<Rightarrow> pynum \<Rightarrow> pynum \<Rightarrow> pynum \<times> pynum" where
  "tracking_rates last_time last_az last_el now az_rad el_rad =
     (case last_time of None \<Rightarrow> (Fin 0, Fin 0)
      | Some t \<Rightarrow>
          let dt = now - t
          in if dt > 0.001
             then (pn_scale (1 / dt) (pn_wrap pi (pn_minus az_rad last_az)), pn_scale (1 / dt) (pn_minus el_rad last_el))
             else (Fin 0, Fin 0))"

definition ingest_encoder_sentence :: "weapon_parser \<Rightarrow> string \<Rightarrow> real \<Rightarrow> weapon_parser" where
  "ingest_encoder_sentence p raw_sentence timestamp =
     (let clean_str = py_strip raw_sentence; parts = sentence_fields clean_str in
      if \<not> validate_checksum clean_str then p
      else if hd parts \<noteq> ''$PMK45'' then p
      else case (float_field parts 1, float_field parts 2, field parts 3) of
        (Some az_deg, Some el_deg, Some status_hex) \<Rightarrow>
          let az_rad = pn_radians az_deg; el_rad = pn_radians el_deg;
              (az_rate, el_rate) = tracking_rates (last_packet_time p) (last_azimuth_rad p) (last_elevation_rad p) timestamp az_rad el_rad;
              live = (live_weapon_state p)\<lparr>azimuth_rate_rads := az_rate, elevation_rate_rads := el_rate\<rparr>
          in (case py_int16 status_hex of
                None \<Rightarrow> p\<lparr>live_weapon_state := live\<rparr>
              | Some status_mask \<Rightarrow>
                  \<lparr>live_weapon_state = live\<lparr>servo_fault_active := (status_mask > 0), azimuth_deg := az_deg, elevation_deg := el_deg\<rparr>,
                   last_azimuth_rad = az_rad, last_elevation_rad = el_rad, last_packet_time = Some timestamp\<rparr>)
      | _ \<Rightarrow> p)"

section \<open>WeaponAsyncParserExtension\<close>

record async_state =
  a_azimuth_deg :: pynum
  a_elevation_deg :: pynum
  a_azimuth_rate_rads :: pynum
  a_elevation_rate_rads :: pynum
  bus_sync_active :: bool
  last_ingest_time :: real

record async_parser =
  expected_prefix :: string
  parsed_weapon_state :: async_state
  prev_az_rad :: pynum
  prev_el_rad :: pynum
  prev_packet_time :: "real option"

definition async_parser_init :: "string \<Rightarrow> real \<Rightarrow> async_parser" where
  "async_parser_init manufacturer_code now =
     \<lparr>expected_prefix = ''$'' @ take 4 (py_upper manufacturer_code),
      parsed_weapon_state = \<lparr>a_azimuth_deg = Fin 0, a_elevation_deg = Fin 0, a_azimuth_rate_rads = Fin 0,
        a_elevation_rate_rads = Fin 0, bus_sync_active = False, last_ingest_time = now\<rparr>,
      prev_az_rad = Fin 0, prev_el_rad = Fin 0, prev_packet_time = None\<rparr>"

definition process_async_line :: "async_parser \<Rightarrow> string \<Rightarrow> real \<Rightarrow> async_parser" where
  "process_async_line p raw_line_str current_time =
     (let clean_line = py_strip raw_line_str; parts = sentence_fields clean_line in
      if \<not> validate_checksum clean_line then p
      else if hd parts \<noteq> expected_prefix p then p
      else case (float_field parts 1, float_field parts 2, Option.bind (field parts 3) py_int16) of
        (Some azimuth_val, Some elevation_val, Some servo_fault_mask) \<Rightarrow>
          let az_rad = pn_radians azimuth_val; el_rad = pn_radians elevation_val;
              (az_rate, el_rate) = tracking_rates (prev_packet_time p) (prev_az_rad p) (prev_el_rad p) current_time az_rad el_rad
          in p\<lparr>parsed_weapon_state := \<lparr>a_azimuth_deg = azimuth_val, a_elevation_deg = elevation_val,
                  a_azimuth_rate_rads = az_rate, a_elevation_rate_rads = el_rate,
                  bus_sync_active = (servo_fault_mask = 0), last_ingest_time = current_time\<rparr>,
               prev_az_rad := az_rad, prev_el_rad := el_rad, prev_packet_time := Some current_time\<rparr>
      | _ \<Rightarrow> p)"

definition get_isolated_state_snapshot :: "async_parser \<Rightarrow> async_state" where
  "get_isolated_state_snapshot p = parsed_weapon_state p"

section \<open>AviationTelemetryBridgeNode\<close>

record flight_state =
  latitude_decimal :: pynum
  longitude_decimal :: pynum
  altitude_feet :: pynum
  density_altitude_feet :: pynum
  ground_speed_ms :: pynum
  aerodynamic_crab_angle_rad :: pynum
  climatological_temp_c :: pynum
  gps_lock_valid :: bool
  last_sync_timestamp :: real

record aviation_node =
  av_prefix :: string
  active_flight_telemetry :: flight_state
  last_fix :: "(pynum \<times> pynum \<times> real) option"

text \<open>\<open>last_lat\<close>, \<open>last_lon\<close> and \<open>last_update_time\<close> are assigned together: one optional triple.\<close>

definition aviation_init :: "string \<Rightarrow> real \<Rightarrow> aviation_node" where
  "aviation_init prefix_id now =
     \<lparr>av_prefix = ''$'' @ take 4 (py_upper prefix_id),
      active_flight_telemetry = \<lparr>latitude_decimal = Fin 0, longitude_decimal = Fin 0, altitude_feet = Fin 0,
        density_altitude_feet = Fin 0, ground_speed_ms = Fin 0, aerodynamic_crab_angle_rad = Fin 0,
        climatological_temp_c = Fin 15, gps_lock_valid = False, last_sync_timestamp = now\<rparr>,
      last_fix = None\<rparr>"

definition crab_angle :: "(pynum \<times> pynum \<times> real) option \<Rightarrow> pynum \<Rightarrow> pynum \<Rightarrow> real \<Rightarrow> pynum" where
  "crab_angle fix lat_val lon_val timestamp =
     (case fix of None \<Rightarrow> Fin 0
      | Some (lat, lon, t) \<Rightarrow> if timestamp - t > 0.001 then pn_atan2 (pn_minus lon_val lon) (pn_minus lat_val lat) else Fin 0)"

definition ingest_aerospace_sentence :: "aviation_node \<Rightarrow> string \<Rightarrow> real \<Rightarrow> aviation_node" where
  "ingest_aerospace_sentence b raw_sentence timestamp =
     (let clean_sentence = py_strip raw_sentence; parts = sentence_fields clean_sentence in
      if \<not> validate_checksum clean_sentence then b
      else if hd parts \<noteq> av_prefix b then b
      else case (float_field parts 1, float_field parts 2, float_field parts 3, float_field parts 4,
                 float_field parts 5, float_field parts 6, Option.bind (field parts 7) py_int16) of
        (Some lat_val, Some lon_val, Some alt_ft, Some density_alt_ft, Some speed_knots, Some temp_c, Some status_mask) \<Rightarrow>
          b\<lparr>active_flight_telemetry :=
              \<lparr>latitude_decimal = lat_val, longitude_decimal = lon_val, altitude_feet = alt_ft,
               density_altitude_feet = density_alt_ft, ground_speed_ms = pn_scale 0.514444 speed_knots,
               aerodynamic_crab_angle_rad = crab_angle (last_fix b) lat_val lon_val timestamp,
               climatological_temp_c = temp_c, gps_lock_valid = (status_mask = 0), last_sync_timestamp = timestamp\<rparr>,
            last_fix := Some (lat_val, lon_val, timestamp)\<rparr>
      | _ \<Rightarrow> b)"

definition get_synchronized_aviation_snapshot :: "aviation_node \<Rightarrow> flight_state" where
  "get_synchronized_aviation_snapshot b = active_flight_telemetry b"

section \<open>The contract of a guarded receiver\<close>

text \<open>
  A receiver that drops every line failing the checksum: line noise is invisible, wherever
  in the stream it falls.
\<close>

locale guarded_receiver =
  fixes receive :: "'s \<Rightarrow> string \<Rightarrow> real \<Rightarrow> 's"
  assumes drops: "\<not> validate_checksum (py_strip line) \<Longrightarrow> receive s line t = s"
begin

definition listen :: "'s \<Rightarrow> (string \<times> real) list \<Rightarrow> 's" where
  "listen s ls = foldl (\<lambda>s (line, t). receive s line t) s ls"

lemma listen_noise: "listen s ls = listen s (filter (\<lambda>(line, t). validate_checksum (py_strip line)) ls)"
proof (induction ls arbitrary: s)
  case (Cons l ls)
  then show ?case using drops [of "fst l" s "snd l"] by (cases l) (simp add: listen_def)
qed (simp add: listen_def)

end

interpretation sensors: guarded_receiver parse_sentence
  by unfold_locales (simp add: parse_sentence_def Let_def)

interpretation gun_bus: guarded_receiver ingest_encoder_sentence
  by unfold_locales (simp add: ingest_encoder_sentence_def Let_def)

interpretation gun_async: guarded_receiver process_async_line
  by unfold_locales (simp add: process_async_line_def Let_def)

interpretation flight: guarded_receiver ingest_aerospace_sentence
  by unfold_locales (simp add: ingest_aerospace_sentence_def Let_def)

definition clean_lines :: "(string \<times> real) list \<Rightarrow> (string \<times> real) list" where
  "clean_lines ls = filter (\<lambda>(line, t). validate_checksum (py_strip line)) ls"

text \<open>Line noise is invisible to all four receivers: feeding a stream leaves each of
  them in the state it reaches on the stream with every checksum failure removed.
\<close>

theorem noise_is_invisible:
  "foldl (\<lambda>p (l, t). parse_sentence p l t) p ls = foldl (\<lambda>p (l, t). parse_sentence p l t) p (clean_lines ls)
 \<and> foldl (\<lambda>w (l, t). ingest_encoder_sentence w l t) w ls = foldl (\<lambda>w (l, t). ingest_encoder_sentence w l t) w (clean_lines ls)
 \<and> foldl (\<lambda>a (l, t). process_async_line a l t) a ls = foldl (\<lambda>a (l, t). process_async_line a l t) a (clean_lines ls)
 \<and> foldl (\<lambda>b (l, t). ingest_aerospace_sentence b l t) b ls = foldl (\<lambda>b (l, t). ingest_aerospace_sentence b l t) b (clean_lines ls)"
  using sensors.listen_noise [of p ls] gun_bus.listen_noise [of w ls] gun_async.listen_noise [of a ls] flight.listen_noise [of b ls]
  by (simp add: sensors.listen_def gun_bus.listen_def gun_async.listen_def flight.listen_def clean_lines_def)

section \<open>What a formatted sentence does\<close>

lemma ends_with_append [simp]: "ends_with (a @ b) b" "length c = length b \<Longrightarrow> ends_with (a @ b) c \<longleftrightarrow> b = c"
  by (auto simp: ends_with_def)

lemma ends_with_Cons_append: "length c = length b \<Longrightarrow> ends_with (x # a @ b) c \<longleftrightarrow> b = c"
  using ends_with_append(2) [of c b "x # a"] by simp

lemma parse_sealed:
  assumes "\<forall>f \<in> set (h # fs). plain_field f"
  shows "parse_sentence p (nmea_sentence (csv_join (h # fs))) t =
    (case parse_fields p ((CHR ''$'' # h) # fs) t of None \<Rightarrow> p | Some p' \<Rightarrow> p')"
  unfolding parse_sentence_def Let_def using sealed_csv [OF assms] by simp

lemma fmt_fixed_not_Nil [simp]: "fmt_fixed n x \<noteq> []"
  by (simp add: fmt_fixed_def Let_def)

text \<open>A depth sentence in either format, from any talker and with any other fields,
  sets the depth register to the depth it was formatted from (rounded to the places sent) and
  changes no other register and no heading history.
\<close>

theorem depth_sentence_readback:
  assumes "plain_field talker" "\<forall>f \<in> set [ft, fathoms, off]. plain_field f" and "\<bar>x\<bar> \<le> 10 ^ 300"
  shows "parse_sentence p (nmea_sentence (csv_join [talker @ ''DBT'', ft, ''f'', fmt_fixed n x, ''M'', fathoms, ''F''])) t
         = set_cache ''depth'' (Fin (py_round n x)) p
    \<and> parse_sentence p (nmea_sentence (csv_join [talker @ ''DPT'', fmt_fixed n x, off])) t
         = set_cache ''depth'' (Fin (py_round n x)) p"
proof (intro conjI)
  have "\<forall>f \<in> set [talker @ ''DBT'', ft, ''f'', fmt_fixed n x, ''M'', fathoms, ''F'']. plain_field f"
    using assms(1,2) by (auto intro!: plain_intros)
  from parse_sealed [OF this]
  show "parse_sentence p (nmea_sentence (csv_join [talker @ ''DBT'', ft, ''f'', fmt_fixed n x, ''M'', fathoms, ''F''])) t
      = set_cache ''depth'' (Fin (py_round n x)) p"
    by (simp add: parse_fields_def ends_with_Cons_append py_float_fmt_fixed [OF assms(3)])
  have "\<forall>f \<in> set [talker @ ''DPT'', fmt_fixed n x, off]. plain_field f"
    using assms(1,2) by (auto intro!: plain_intros)
  from parse_sealed [OF this]
  show "parse_sentence p (nmea_sentence (csv_join [talker @ ''DPT'', fmt_fixed n x, off])) t
      = set_cache ''depth'' (Fin (py_round n x)) p"
    by (simp add: parse_fields_def ends_with_Cons_append py_float_fmt_fixed [OF assms(3)])
qed

theorem depth_sentence_readback_witness:
  "parse_sentence nmea_parser_init (nmea_sentence (csv_join [''SD'' @ ''DPT'', fmt_fixed 1 8.4, ''0.5''])) 0
     = set_cache ''depth'' (Fin (py_round 1 8.4)) nmea_parser_init"
  using depth_sentence_readback [of "''SD''" "''24.6''" "''4.1''" "''0.5''" "8.4" nmea_parser_init 1 0]
  by (simp add: plain_field_def)

lemma heading_sentence:
  assumes "plain_field talker" "plain_field ind" "\<bar>x\<bar> \<le> 10 ^ 300"
  shows "parse_sentence p (nmea_sentence (csv_join [talker @ ''HDT'', fmt_fixed n x, ind])) t
    = heading_update p (Fin (py_round n x)) t"
proof -
  have "\<forall>f \<in> set [talker @ ''HDT'', fmt_fixed n x, ind]. plain_field f"
    using assms(1,2) by (auto intro!: plain_intros)
  from parse_sealed [OF this] show ?thesis
    by (simp add: parse_fields_def ends_with_Cons_append py_float_fmt_fixed [OF assms(3)])
qed

text \<open>Two heading sentences more than a millisecond apart set the yaw rate to the
  heading difference taken modulo a full turn (of 2 * 3.14159) and over the time between them:
  the turn it stands for never exceeds half a circle in either direction, so crossing north
  does not produce a spurious full turn.
\<close>

theorem yaw_rate_shortest_turn:
  assumes "plain_field talker" "\<bar>x\<bar> \<le> 10 ^ 300" "\<bar>y\<bar> \<le> 10 ^ 300" and dt: "t' - t > 0.001"
  defines "say \<equiv> \<lambda>v. nmea_sentence (csv_join [talker @ ''HDT'', fmt_fixed 2 v, ''T''])"
  shows "\<exists>w. telemetry_cache (parse_sentence (parse_sentence p (say x) t) (say y) t') ''yaw_rate_rads'' = Some (Fin w)
     \<and> - 3.14159 \<le> w * (t' - t) \<and> w * (t' - t) < 3.14159
     \<and> (\<exists>k::int. w * (t' - t) = (py_round 2 y - py_round 2 x) * 3.14159 / 180 - 2 * 3.14159 * of_int k)"
proof -
  let ?d = "3.14159 / 180 * py_round 2 y - 3.14159 / 180 * py_round 2 x"
  let ?turn = "py_mod (?d + 3.14159) (2 * 3.14159) - 3.14159"
  let ?w = "1 / (t' - t) * ?turn"
  have T: "plain_field ''T''" by (simp add: plain_field_def)
  have read: "parse_sentence q (say v) s = heading_update q (Fin (py_round 2 v)) s" if "\<bar>v\<bar> \<le> 10 ^ 300" for q v s
    unfolding say_def by (rule heading_sentence [OF assms(1) T that])
  have "telemetry_cache (parse_sentence (parse_sentence p (say x) t) (say y) t') ''yaw_rate_rads'' = Some (Fin ?w)"
    unfolding read [OF assms(2)] read [OF assms(3)] using dt
    by (simp add: heading_update_def set_cache_def Let_def)
  moreover have w: "?w * (t' - t) = ?turn" using dt by simp
  moreover obtain k :: int where "?turn = ?d - 2 * 3.14159 * of_int k" using wrap_congruent [of ?d "3.14159"] by blast
  moreover have "?d = (py_round 2 y - py_round 2 x) * 3.14159 / 180" by (simp add: field_simps)
  ultimately have "\<exists>k::int. ?w * (t' - t) = (py_round 2 y - py_round 2 x) * 3.14159 / 180 - 2 * 3.14159 * of_int k"
    by (intro exI [of _ k]) (simp only:)
  moreover have "- 3.14159 \<le> ?w * (t' - t)" "?w * (t' - t) < 3.14159"
    unfolding w by (rule wrap_range, simp)+
  ultimately show ?thesis
    using \<open>telemetry_cache (parse_sentence (parse_sentence p (say x) t) (say y) t') ''yaw_rate_rads'' = Some (Fin ?w)\<close>
    by (intro exI [of _ ?w] conjI)
qed

theorem yaw_rate_shortest_turn_witness:
  "\<exists>w. telemetry_cache (parse_sentence (parse_sentence nmea_parser_init
      (nmea_sentence (csv_join [''HE'' @ ''HDT'', fmt_fixed 2 359.5, ''T''])) 0)
      (nmea_sentence (csv_join [''HE'' @ ''HDT'', fmt_fixed 2 0.5, ''T''])) 1) ''yaw_rate_rads'' = Some (Fin w)
     \<and> - 3.14159 \<le> w \<and> w < 3.14159"
  using yaw_rate_shortest_turn [of "''HE''" "359.5" "0.5" 1 0 nmea_parser_init]
  by (auto simp: plain_field_def)

section \<open>The gun mount decoders\<close>

lemma pn_minus_cases: "pn_minus a b = Fin d \<Longrightarrow> \<exists>x y. a = Fin x \<and> b = Fin y \<and> d = x - y"
  by (cases "(a, b)" rule: pn_minus.cases) auto

lemma tracking_rates_bounds:
  assumes "tracking_rates last_time laz lel now az el = (ra, re)" "last_time = Some t" "ra = Fin w"
  shows "\<bar>w * (now - t)\<bar> \<le> pi"
proof (cases "now - t > 0.001")
  case True
  then have ra: "Fin w = pn_scale (1 / (now - t)) (pn_wrap pi (pn_minus az laz))"
    using assms by (simp add: tracking_rates_def Let_def)
  then obtain d where d: "pn_minus az laz = Fin d" by (cases "pn_minus az laz") auto
  with ra True have "w * (now - t) = py_mod (d + pi) (2 * pi) - pi" by (simp add: field_simps)
  then show ?thesis using wrap_range [of pi d] by (simp add: abs_le_iff)
qed (use assms in \<open>simp add: tracking_rates_def Let_def\<close>)

text \<open>
  The history registers always agree with the published angles, and the bus parser's packet
  time is the time of the last complete sentence.
\<close>

definition gun_consistent :: "weapon_parser \<Rightarrow> bool" where
  "gun_consistent p \<longleftrightarrow> last_azimuth_rad p = pn_radians (azimuth_deg (live_weapon_state p))
     \<and> last_elevation_rad p = pn_radians (elevation_deg (live_weapon_state p))"

definition async_consistent :: "async_parser \<Rightarrow> bool" where
  "async_consistent p \<longleftrightarrow> prev_az_rad p = pn_radians (a_azimuth_deg (parsed_weapon_state p))
     \<and> prev_el_rad p = pn_radians (a_elevation_deg (parsed_weapon_state p))
     \<and> (\<forall>t. prev_packet_time p = Some t \<longrightarrow> last_ingest_time (parsed_weapon_state p) = t)"

lemma gun_consistent_step: "gun_consistent p \<Longrightarrow> gun_consistent (ingest_encoder_sentence p l t)"
  by (auto simp: gun_consistent_def ingest_encoder_sentence_def Let_def split: option.split prod.split)

lemma async_consistent_step: "async_consistent p \<Longrightarrow> async_consistent (process_async_line p l t)"
  by (auto simp: async_consistent_def process_async_line_def Let_def split: option.split prod.split)

lemma gun_consistent_listen: "gun_consistent p \<Longrightarrow> gun_consistent (foldl (\<lambda>p (l, t). ingest_encoder_sentence p l t) p ls)"
  by (induction ls arbitrary: p) (auto simp: gun_consistent_step)

lemma async_consistent_listen: "async_consistent p \<Longrightarrow> async_consistent (foldl (\<lambda>p (l, t). process_async_line p l t) p ls)"
  by (induction ls arbitrary: p) (auto simp: async_consistent_step)

lemma gun_consistent_init: "gun_consistent weapon_parser_init"
  by (simp add: gun_consistent_def weapon_parser_init_def pn_radians_def)

text \<open>A complete mount sentence, after any earlier stream: the azimuth rate is the
  angle moved since the last published azimuth modulo a full turn, never more than half a turn,
  over the time since the last complete sentence. If the drive status is a hexadecimal number
  the angles and the fault flag are published; if not, only the two rates are, and angles,
  fault flag and packet time keep their values.
\<close>

theorem gun_rates_and_partial_update:
  fixes ls :: "(string \<times> real) list"
  assumes p: "p = foldl (\<lambda>p (l, t). ingest_encoder_sentence p l t) weapon_parser_init ls"
    and line: "validate_checksum (py_strip line)" "sentence_fields (py_strip line) = [''$PMK45'', az, el, st]"
    and num: "py_float az = Some (Fin a)" "py_float el = Some (Fin e)"
    and prev: "last_packet_time p = Some t0" "t - t0 > 0.001" "azimuth_deg (live_weapon_state p) = Fin a0"
  defines "p' \<equiv> ingest_encoder_sentence p line t"
  shows "(\<exists>w. azimuth_rate_rads (live_weapon_state p') = Fin w \<and> \<bar>w * (t - t0)\<bar> \<le> pi
        \<and> (\<exists>k::int. w * (t - t0) = radians (a - a0) - 2 * pi * of_int k))
    \<and> (case py_int16 st of
         Some m \<Rightarrow> azimuth_deg (live_weapon_state p') = Fin a \<and> elevation_deg (live_weapon_state p') = Fin e
                   \<and> (servo_fault_active (live_weapon_state p') \<longleftrightarrow> m > 0) \<and> last_packet_time p' = Some t
       | None \<Rightarrow> azimuth_deg (live_weapon_state p') = Fin a0
                   \<and> elevation_deg (live_weapon_state p') = elevation_deg (live_weapon_state p)
                   \<and> servo_fault_active (live_weapon_state p') = servo_fault_active (live_weapon_state p)
                   \<and> last_packet_time p' = Some t0)"
proof -
  have "gun_consistent p" unfolding p by (intro gun_consistent_listen gun_consistent_init)
  then have hist: "last_azimuth_rad p = Fin (radians a0)"
    using prev(3) by (simp add: gun_consistent_def pn_radians_def radians_def field_simps)
  let ?d = "radians a - radians a0"
  let ?w = "1 / (t - t0) * (py_mod (?d + pi) (2 * pi) - pi)"
  have az: "pn_radians (Fin a) = Fin (radians a)" by (simp add: pn_radians_def radians_def)
  have rate: "azimuth_rate_rads (live_weapon_state p') = Fin ?w"
    unfolding p'_def ingest_encoder_sentence_def Let_def line
    using prev(1,2) line(1) by (auto simp: float_field_def num az hist tracking_rates_def Let_def split: option.split)
  have turn: "?w * (t - t0) = py_mod (?d + pi) (2 * pi) - pi" using prev(2) by simp
  obtain k :: int where "py_mod (?d + pi) (2 * pi) - pi = ?d - 2 * pi * of_int k" using wrap_congruent by blast
  then have k: "?w * (t - t0) = radians (a - a0) - 2 * pi * of_int k"
    unfolding turn by (simp add: radians_def left_diff_distrib diff_divide_distrib)
  have "\<bar>?w * (t - t0)\<bar> \<le> pi"
    unfolding turn using wrap_range [of pi ?d] by (simp add: abs_le_iff)
  moreover have "case py_int16 st of
         Some m \<Rightarrow> azimuth_deg (live_weapon_state p') = Fin a \<and> elevation_deg (live_weapon_state p') = Fin e
                   \<and> (servo_fault_active (live_weapon_state p') \<longleftrightarrow> m > 0) \<and> last_packet_time p' = Some t
       | None \<Rightarrow> azimuth_deg (live_weapon_state p') = Fin a0
                   \<and> elevation_deg (live_weapon_state p') = elevation_deg (live_weapon_state p)
                   \<and> servo_fault_active (live_weapon_state p') = servo_fault_active (live_weapon_state p)
                   \<and> last_packet_time p' = Some t0"
    unfolding p'_def ingest_encoder_sentence_def Let_def line
    using prev line(1) by (auto simp: float_field_def num split: option.split prod.split)
  ultimately show ?thesis using rate k by blast
qed

definition gun_sample :: "real \<Rightarrow> string" where
  "gun_sample a = nmea_sentence (csv_join [''PMK45'', fmt_fixed 2 a, fmt_fixed 2 5, ''0000''])"

lemma gun_sample_fields:
  "validate_checksum (py_strip (gun_sample a))"
  "sentence_fields (py_strip (gun_sample a)) = [''$PMK45'', fmt_fixed 2 a, fmt_fixed 2 5, ''0000'']"
proof -
  have "\<forall>f \<in> set [''PMK45'', fmt_fixed 2 a, fmt_fixed 2 5, ''0000'']. plain_field f" by (simp add: plain_intros)
  from sealed_csv [OF this] show "validate_checksum (py_strip (gun_sample a))"
    "sentence_fields (py_strip (gun_sample a)) = [''$PMK45'', fmt_fixed 2 a, fmt_fixed 2 5, ''0000'']"
    by (simp_all add: gun_sample_def)
qed

theorem gun_rates_and_partial_update_witness:
  "\<exists>w. azimuth_rate_rads (live_weapon_state (ingest_encoder_sentence
      (ingest_encoder_sentence weapon_parser_init (gun_sample 359) 0) (gun_sample 1) 1)) = Fin w \<and> \<bar>w\<bar> \<le> pi"
proof -
  let ?p = "foldl (\<lambda>p (l, t). ingest_encoder_sentence p l t) weapon_parser_init [(gun_sample 359, 0)]"
  have rd: "py_float (fmt_fixed 2 a) = Some (Fin (py_round 2 a))" if "\<bar>a\<bar> \<le> 360" for a
    by (rule py_float_fmt_fixed) (use that in simp)
  have st: "py_int16 ''0000'' = Some 0" by (simp add: py_int16_def split_sign_def py_strip_def is_space_def is_hex_def is_digit_def hex_val_def)
  have "last_packet_time ?p = Some 0" "azimuth_deg (live_weapon_state ?p) = Fin (py_round 2 359)"
    using gun_sample_fields [of 359]
    by (simp_all add: ingest_encoder_sentence_def Let_def float_field_def rd st tracking_rates_def weapon_parser_init_def)
  from gun_rates_and_partial_update [OF refl gun_sample_fields rd rd this(1) _ this(2), of 1 1]
  show ?thesis by auto
qed

text \<open>The two mount decoders do not speak the same dialect: in its default
  configuration (\<open>MK45\<close>) the asynchronous decoder keeps its initial state over any stream
  whose valid lines carry the header \<open>$PMK45\<close> that the bus decoder requires.
\<close>

theorem async_ignores_bus_dialect:
  assumes "\<forall>(l, t) \<in> set ls. validate_checksum (py_strip l) \<longrightarrow> hd (sentence_fields (py_strip l)) = ''$PMK45''"
  shows "foldl (\<lambda>p (l, t). process_async_line p l t) (async_parser_init ''MK45'' now) ls = async_parser_init ''MK45'' now"
  using assms
proof (induction ls)
  case (Cons x ls)
  have "py_upper ''MK45'' = ''MK45''" by (simp add: py_upper_def upper_char_def)
  then have "expected_prefix (async_parser_init ''MK45'' now) = ''$MK45''" by (simp add: async_parser_init_def)
  with Cons.prems have "process_async_line (async_parser_init ''MK45'' now) (fst x) (snd x) = async_parser_init ''MK45'' now"
    by (cases x) (simp add: process_async_line_def Let_def)
  with Cons show ?case by (cases x) simp
qed simp

theorem async_ignores_bus_dialect_witness:
  "process_async_line (async_parser_init ''MK45'' 0) (gun_sample 90) 1 = async_parser_init ''MK45'' 0"
  using async_ignores_bus_dialect [of "[(gun_sample 90, 1)]" 0] gun_sample_fields [of 90] by simp

section \<open>The flight telemetry bridge\<close>

definition flight_consistent :: "aviation_node \<Rightarrow> bool" where
  "flight_consistent b \<longleftrightarrow> (let f = active_flight_telemetry b in
     (case aerodynamic_crab_angle_rad f of Fin c \<Rightarrow> - pi \<le> c \<and> c \<le> pi | NaN \<Rightarrow> True | _ \<Rightarrow> False)
     \<and> (case last_fix b of None \<Rightarrow> \<not> gps_lock_valid f
        | Some (lat, lon, t) \<Rightarrow> latitude_decimal f = lat \<and> longitude_decimal f = lon \<and> last_sync_timestamp f = t))"

lemma pn_atan2_range: "case pn_atan2 y x of Fin c \<Rightarrow> - pi \<le> c \<and> c \<le> pi | NaN \<Rightarrow> True | _ \<Rightarrow> False"
  using pi_gt_zero py_atan2_range
  by (cases "(y, x)" rule: pn_atan2.cases) (auto simp: field_simps intro: order.trans [of _ 0])

lemma crab_angle_range: "case crab_angle fix lat lon t of Fin c \<Rightarrow> - pi \<le> c \<and> c \<le> pi | NaN \<Rightarrow> True | _ \<Rightarrow> False"
  using pn_atan2_range pi_gt_zero by (auto simp: crab_angle_def split: option.split prod.split)

lemma flight_consistent_step: "flight_consistent b \<Longrightarrow> flight_consistent (ingest_aerospace_sentence b l t)"
  using crab_angle_range [of "last_fix b"]
  by (auto simp: flight_consistent_def ingest_aerospace_sentence_def Let_def split: option.split)

text \<open>In every state the flight bridge can reach, the published crab angle is an
  angle between minus pi and pi (or not a number, when coordinates on the wire were), a GPS
  lock is never reported before a complete sentence, and the snapshot's position and
  time stamp are those of the one last complete sentence.
\<close>

theorem flight_snapshot_consistent:
  "flight_consistent (foldl (\<lambda>b (l, t). ingest_aerospace_sentence b l t) (aviation_init prefix now) ls)
   \<and> get_synchronized_aviation_snapshot (foldl (\<lambda>b (l, t). ingest_aerospace_sentence b l t) (aviation_init prefix now) ls)
     = active_flight_telemetry (foldl (\<lambda>b (l, t). ingest_aerospace_sentence b l t) (aviation_init prefix now) ls)"
proof -
  have "flight_consistent (foldl (\<lambda>b (l, t). ingest_aerospace_sentence b l t) b ls)" if "flight_consistent b" for b
    using that by (induction ls arbitrary: b) (auto simp: flight_consistent_step)
  moreover have "flight_consistent (aviation_init prefix now)"
    by (simp add: flight_consistent_def aviation_init_def)
  ultimately show ?thesis by (simp add: get_synchronized_aviation_snapshot_def)
qed

end
