(* ===== verification/Bridge_Router.thy ===== *)
theory Bridge_Router
  imports Serializers Nmea_Parsers
begin

unbundle bit_operations_syntax

text \<open>
  The steering gear's feedback (\<open>ActuatorTelemetryReceiverNode\<close>) with its jam timer, and the
  router (\<open>BridgeNetworkRouter\<close>) that ties the sensor parser, the feedback receiver, the
  serializers and the UDP register together. The router's telemetry cache is, after the
  first sensor line, the parser's own dictionary object: the aliasing is modelled, since the
  fault flag the router writes lands in it.
\<close>

section \<open>ActuatorTelemetryReceiverNode\<close>

record feedback_status =
  measured_rudder_deg :: pynum
  actuator_temperature_c :: pynum
  hardware_faults_active :: bool
  fault_flags :: "string list"
  linkage_tracking_jammed :: bool

record feedback_node =
  fb_prefix :: string
  consecutive_error_seconds :: real
  tracking_error_threshold_deg :: real
  max_error_time_allowed_sec :: real
  latest_status :: feedback_status

definition feedback_init :: "string \<Rightarrow> feedback_node" where
  "feedback_init manufacturer_code =
     \<lparr>fb_prefix = ''P'' @ take 4 (py_upper manufacturer_code) @ ''AK'', consecutive_error_seconds = 0,
      tracking_error_threshold_deg = 2.5, max_error_time_allowed_sec = 1.5,
      latest_status = \<lparr>measured_rudder_deg = Fin 0, actuator_temperature_c = Fin 25, hardware_faults_active = False,
        fault_flags = [], linkage_tracking_jammed = False\<rparr>\<rparr>"

definition decode_status_flags :: "string \<Rightarrow> bool \<times> string list" where
  "decode_status_flags hex_string =
     (case py_int16 hex_string of
        None \<Rightarrow> (True, [''MALFORMED_BITMASK_ERROR''])
      | Some bits \<Rightarrow>
          let faults = (if bits AND push_bit 0 1 \<noteq> 0 then [''HYDRAULIC_PRESSURE_DROP''] else [])
                     @ (if bits AND push_bit 1 1 \<noteq> 0 then [''MOTOR_CURRENT_OVERLOAD''] else [])
                     @ (if bits AND push_bit 2 1 \<noteq> 0 then [''ACTUATOR_THERMAL_CRITICAL''] else [])
                     @ (if bits AND push_bit 3 1 \<noteq> 0 then [''FEEDBACK_SENSOR_FAULT''] else [])
          in (length faults > 0, faults))"

definition add_flag :: "string \<Rightarrow> feedback_node \<Rightarrow> feedback_node" where
  "add_flag f n = (if f \<in> set (fault_flags (latest_status n)) then n
     else n\<lparr>latest_status := (latest_status n)\<lparr>fault_flags := fault_flags (latest_status n) @ [f]\<rparr>\<rparr>)"

text \<open>\<open>abs(ordered - measured) > threshold\<close>: false for \<open>nan\<close>, true for an infinity.\<close>

definition deviates :: "real \<Rightarrow> real \<Rightarrow> pynum \<Rightarrow> bool" where
  "deviates threshold ordered measured =
     (case measured of Fin m \<Rightarrow> \<bar>ordered - m\<bar> > threshold | NaN \<Rightarrow> False | _ \<Rightarrow> True)"

definition apply_feedback :: "feedback_node \<Rightarrow> pynum \<Rightarrow> string \<Rightarrow> pynum \<Rightarrow> real \<Rightarrow> real \<Rightarrow> feedback_node" where
  "apply_feedback n measured_deg status_hex temp_c ordered_rudder_deg dt =
     (let (is_faulted, active_faults) = decode_status_flags status_hex;
          deviating = deviates (tracking_error_threshold_deg n) ordered_rudder_deg measured_deg;
          seconds = (if deviating then consecutive_error_seconds n + dt else 0);
          linkage_jammed = (deviating \<and> seconds \<ge> max_error_time_allowed_sec n);
          active_faults = (if linkage_jammed then active_faults @ [''MECHANICAL_LINKAGE_JAM''] else active_faults)
      in n\<lparr>consecutive_error_seconds := seconds,
           latest_status := \<lparr>measured_rudder_deg = measured_deg, actuator_temperature_c = temp_c,
             hardware_faults_active = (is_faulted \<or> linkage_jammed), fault_flags = active_faults,
             linkage_tracking_jammed = linkage_jammed\<rparr>\<rparr>)"

text \<open>The report returned is the status cache itself.\<close>

definition process_hardware_feedback :: "feedback_node \<Rightarrow> string \<Rightarrow> real \<Rightarrow> real \<Rightarrow> feedback_node" where
  "process_hardware_feedback n raw_sentence ordered_rudder_deg dt =
     (let clean_str = py_strip raw_sentence; parts = sentence_fields clean_str in
      if \<not> validate_checksum clean_str then add_flag ''LINE_NOISE_CORRUPTION'' n
      else if drop 1 (hd parts) \<noteq> fb_prefix n then n
      else case (float_field parts 1, field parts 2, float_field parts 3) of
        (Some measured_deg, Some status_hex, Some temp_c) \<Rightarrow>
          apply_feedback n measured_deg status_hex temp_c ordered_rudder_deg dt
      | _ \<Rightarrow> add_flag ''PARSING_PAYLOAD_EXCEPTION'' n)"

section \<open>BridgeNetworkRouter\<close>

text \<open>
  \<open>own_cache\<close> is the router's dictionary of \<open>__init__\<close>, in use until the first sensor line;
  from then on (\<open>aliased\<close>) the router reads and writes the parser's dictionary.
\<close>

record router =
  r_parser :: nmea_parser
  r_serializer :: string
  r_receiver :: feedback_node
  r_udp :: udp_interface
  own_cache :: cache
  aliased :: bool
  latest_engine_commands :: num_dict
  is_active :: bool

definition router_init :: "string \<Rightarrow> router" where
  "router_init manufacturer_code =
     \<lparr>r_parser = nmea_parser_init, r_serializer = actuator_serializer_init manufacturer_code,
      r_receiver = feedback_init manufacturer_code, r_udp = udp_interface_init,
      own_cache = Map.empty, aliased = False, latest_engine_commands = Map.empty, is_active = False\<rparr>"

definition live_telemetry_cache :: "router \<Rightarrow> cache" where
  "live_telemetry_cache r = (if aliased r then telemetry_cache (r_parser r) else own_cache r)"

definition write_live :: "string \<Rightarrow> pynum \<Rightarrow> router \<Rightarrow> router" where
  "write_live k v r = (if aliased r then r\<lparr>r_parser := set_cache k v (r_parser r)\<rparr>
                       else r\<lparr>own_cache := (own_cache r)(k \<mapsto> v)\<rparr>)"

definition ingest_raw_serial_line :: "router \<Rightarrow> string \<Rightarrow> real \<Rightarrow> router" where
  "ingest_raw_serial_line r raw_nmea_string current_time =
     r\<lparr>r_parser := parse_sentence (r_parser r) raw_nmea_string current_time, aliased := True\<rparr>"

definition route_calculated_loop_outputs :: "router \<Rightarrow> engine_packet \<Rightarrow> router \<times> string \<times> string" where
  "route_calculated_loop_outputs r engine_output =
     (r\<lparr>latest_engine_commands := top engine_output,
        r_udp := update_latest_commands (r_udp r) (Some engine_output)\<rparr>,
      serialize_rudder_command (r_serializer r) ''STR'' engine_output,
      serialize_propulsion_command (r_serializer r) ''PRP'' engine_output)"

definition ingest_hardware_feedback_line :: "router \<Rightarrow> string \<Rightarrow> real \<Rightarrow> router \<times> feedback_status" where
  "ingest_hardware_feedback_line r raw_feedback_string dt =
     (let ordered_rudder = dget (latest_engine_commands r) ''command_rudder_angle_deg'' 0;
          rc = process_hardware_feedback (r_receiver r) raw_feedback_string ordered_rudder dt;
          feedback_report = latest_status rc;
          r = write_live ''rudder_deg'' (measured_rudder_deg feedback_report) (r\<lparr>r_receiver := rc\<rparr>);
          r = (if hardware_faults_active feedback_report then write_live ''hardware_fault_triggered'' (Fin 1) r else r)
      in (r, feedback_report))"

definition get_synchronized_telemetry :: "router \<Rightarrow> cache" where
  "get_synchronized_telemetry r = live_telemetry_cache r"

definition start_router_services :: "router \<Rightarrow> router" where
  "start_router_services r = (if is_active r then r else r\<lparr>is_active := True, r_udp := start_interface (r_udp r)\<rparr>)"

definition stop_router_services :: "router \<Rightarrow> router" where
  "stop_router_services r = r\<lparr>is_active := False, r_udp := stop_interface (r_udp r)\<rparr>"

text \<open>The operations of the router as steps of a transition system.\<close>

datatype router_event =
    Serial_Line string real
  | Loop_Output engine_packet
  | Feedback_Line string real
  | Start_Services
  | Stop_Services

fun router_step :: "router \<Rightarrow> router_event \<Rightarrow> router" where
  "router_step r (Serial_Line l t) = ingest_raw_serial_line r l t"
| "router_step r (Loop_Output e) = fst (route_calculated_loop_outputs r e)"
| "router_step r (Feedback_Line l dt) = fst (ingest_hardware_feedback_line r l dt)"
| "router_step r Start_Services = start_router_services r"
| "router_step r Stop_Services = stop_router_services r"

definition router_run :: "router \<Rightarrow> router_event list \<Rightarrow> router" where
  "router_run = foldl router_step"

lemma router_run_simps [simp]: "router_run r [] = r" "router_run r (es @ [e]) = router_step (router_run r es) e"
    "router_run r (e # es) = router_run (router_step r e) es"
  by (simp_all add: router_run_def)

section \<open>The status flags\<close>

lemma and_push_bit_int: "(m::int) AND push_bit k 1 \<noteq> 0 \<longleftrightarrow> bit m k"
  by (simp only: bit_iff_and_push_bit_not_eq_0)

lemma ex_less_4: "(\<exists>k < 4. P k) \<longleftrightarrow> P 0 \<or> P 1 \<or> P 2 \<or> P (3::nat)"
  by (auto simp: numeral_eq_Suc less_Suc_eq)

lemma decode_flags:
  "py_int16 h = Some m \<Longrightarrow> set (snd (decode_status_flags h)) =
     {f. \<exists>k < 4. bit m k \<and> f = [''HYDRAULIC_PRESSURE_DROP'', ''MOTOR_CURRENT_OVERLOAD'',
                                ''ACTUATOR_THERMAL_CRITICAL'', ''FEEDBACK_SENSOR_FAULT''] ! k}"
  "py_int16 h = Some m \<Longrightarrow> fst (decode_status_flags h) \<longleftrightarrow> (\<exists>k < 4. bit m k)"
  unfolding decode_status_flags_def and_push_bit_int Let_def ex_less_4 by auto

lemma decode_distinct: "distinct (snd (decode_status_flags h))" "fst (decode_status_flags h) \<longleftrightarrow> snd (decode_status_flags h) \<noteq> []"
    "''MECHANICAL_LINKAGE_JAM'' \<notin> set (snd (decode_status_flags h))"
  by (auto simp: decode_status_flags_def Let_def split: option.split)

definition status_ok :: "feedback_status \<Rightarrow> bool" where
  "status_ok s \<longleftrightarrow> distinct (fault_flags s) \<and> (hardware_faults_active s \<longrightarrow> fault_flags s \<noteq> [])
     \<and> (linkage_tracking_jammed s \<longrightarrow> hardware_faults_active s)"

lemma status_ok_add_flag: "status_ok (latest_status n) \<Longrightarrow> status_ok (latest_status (add_flag f n))"
  by (auto simp: status_ok_def add_flag_def)

lemma status_ok_apply: "status_ok (latest_status (apply_feedback n m h c ordered dt))"
  using decode_distinct [of h] by (auto simp: status_ok_def apply_feedback_def Let_def split: prod.split)

lemma status_ok_step: "status_ok (latest_status n) \<Longrightarrow> status_ok (latest_status (process_hardware_feedback n l ordered dt))"
  by (auto simp: process_hardware_feedback_def Let_def status_ok_add_flag status_ok_apply split: option.split)

text \<open>A status register read from the wire is decoded exactly: the named faults are
  those of the four low bits that are set, a fault is declared if and only if there is one,
  and text that is not hexadecimal counts as a fault. In every state the receiver can reach
  no flag is listed twice and no fault is active without a flag naming it.
\<close>

theorem status_decoding_exact:
  "(case py_int16 h of
      None \<Rightarrow> decode_status_flags h = (True, [''MALFORMED_BITMASK_ERROR''])
    | Some m \<Rightarrow> set (snd (decode_status_flags h)) =
        {f. \<exists>k < 4. bit m k \<and> f = [''HYDRAULIC_PRESSURE_DROP'', ''MOTOR_CURRENT_OVERLOAD'',
                                   ''ACTUATOR_THERMAL_CRITICAL'', ''FEEDBACK_SENSOR_FAULT''] ! k}
      \<and> (fst (decode_status_flags h) \<longleftrightarrow> (\<exists>k < 4. bit m k)))
   \<and> status_ok (latest_status (foldl (\<lambda>n (l, ordered, dt). process_hardware_feedback n l ordered dt) (feedback_init code) ls))"
proof (intro conjI)
  have "status_ok (latest_status (foldl (\<lambda>n (l, ordered, dt). process_hardware_feedback n l ordered dt) n ls))"
    if "status_ok (latest_status n)" for n
    using that by (induction ls arbitrary: n) (auto simp: status_ok_step)
  then show "status_ok (latest_status (foldl (\<lambda>n (l, ordered, dt). process_hardware_feedback n l ordered dt) (feedback_init code) ls))"
    by (simp add: status_ok_def feedback_init_def)
qed (use decode_flags in \<open>auto simp: decode_status_flags_def split: option.split\<close>)

section \<open>The jam timer\<close>

text \<open>One accepted reading: measured angle, status field, temperature, ordered angle, elapsed time.\<close>

type_synonym reading = "pynum \<times> string \<times> pynum \<times> real \<times> real"

fun absorb :: "feedback_node \<Rightarrow> reading \<Rightarrow> feedback_node" where
  "absorb n (m, h, c, ordered, dt) = apply_feedback n m h c ordered dt"

fun off_course :: "reading \<Rightarrow> bool" where
  "off_course (m, h, c, ordered, dt) \<longleftrightarrow> deviates 2.5 ordered m"

fun elapsed :: "reading \<Rightarrow> real" where
  "elapsed (m, h, c, ordered, dt) = dt"

definition jam_now :: "feedback_node \<Rightarrow> pynum \<Rightarrow> real \<Rightarrow> real \<Rightarrow> bool" where
  "jam_now n m ordered dt \<longleftrightarrow> deviates (tracking_error_threshold_deg n) ordered m
     \<and> max_error_time_allowed_sec n \<le> consecutive_error_seconds n + dt"

lemma apply_feedback_fields:
  "tracking_error_threshold_deg (apply_feedback n m h c ordered dt) = tracking_error_threshold_deg n"
    "max_error_time_allowed_sec (apply_feedback n m h c ordered dt) = max_error_time_allowed_sec n"
    "consecutive_error_seconds (apply_feedback n m h c ordered dt) =
       (if deviates (tracking_error_threshold_deg n) ordered m then consecutive_error_seconds n + dt else 0)"
    "linkage_tracking_jammed (latest_status (apply_feedback n m h c ordered dt)) = jam_now n m ordered dt"
    "fault_flags (latest_status (apply_feedback n m h c ordered dt)) =
       snd (decode_status_flags h) @ (if jam_now n m ordered dt then [''MECHANICAL_LINKAGE_JAM''] else [])"
    "hardware_faults_active (latest_status (apply_feedback n m h c ordered dt)) \<longleftrightarrow> fst (decode_status_flags h) \<or> jam_now n m ordered dt"
  unfolding apply_feedback_def jam_now_def Let_def split_beta by simp_all

lemma absorb_step:
  "tracking_error_threshold_deg (absorb n r) = tracking_error_threshold_deg n"
  "max_error_time_allowed_sec (absorb n r) = max_error_time_allowed_sec n"
  "tracking_error_threshold_deg n = 2.5 \<Longrightarrow>
     consecutive_error_seconds (absorb n r) = (if off_course r then consecutive_error_seconds n + elapsed r else 0)"
  by (cases r; simp only: absorb.simps off_course.simps elapsed.simps apply_feedback_fields)+

lemma absorb_limits:
  "tracking_error_threshold_deg (foldl absorb (feedback_init code) rs) = 2.5"
  "max_error_time_allowed_sec (foldl absorb (feedback_init code) rs) = 1.5"
  by (induction rs rule: rev_induct) (simp_all add: absorb_step feedback_init_def)

lemma absorb_seconds:
  "consecutive_error_seconds (foldl absorb (feedback_init code) rs) = sum_list (map elapsed (takeWhile off_course (rev rs)))"
proof (induction rs rule: rev_induct)
  case (snoc r rs)
  then show ?case by (simp add: absorb_step(3) [OF absorb_limits(1)])
qed (simp add: feedback_init_def)

lemma absorb_jam:
  assumes "tracking_error_threshold_deg n = 2.5" "max_error_time_allowed_sec n = 1.5"
  shows "linkage_tracking_jammed (latest_status (absorb n r)) \<longleftrightarrow> off_course r \<and> 1.5 \<le> consecutive_error_seconds n + elapsed r"
  by (cases r) (simp only: absorb.simps off_course.simps elapsed.simps apply_feedback_fields jam_now_def assms)

lemma absorb_flags:
  "''MECHANICAL_LINKAGE_JAM'' \<in> set (fault_flags (latest_status (absorb n r))) \<longleftrightarrow> linkage_tracking_jammed (latest_status (absorb n r))"
  "linkage_tracking_jammed (latest_status (absorb n r)) \<longrightarrow> hardware_faults_active (latest_status (absorb n r))"
  by (cases r; simp add: apply_feedback_fields decode_distinct(3))+



section \<open>The router's fault flag\<close>

abbreviation trigger :: "cache \<Rightarrow> bool" where
  "trigger c \<equiv> c ''hardware_fault_triggered'' = Some (Fin 1)"

fun is_serial :: "router_event \<Rightarrow> bool" where
  "is_serial (Serial_Line l t) = True"
| "is_serial e = False"

fun reports_fault :: "router \<Rightarrow> router_event \<Rightarrow> bool" where
  "reports_fault r (Feedback_Line l dt) = hardware_faults_active (snd (ingest_hardware_feedback_line r l dt))"
| "reports_fault r e = False"

lemma set_cache_other [simp]: "k \<noteq> k' \<Longrightarrow> telemetry_cache (set_cache k v p) k' = telemetry_cache p k'"
  by (simp add: set_cache_def)

lemma heading_update_other: "k \<noteq> ''yaw_rate_rads'' \<Longrightarrow> telemetry_cache (heading_update p d t) k = telemetry_cache p k"
  by (auto simp: heading_update_def Let_def split: option.split)

lemma parse_fields_cases:
  "parse_fields p parts t = Some p' \<Longrightarrow>
     p' = p \<or> (\<exists>d. p' = heading_update p d t) \<or> (\<exists>k d. k \<in> {''depth'', ''speed_ms''} \<and> p' = set_cache k d p)"
  by (auto simp: parse_fields_def Let_def split: if_splits option.splits)

lemma parse_keeps_trigger:
  "telemetry_cache (parse_sentence p l t) ''hardware_fault_triggered'' = telemetry_cache p ''hardware_fault_triggered''"
proof (cases "validate_checksum (py_strip l)")
  case True
  then show ?thesis
    using parse_fields_cases [of p "sentence_fields (py_strip l)" t]
    by (cases "parse_fields p (sentence_fields (py_strip l)) t")
       (auto simp: parse_sentence_def Let_def heading_update_other)
qed (simp add: parse_sentence_def Let_def)

lemma aliased_step: "aliased (router_step r e) \<longleftrightarrow> aliased r \<or> is_serial e"
  by (cases e) (auto simp: ingest_raw_serial_line_def route_calculated_loop_outputs_def ingest_hardware_feedback_line_def
      write_live_def start_router_services_def stop_router_services_def Let_def)

lemma aliased_run: "aliased (router_run r es) \<longleftrightarrow> aliased r \<or> (\<exists>e \<in> set es. is_serial e)"
  by (induction es arbitrary: r) (auto simp: aliased_step)

lemma parser_trigger_step:
  "trigger (telemetry_cache (r_parser (router_step r e))) \<longleftrightarrow>
     trigger (telemetry_cache (r_parser r)) \<or> aliased r \<and> reports_fault r e"
  by (cases e) (auto simp: ingest_raw_serial_line_def route_calculated_loop_outputs_def ingest_hardware_feedback_line_def
      write_live_def start_router_services_def stop_router_services_def parse_keeps_trigger set_cache_def Let_def)

lemma own_trigger_step:
  "trigger (own_cache (router_step r e)) \<longleftrightarrow> trigger (own_cache r) \<or> \<not> aliased r \<and> reports_fault r e"
  by (cases e) (auto simp: ingest_raw_serial_line_def route_calculated_loop_outputs_def ingest_hardware_feedback_line_def
      write_live_def start_router_services_def stop_router_services_def set_cache_def Let_def)

text \<open>The histories in which a fault was reported before (after) the first sensor line.\<close>

definition fault_seen :: "bool \<Rightarrow> router \<Rightarrow> router_event list \<Rightarrow> bool" where
  "fault_seen late r es \<longleftrightarrow> (\<exists>k < length es. aliased (router_run r (take k es)) = late \<and> reports_fault (router_run r (take k es)) (es ! k))"

lemma ex_less_snoc:
  "(\<exists>k < length (es @ [e]). P (take k (es @ [e])) ((es @ [e]) ! k)) \<longleftrightarrow> (\<exists>k < length es. P (take k es) (es ! k)) \<or> P es e"
proof -
  have "(\<exists>k < length (es @ [e]). Q k) \<longleftrightarrow> (\<exists>k < length es. Q k) \<or> Q (length es)" for Q
    by (auto simp: less_Suc_eq)
  then show ?thesis by (auto simp: nth_append)
qed

lemma fault_seen_snoc:
  "fault_seen late r (es @ [e]) \<longleftrightarrow> fault_seen late r es \<or> aliased (router_run r es) = late \<and> reports_fault (router_run r es) e"
  unfolding fault_seen_def by (rule ex_less_snoc [where P = "\<lambda>xs e. aliased (router_run r xs) = late \<and> reports_fault (router_run r xs) e"])

lemma trigger_run:
  "trigger (telemetry_cache (r_parser (router_run r es))) \<longleftrightarrow> trigger (telemetry_cache (r_parser r)) \<or> fault_seen True r es"
  "trigger (own_cache (router_run r es)) \<longleftrightarrow> trigger (own_cache r) \<or> fault_seen False r es"
proof (induction es rule: rev_induct)
  case (snoc e es)
  { case 1 show ?case using snoc by (auto simp: fault_seen_snoc parser_trigger_step) }
  { case 2 show ?case using snoc by (auto simp: fault_seen_snoc own_trigger_step) }
qed (simp_all add: fault_seen_def)

text \<open>The fault flag of the synchronized telemetry is a latch over the parser's
  dictionary: once sensor lines arrive it is set exactly if a faulty feedback report came
  after the first of them, whatever else happened since, and nothing clears it. A fault
  reported before the first sensor line is shown only until that line, which rebinds the
  router's cache to the parser's dictionary and so loses it.
\<close>

theorem router_fault_flag:
  "trigger (get_synchronized_telemetry (router_run (router_init code) es)) \<longleftrightarrow>
     fault_seen (\<exists>e \<in> set es. is_serial e) (router_init code) es"
proof -
  let ?r = "router_run (router_init code) es"
  have "\<not> trigger (telemetry_cache (r_parser (router_init code)))" "\<not> trigger (own_cache (router_init code))" "\<not> aliased (router_init code)"
    by (simp_all add: router_init_def nmea_parser_init_def)
  then show ?thesis
    using trigger_run [of "router_init code" es] aliased_run [of "router_init code" es]
    by (auto simp: get_synchronized_telemetry_def live_telemetry_cache_def)
qed

text \<open>Stopping the router services is final for the actuator datagrams: in no
  continuation does the transmit loop send again, not even after the services are started
  once more, because the socket was closed and is never reopened. While the services run
  undisturbed, each round sends one accepted sentence with the last routed command.
\<close>

theorem udp_silent_after_stop:
  "udp_tx_round (r_udp (router_run (router_step r Stop_Services) es)) = []
   \<and> (\<not> is_active r0 \<and> sock_open (r_udp r0) \<longrightarrow>
      (\<exists>wire. udp_tx_round (r_udp (router_run r0 [Start_Services, Loop_Output out])) = [wire] \<and> validate_checksum (py_strip wire)))"
proof (intro conjI impI)
  have "\<not> sock_open (r_udp (router_run q es))" if "\<not> sock_open (r_udp q)" for q
    using that
  proof (induction es arbitrary: q)
    case (Cons e es)
    have "\<not> sock_open (r_udp (router_step q e))"
      using Cons.prems
      by (cases e) (auto simp: ingest_raw_serial_line_def route_calculated_loop_outputs_def ingest_hardware_feedback_line_def
          write_live_def start_router_services_def stop_router_services_def start_interface_def stop_interface_def
          update_latest_commands_def Let_def)
    then show ?case using Cons.IH by simp
  qed simp
  then have "\<not> sock_open (r_udp (router_run (router_step r Stop_Services) es))"
    by (simp add: stop_router_services_def stop_interface_def)
  then show "udp_tx_round (r_udp (router_run (router_step r Stop_Services) es)) = []"
    by (auto simp: udp_tx_round_def split: option.split)
next
  assume "\<not> is_active r0 \<and> sock_open (r_udp r0)"
  moreover have "validate_checksum (py_strip (serialize_to_actuator_sentence (top out)))"
    unfolding serialize_to_actuator_sentence_def Let_def
    by (rule sealed_csv) (simp add: plain_intros)
  ultimately show "\<exists>wire. udp_tx_round (r_udp (router_run r0 [Start_Services, Loop_Output out])) = [wire] \<and> validate_checksum (py_strip wire)"
    by (simp add: udp_tx_round_def start_router_services_def start_interface_def route_calculated_loop_outputs_def update_latest_commands_def)
qed

theorem udp_silent_after_stop_witness:
  "\<exists>wire. udp_tx_round (r_udp (router_run (router_init ''UNVC'') [Start_Services, Loop_Output \<lparr>top = Map.empty, insight_link = Map.empty\<rparr>]))
     = [wire] \<and> validate_checksum (py_strip wire)"
  using udp_silent_after_stop [of "router_init ''UNVC''" "[]" "router_init ''UNVC''" "\<lparr>top = Map.empty, insight_link = Map.empty\<rparr>"]
  by (simp add: router_init_def udp_interface_init_def)

end
