(* ===== verification/Watchdogs.thy ===== *)
theory Watchdogs
  imports Py_Text
begin

text \<open>
  The two supervisors: \<open>AsynchronousHardwareWatchdog\<close> over the heartbeats of the bridge's
  threads and \<open>MultiLedgerHardwareWatchdog\<close> over the write activity of the audit ledgers.
  Their dictionaries keep insertion order and are association lists. The list of tripped
  subsystems is handed out by reference in the diagnostics and cleared in place by the next
  healthy check, so it lives in a store of lists and is named by its address. Every method
  runs under the object's lock or is one iteration of the monitor thread: histories are
  sequences of events, each with its clock reading.
\<close>

section \<open>Registers that only known keys enter\<close>

definition touch :: "'k \<Rightarrow> 'v \<Rightarrow> ('k \<times> 'v) list \<Rightarrow> ('k \<times> 'v) list" where
  "touch k v xs = map (\<lambda>(k', v'). if k' = k then (k', v) else (k', v')) xs"

lemma touch_keys [simp]: "map fst (touch k v xs) = map fst xs"
  by (induction xs) (auto simp: touch_def)

lemma touch_map_of: "map_of (touch k v xs) k' = (if k' = k \<and> map_of xs k \<noteq> None then Some v else map_of xs k')"
  by (induction xs) (auto simp: touch_def)

lemma register_determined:
  assumes "map fst xs = ks" "distinct ks" "\<And>k. k \<in> set ks \<Longrightarrow> map_of xs k = Some (f k)"
  shows "xs = map (\<lambda>k. (k, f k)) ks"
  using assms
proof (induction xs arbitrary: ks)
  case (Cons x xs)
  then obtain k ks' where ks: "ks = k # ks'" "fst x = k" "map fst xs = ks'" by auto
  have "map_of xs k' = Some (f k')" if "k' \<in> set ks'" for k'
    using Cons.prems(2) Cons.prems(3) [of k'] that ks by (auto split: if_splits)
  with Cons.IH [of ks'] Cons.prems(2) ks have "xs = map (\<lambda>k. (k, f k)) ks'" by auto
  moreover have "snd x = f k" using Cons.prems(3) [of k] ks by (cases x) auto
  ultimately show ?case using ks by (cases x) auto
qed simp

locale known_register =
  fixes put :: "'s \<Rightarrow> 'e \<Rightarrow> 's" and get :: "'s \<Rightarrow> string \<Rightarrow> 'v option"
    and key :: "'e \<Rightarrow> string" and val :: "'e \<Rightarrow> 'v"
  assumes get_put: "get (put s e) k = (if k = key e \<and> get s k \<noteq> None then Some (val e) else get s k)"
begin

lemma get_puts:
  "get (foldl put s es) k = (case filter (\<lambda>e. key e = k) (rev es) of [] \<Rightarrow> get s k
      | e # _ \<Rightarrow> if get s k = None then None else Some (val e))"
  by (induction es rule: rev_induct) (auto simp: get_put split: list.split if_splits)

lemma unknown_stay_out: "get s k = None \<Longrightarrow> get (foldl put s es) k = None"
  by (auto simp: get_puts split: list.split)

end

section \<open>AsynchronousHardwareWatchdog\<close>

record thread_watchdog =
  timeout :: real
  is_monitoring :: bool
  thread_heartbeats :: "(string \<times> real) list"
  system_faulted :: bool
  tripped_subsystems :: nat
  lists :: "string list list"

definition thread_names :: "string list" where
  "thread_names = [''NMEA_SERIAL_IN'', ''WEAPON_BUS_IN'', ''TCP_COMMAND_IN'', ''MAIN_CORE_MATH'']"

definition watchdog_init :: "real \<Rightarrow> real \<Rightarrow> thread_watchdog" where
  "watchdog_init critical_timeout_sec now =
     \<lparr>timeout = critical_timeout_sec, is_monitoring = False, thread_heartbeats = map (\<lambda>n. (n, now)) thread_names,
      system_faulted = False, tripped_subsystems = 0, lists = [[]]\<rparr>"

definition poke_watchdog :: "thread_watchdog \<Rightarrow> string \<times> real \<Rightarrow> thread_watchdog" where
  "poke_watchdog w e = w\<lparr>thread_heartbeats := touch (fst e) (snd e) (thread_heartbeats w)\<rparr>"

text \<open>One turn of the monitor loop.\<close>

definition monitor_check :: "thread_watchdog \<Rightarrow> real \<Rightarrow> thread_watchdog" where
  "monitor_check w current_time =
     (let local_faults = map fst (filter (\<lambda>(n, last_heartbeat). current_time - last_heartbeat > timeout w) (thread_heartbeats w))
      in if \<not> is_monitoring w then w
         else if local_faults \<noteq> []
         then w\<lparr>system_faulted := True, tripped_subsystems := length (lists w), lists := lists w @ [local_faults]\<rparr>
         else w\<lparr>system_faulted := False, lists := (lists w)[tripped_subsystems w := []]\<rparr>)"

text \<open>The diagnostics: the delay entries, the fault flag and the address of the tripped list.\<close>

definition get_watchdog_diagnostics :: "thread_watchdog \<Rightarrow> real \<Rightarrow> (string \<times> real) list \<times> bool \<times> nat" where
  "get_watchdog_diagnostics w current_time =
     (map (\<lambda>(n, last_hb). (''delay_'' @ py_lower n @ ''_sec'', py_round 3 (current_time - last_hb))) (thread_heartbeats w),
      system_faulted w, tripped_subsystems w)"

definition start_watchdog :: "thread_watchdog \<Rightarrow> real \<Rightarrow> thread_watchdog" where
  "start_watchdog w boot_now = (if is_monitoring w then w
     else w\<lparr>is_monitoring := True, thread_heartbeats := map (\<lambda>(k, _). (k, boot_now)) (thread_heartbeats w)\<rparr>)"

definition stop_watchdog :: "thread_watchdog \<Rightarrow> thread_watchdog" where
  "stop_watchdog w = w\<lparr>is_monitoring := False\<rparr>"

interpretation threads: known_register poke_watchdog "\<lambda>w. map_of (thread_heartbeats w)" fst snd
  by unfold_locales (auto simp: poke_watchdog_def touch_map_of)

text \<open>
  A supervised run: pokes and checks after the start, in any order.
\<close>

datatype watch_event = Poke string real | Check real

fun watch_step :: "thread_watchdog \<Rightarrow> watch_event \<Rightarrow> thread_watchdog" where
  "watch_step w (Poke n t) = poke_watchdog w (n, t)"
| "watch_step w (Check t) = monitor_check w t"

definition watch_run :: "thread_watchdog \<Rightarrow> watch_event list \<Rightarrow> thread_watchdog" where
  "watch_run = foldl watch_step"

fun pokes :: "watch_event list \<Rightarrow> (string \<times> real) list" where
  "pokes [] = []"
| "pokes (Poke n t # es) = (n, t) # pokes es"
| "pokes (Check t # es) = pokes es"

lemma pokes_append [simp]: "pokes (es @ fs) = pokes es @ pokes fs"
  by (induction es rule: pokes.induct) auto

lemma check_frame [simp]:
  "thread_heartbeats (monitor_check w t) = thread_heartbeats w" "timeout (monitor_check w t) = timeout w"
  "is_monitoring (monitor_check w t) = is_monitoring w"
  by (simp_all add: monitor_check_def Let_def)

lemma poke_frame [simp]:
  "timeout (poke_watchdog w e) = timeout w" "is_monitoring (poke_watchdog w e) = is_monitoring w"
  "map fst (thread_heartbeats (poke_watchdog w e)) = map fst (thread_heartbeats w)"
  by (simp_all add: poke_watchdog_def)

lemma watch_run_frame:
  "timeout (watch_run w es) = timeout w" "is_monitoring (watch_run w es) = is_monitoring w"
  "map fst (thread_heartbeats (watch_run w es)) = map fst (thread_heartbeats w)"
  "thread_heartbeats (watch_run w es) = thread_heartbeats (foldl poke_watchdog w (pokes es))"
proof (induction es rule: rev_induct)
  case (snoc e es)
  { case 1 show ?case using snoc by (cases e) (auto simp: watch_run_def) }
  { case 2 show ?case using snoc by (cases e) (auto simp: watch_run_def) }
  { case 3 show ?case using snoc by (cases e) (auto simp: watch_run_def) }
  { case 4 show ?case using snoc by (cases e) (auto simp: watch_run_def poke_watchdog_def) }
qed (simp_all add: watch_run_def)

text \<open>The last heartbeat a thread has given since the start at \<open>t0\<close>.\<close>

definition last_beat :: "real \<Rightarrow> watch_event list \<Rightarrow> string \<Rightarrow> real" where
  "last_beat t0 es n = (case filter (\<lambda>e. fst e = n) (rev (pokes es)) of [] \<Rightarrow> t0 | e # _ \<Rightarrow> snd e)"

definition started :: "real \<Rightarrow> real \<Rightarrow> thread_watchdog" where
  "started limit t0 = start_watchdog (watchdog_init limit t0) t0"

lemma distinct_thread_names: "distinct thread_names"
  by (simp add: thread_names_def)

lemma started_beats: "thread_heartbeats (started limit t0) = map (\<lambda>n. (n, t0)) thread_names"
  by (simp add: started_def start_watchdog_def watchdog_init_def thread_names_def)

lemma beats_run: "thread_heartbeats (watch_run (started limit t0) es) = map (\<lambda>n. (n, last_beat t0 es n)) thread_names"
proof (rule register_determined)
  show "map fst (thread_heartbeats (watch_run (started limit t0) es)) = thread_names"
    by (simp add: watch_run_frame(3) started_beats comp_def)
  show "map_of (thread_heartbeats (watch_run (started limit t0) es)) n = Some (last_beat t0 es n)" if "n \<in> set thread_names" for n
    unfolding watch_run_frame(4) threads.get_puts
    using that by (auto simp: started_beats last_beat_def map_of_map_restrict restrict_map_def split: list.split)
qed (rule distinct_thread_names)

text \<open>The verdict of every check is exact: after any interleaving of heartbeats and
  earlier checks, a check at time \<open>t\<close> reports a fault if and only if some supervised thread's
  last heartbeat (or the start, if it gave none) is older than the timeout, and the tripped
  list names exactly those threads, in the register's order; heartbeats of unknown names
  change nothing.
\<close>

theorem watchdog_verdict_exact:
  "let w = monitor_check (watch_run (started limit t0) es) t;
       late = filter (\<lambda>n. t - last_beat t0 es n > limit) thread_names
   in (system_faulted w \<longleftrightarrow> late \<noteq> []) \<and> lists w ! tripped_subsystems w = late"
proof -
  have addr: "tripped_subsystems (watch_run w es) < length (lists (watch_run w es))" if "tripped_subsystems w < length (lists w)" for w
    using that
  proof (induction es rule: rev_induct)
    case (snoc e es)
    then show ?case by (cases e) (auto simp: watch_run_def monitor_check_def poke_watchdog_def Let_def)
  qed (simp add: watch_run_def)
  have st: "tripped_subsystems (started limit t0) < length (lists (started limit t0))" "timeout (started limit t0) = limit"
      "is_monitoring (started limit t0)"
    by (simp_all add: started_def start_watchdog_def watchdog_init_def)
  have late: "map fst (filter (\<lambda>(n, h). t - h > limit) (thread_heartbeats (watch_run (started limit t0) es))) =
      filter (\<lambda>n. t - last_beat t0 es n > limit) thread_names"
    by (simp add: beats_run filter_map comp_def)
  show ?thesis
    using addr [OF st(1)] by (simp add: monitor_check_def late watch_run_frame(1,2) st(2,3) Let_def)
qed

text \<open>A diagnostics report does not keep what it saw: the tripped list is handed out
  by reference, so once a later check is healthy, the list inside an earlier faulty report
  is empty, while the report's own fault flag still says true.
\<close>

theorem diagnostics_list_cleared:
  assumes "is_monitoring w" and "\<forall>x \<in> set (thread_heartbeats w). t' - snd x \<le> timeout w"
    and "tripped_subsystems w < length (lists w)"
    and "get_watchdog_diagnostics w t = (delays, flag, addr)"
  shows "lists (monitor_check w t') ! addr = [] \<and> \<not> system_faulted (monitor_check w t')"
  using assms by (auto simp: monitor_check_def get_watchdog_diagnostics_def Let_def filter_empty_conv)

section \<open>MultiLedgerHardwareWatchdog\<close>

record ledger_watchdog =
  l_timeout :: real
  l_monitoring :: bool
  ledger_heartbeats :: "(string \<times> real) list"
  ledger_queue_depths :: "(string \<times> nat) list"
  l_faulted :: bool
  tripped_ledgers :: nat
  l_lists :: "string list list"

definition ledger_names :: "string list" where
  "ledger_names = [''FLAG_HALYARD_AUDIT'', ''MARPOL_BILGE_AUDIT'', ''MISSION_TELEMETRY'']"

definition ledger_watchdog_init :: "real \<Rightarrow> real \<Rightarrow> ledger_watchdog" where
  "ledger_watchdog_init write_timeout_sec now =
     \<lparr>l_timeout = write_timeout_sec, l_monitoring = False, ledger_heartbeats = map (\<lambda>n. (n, now)) ledger_names,
      ledger_queue_depths = map (\<lambda>n. (n, 0)) ledger_names, l_faulted = False, tripped_ledgers = 0, l_lists = [[]]\<rparr>"

text \<open>A write report: ledger name, queue size and clock.\<close>

definition log_write_success :: "ledger_watchdog \<Rightarrow> string \<times> nat \<times> real \<Rightarrow> ledger_watchdog" where
  "log_write_success w e =
     (let (ledger_name, active_queue_size, now) = e; sanitized_name = py_strip (py_upper ledger_name)
      in w\<lparr>ledger_heartbeats := touch sanitized_name now (ledger_heartbeats w),
           ledger_queue_depths := (if map_of (ledger_heartbeats w) sanitized_name = None then ledger_queue_depths w
              else touch sanitized_name active_queue_size (ledger_queue_depths w))\<rparr>)"

definition ledger_late :: "ledger_watchdog \<Rightarrow> real \<Rightarrow> string \<times> real \<Rightarrow> bool" where
  "ledger_late w current_time x =
     (let time_delta = current_time - snd x; queue_depth = dget (map_of (ledger_queue_depths w)) (fst x) 0
      in time_delta > l_timeout w \<and> queue_depth > 0 \<or> queue_depth > 500)"

definition integrity_check :: "ledger_watchdog \<Rightarrow> real \<Rightarrow> ledger_watchdog" where
  "integrity_check w current_time =
     (let local_faults = map fst (filter (ledger_late w current_time) (ledger_heartbeats w))
      in if \<not> l_monitoring w then w
         else if local_faults \<noteq> []
         then w\<lparr>l_faulted := True, tripped_ledgers := length (l_lists w), l_lists := l_lists w @ [local_faults]\<rparr>
         else w\<lparr>l_faulted := False, l_lists := (l_lists w)[tripped_ledgers w := []]\<rparr>)"

definition get_ledger_diagnostics :: "ledger_watchdog \<Rightarrow> real \<Rightarrow> (string \<times> real \<times> nat) list \<times> bool \<times> nat" where
  "get_ledger_diagnostics w current_time =
     (map (\<lambda>(n, last_write). (py_lower n, py_round 3 (current_time - last_write), dget (map_of (ledger_queue_depths w)) n 0))
        (ledger_heartbeats w), l_faulted w, tripped_ledgers w)"

definition start_ledger_watchdog :: "ledger_watchdog \<Rightarrow> real \<Rightarrow> ledger_watchdog" where
  "start_ledger_watchdog w boot_now = (if l_monitoring w then w
     else w\<lparr>l_monitoring := True, ledger_heartbeats := map (\<lambda>(k, _). (k, boot_now)) (ledger_heartbeats w),
            ledger_queue_depths := map (\<lambda>(k, _). (k, 0)) (ledger_queue_depths w)\<rparr>)"

definition stop_ledger_watchdog :: "ledger_watchdog \<Rightarrow> ledger_watchdog" where
  "stop_ledger_watchdog w = w\<lparr>l_monitoring := False\<rparr>"

text \<open>What the supervisor knows of a ledger: the time of its last write and its queue then.\<close>

definition ledger_entry :: "ledger_watchdog \<Rightarrow> string \<Rightarrow> (real \<times> nat) option" where
  "ledger_entry w n = (case (map_of (ledger_heartbeats w) n, map_of (ledger_queue_depths w) n) of
     (Some t, Some q) \<Rightarrow> Some (t, q) | _ \<Rightarrow> None)"

interpretation ledgers: known_register log_write_success ledger_entry
  "\<lambda>e. py_strip (py_upper (fst e))" "\<lambda>e. (snd (snd e), fst (snd e))"
  by unfold_locales
     (auto simp: log_write_success_def ledger_entry_def touch_map_of Let_def split_beta split: option.split)

text \<open>The ledger check's verdict is exact and depends on each ledger's last write
  report only: after any write reports following a start, a check trips exactly the ledgers
  whose last reported queue was above 500, or was not empty with no report since for longer
  than the timeout. A ledger that has never reported is never tripped, however long it
  has been silent.
\<close>

theorem ledger_verdict_exact:
  fixes ws :: "(string \<times> nat \<times> real) list" and t0 limit t :: real
  defines "report \<equiv> \<lambda>n. (case filter (\<lambda>e. py_strip (py_upper (fst e)) = n) (rev ws) of
       [] \<Rightarrow> (t0, 0) | e # _ \<Rightarrow> (snd (snd e), fst (snd e)))"
  shows "let w = integrity_check (foldl log_write_success (start_ledger_watchdog (ledger_watchdog_init limit t0) t0) ws) t;
       late = filter (\<lambda>n. t - fst (report n) > limit \<and> snd (report n) > 0 \<or> snd (report n) > 500) ledger_names
   in (l_faulted w \<longleftrightarrow> late \<noteq> []) \<and> l_lists w ! tripped_ledgers w = late"
proof -
  let ?s = "start_ledger_watchdog (ledger_watchdog_init limit t0) t0"
  let ?w = "foldl log_write_success ?s ws"
  have frame: "l_timeout (foldl log_write_success w ws) = l_timeout w" "l_monitoring (foldl log_write_success w ws) = l_monitoring w"
    "tripped_ledgers (foldl log_write_success w ws) = tripped_ledgers w" "l_lists (foldl log_write_success w ws) = l_lists w"
    "map fst (ledger_heartbeats (foldl log_write_success w ws)) = map fst (ledger_heartbeats w)"
    for w by (induction ws arbitrary: w) (auto simp: log_write_success_def Let_def)
  have s: "l_timeout ?s = limit" "l_monitoring ?s" "tripped_ledgers ?s = 0" "l_lists ?s = [[]]"
      "ledger_heartbeats ?s = map (\<lambda>n. (n, t0)) ledger_names" "ledger_queue_depths ?s = map (\<lambda>n. (n, 0)) ledger_names"
    by (simp_all add: start_ledger_watchdog_def ledger_watchdog_init_def)
  have entry: "ledger_entry ?w n = Some (report n)" if "n \<in> set ledger_names" for n
    unfolding ledgers.get_puts report_def
    using that by (auto simp: ledger_entry_def s map_of_map_restrict restrict_map_def split: list.split)
  have beats: "ledger_heartbeats ?w = map (\<lambda>n. (n, fst (report n))) ledger_names"
  proof (rule register_determined)
    show "map fst (ledger_heartbeats ?w) = ledger_names" by (simp add: frame s comp_def)
    show "distinct ledger_names" by (simp add: ledger_names_def)
    show "map_of (ledger_heartbeats ?w) n = Some (fst (report n))" if "n \<in> set ledger_names" for n
      using entry [OF that] by (cases "report n") (auto simp: ledger_entry_def split: option.splits)
  qed
  have "dget (map_of (ledger_queue_depths ?w)) n 0 = snd (report n)" if "n \<in> set ledger_names" for n
    using entry [OF that] by (cases "report n") (auto simp: ledger_entry_def dget_def split: option.splits)
  then have "map fst (filter (ledger_late ?w t) (ledger_heartbeats ?w)) =
      filter (\<lambda>n. t - fst (report n) > limit \<and> snd (report n) > 0 \<or> snd (report n) > 500) ledger_names"
    by (simp add: beats filter_map comp_def ledger_late_def frame s Let_def cong: filter_cong)
  then show ?thesis by (simp add: integrity_check_def frame s Let_def)
qed

theorem diagnostics_list_cleared_witness:
  "let w = monitor_check (started 1 0) 2; (delays, flag, addr) = get_watchdog_diagnostics w 2
   in flag \<and> lists w ! addr \<noteq> [] \<and> lists (monitor_check (w\<lparr>thread_heartbeats := [(''MAIN_CORE_MATH'', 2)]\<rparr>) 2) ! addr = []"
proof -
  let ?w = "monitor_check (started 1 0) 2"
  let ?v = "?w\<lparr>thread_heartbeats := [(''MAIN_CORE_MATH'', 2)]\<rparr>"
  have w: "?w = (started 1 0)\<lparr>system_faulted := True, tripped_subsystems := 1, lists := [[], thread_names]\<rparr>"
    by (simp add: monitor_check_def started_def start_watchdog_def watchdog_init_def thread_names_def)
  then have "lists (monitor_check ?v 2) ! tripped_subsystems ?v = []"
    using diagnostics_list_cleared [of ?v 2 2 "fst (get_watchdog_diagnostics ?v 2)" True "tripped_subsystems ?v"]
    by (simp add: get_watchdog_diagnostics_def started_def start_watchdog_def watchdog_init_def)
  then show ?thesis using w by (simp add: get_watchdog_diagnostics_def thread_names_def)
qed

end
