(* ===== verification/Audit_Ledger.thy ===== *)
theory Audit_Ledger
  imports Py_Text "HOL-Library.List_Lexorder" "HOL-Library.Char_ord"
begin

text \<open>
  The audit trail: the asynchronous loggers that write hash-chained CSV ledgers
  (\<open>FlagHalyardFaultLogger\<close>, \<open>BilgeEnvironmentalAuditLogger\<close>), the unchained mission logger
  (\<open>AutomatedMissionDataLogger\<close>), and the boot verifier that recomputes the chain
  (\<open>AutomatedBootVerificationSuite\<close>).

  Parameters: \<open>sha\<close> is \<open>hashlib.sha256(...).hexdigest()\<close>; \<open>bound\<close> says whether the module
  global \<open>watchdog\<close>, which the loggers use and no module of the repository defines, has been
  provided from outside. A CSV file is the list of its rows of cells: the standard \<open>csv\<close>
  module reads back the cells it wrote. The text of each logged value is taken as given
  (the f-string and the csv writer print the same text). Each worker iteration, capture,
  start and stop is one step; the disk's answer (\<open>IOError\<close> or not) is part of the step. A
  start while an earlier worker is still draining its queue is not modelled.
\<close>

section \<open>The chain\<close>

definition genesis :: string where
  "genesis = replicate 64 (CHR ''0'')"

fun csv_line :: "string list \<Rightarrow> string" where
  "csv_line [] = []"
| "csv_line [x] = x"
| "csv_line (x # y # zs) = x @ '','' @ csv_line (y # zs)"

definition link_hash :: "(string \<Rightarrow> string) \<Rightarrow> string list \<Rightarrow> string \<Rightarrow> string" where
  "link_hash sha metrics prev = sha (csv_line metrics @ '','' @ prev)"

definition chain_row :: "(string \<Rightarrow> string) \<Rightarrow> string list \<Rightarrow> string \<Rightarrow> string list" where
  "chain_row sha metrics prev = metrics @ [link_hash sha metrics prev, prev]"

fun chain_rows :: "(string \<Rightarrow> string) \<Rightarrow> string \<Rightarrow> string list list \<Rightarrow> string list list" where
  "chain_rows sha prev [] = []"
| "chain_rows sha prev (m # ms) = chain_row sha m prev # chain_rows sha (link_hash sha m prev) ms"

fun chain_tip :: "(string \<Rightarrow> string) \<Rightarrow> string \<Rightarrow> string list list \<Rightarrow> string" where
  "chain_tip sha prev [] = prev"
| "chain_tip sha prev (m # ms) = chain_tip sha (link_hash sha m prev) ms"

lemma chain_rows_append: "chain_rows sha p (ms @ ns) = chain_rows sha p ms @ chain_rows sha (chain_tip sha p ms) ns"
  by (induction ms arbitrary: p) auto

lemma chain_tip_append: "chain_tip sha p (ms @ ns) = chain_tip sha (chain_tip sha p ms) ns"
  by (induction ms arbitrary: p) auto

section \<open>The chained loggers\<close>

record ledger_kind =
  prefix_tag :: string
  csv_headers :: "string list"

datatype worker_state = Idle | Booting | Working | Crashed

type_synonym file_system = "string \<rightharpoonup> string list list"

record chain_logger =
  log_queue :: "string list list"
  is_logging :: bool
  worker :: worker_state
  log_file_path :: string
  previous_row_hash :: string
  disk :: file_system

definition chain_logger_init :: "file_system \<Rightarrow> chain_logger" where
  "chain_logger_init fs = \<lparr>log_queue = [], is_logging = False, worker = Idle, log_file_path = [],
     previous_row_hash = genesis, disk = fs\<rparr>"

definition initialize_log_file :: "ledger_kind \<Rightarrow> bool \<Rightarrow> string \<Rightarrow> bool \<Rightarrow> chain_logger \<Rightarrow> chain_logger" where
  "initialize_log_file K bound time_str io_ok l =
     (let path = prefix_tag K @ ''_'' @ time_str @ ''.csv''; l = l\<lparr>log_file_path := path, worker := Working\<rparr>
      in if disk l path = None \<and> io_ok
         then l\<lparr>disk := (disk l)(path \<mapsto> [csv_headers K]), worker := (if bound then Working else Crashed)\<rparr>
         else l)"

definition capture :: "chain_logger \<Rightarrow> string list \<Rightarrow> chain_logger" where
  "capture l snapshot_data =
     (if \<not> is_logging l then l
      else if length (log_queue l) < 1000 then l\<lparr>log_queue := log_queue l @ [snapshot_data]\<rparr>
      else l)"

text \<open>
  One iteration of the writer loop. An \<open>IOError\<close> loses the dequeued row; an unbound
  \<open>watchdog\<close> is a \<open>NameError\<close> raised after the row is on disk, which ends the thread before
  the chain register moves on.
\<close>

definition writer_turn :: "(string \<Rightarrow> string) \<Rightarrow> bool \<Rightarrow> bool \<Rightarrow> chain_logger \<Rightarrow> chain_logger" where
  "writer_turn sha bound io_ok l =
     (case log_queue l of
        [] \<Rightarrow> if is_logging l then l else l\<lparr>worker := Idle\<rparr>
      | data # rest \<Rightarrow>
          let l = l\<lparr>log_queue := rest\<rparr>;
              current_sha256 = link_hash sha data (previous_row_hash l);
              final_row = data @ [current_sha256, previous_row_hash l];
              path = log_file_path l;
              written = l\<lparr>disk := (disk l)(path \<mapsto> dget (disk l) path [] @ [final_row])\<rparr>
          in if \<not> io_ok then l
             else if \<not> bound then written\<lparr>worker := Crashed\<rparr>
             else written\<lparr>previous_row_hash := current_sha256\<rparr>)"

definition start_logger_services :: "chain_logger \<Rightarrow> chain_logger" where
  "start_logger_services l = (if is_logging l then l else l\<lparr>is_logging := True, worker := Booting\<rparr>)"

definition stop_logger_services :: "chain_logger \<Rightarrow> chain_logger" where
  "stop_logger_services l = l\<lparr>is_logging := False\<rparr>"

datatype log_event = Start | Stop | Capture "string list" | Turn string bool

fun log_step :: "ledger_kind \<Rightarrow> (string \<Rightarrow> string) \<Rightarrow> bool \<Rightarrow> chain_logger \<Rightarrow> log_event \<Rightarrow> chain_logger" where
  "log_step K sha bound l Start = start_logger_services l"
| "log_step K sha bound l Stop = stop_logger_services l"
| "log_step K sha bound l (Capture d) = capture l d"
| "log_step K sha bound l (Turn day io_ok) =
     (case worker l of
        Booting \<Rightarrow> initialize_log_file K bound day io_ok l
      | Working \<Rightarrow> writer_turn sha bound io_ok l
      | _ \<Rightarrow> l)"

section \<open>The two ledgers\<close>

definition flag_ledger :: ledger_kind where
  "flag_ledger = \<lparr>prefix_tag = ''flag_halyard_audit'',
     csv_headers = [''timestamp_epoch'', ''flag_state_string'', ''motor_position_pct'', ''motor_power_relay_bit'',
       ''brake_pin_lock_bit'', ''log_message'', ''current_row_sha256'', ''previous_row_sha256'']\<rparr>"

definition bilge_ledger :: ledger_kind where
  "bilge_ledger = \<lparr>prefix_tag = ''marpol_bilge_audit'',
     csv_headers = [''timestamp_epoch'', ''active_authority_mode'', ''routing_source'', ''overboard_valve_state'',
       ''recirc_valve_state'', ''total_volume_discharged_liters'', ''oil_concentration_ppm'',
       ''current_row_sha256'', ''previous_row_sha256'']\<rparr>"

text \<open>
  The snapshots, with the text of each value; \<open>d k\<close> is the printed value under a key. Each
  snapshot has the timestamp first.
\<close>

definition capture_flag_event_snapshot :: "chain_logger \<Rightarrow> string \<Rightarrow> (string \<rightharpoonup> string) \<Rightarrow> chain_logger" where
  "capture_flag_event_snapshot l now d =
     capture l [now, dget d ''active_flag_state_string'' ''UNKNOWN'', dget d ''commanded_halyard_motor_position_pct'' ''0.0'',
                dget d ''actuator_motor_power_relay'' ''0'', dget d ''actuator_mechanical_lock_pin'' ''1'',
                dget d ''telemetry_flag_log_message'' []]"

definition capture_bilge_state_snapshot :: "chain_logger \<Rightarrow> string \<Rightarrow> (string \<rightharpoonup> string) \<Rightarrow> string \<Rightarrow> chain_logger" where
  "capture_bilge_state_snapshot l now d oil_ppm =
     capture l [now, dget d ''active_authority_mode'' ''UNKNOWN'', dget d ''routing_source_string'' ''UNKNOWN'',
                dget d ''resolved_overboard_valve_open'' ''0'', dget d ''resolved_recirculation_valve_open'' ''0'',
                dget d ''total_clean_water_discharged_liters'' ''0.0'', oil_ppm]"

definition flag_writer_step :: "(string \<Rightarrow> string) \<Rightarrow> bool \<Rightarrow> chain_logger \<Rightarrow> string \<Rightarrow> bool \<Rightarrow> chain_logger" where
  "flag_writer_step sha bound l day io_ok = log_step flag_ledger sha bound l (Turn day io_ok)"

definition bilge_writer_step :: "(string \<Rightarrow> string) \<Rightarrow> bool \<Rightarrow> chain_logger \<Rightarrow> string \<Rightarrow> bool \<Rightarrow> chain_logger" where
  "bilge_writer_step sha bound l day io_ok = log_step bilge_ledger sha bound l (Turn day io_ok)"

text \<open>The environmental logger repeats the code of the other: its constructor, its opening of the sheet and
  its services are the chained logger's at its own layout.\<close>

definition bilge_logger_init :: "file_system \<Rightarrow> chain_logger" where
  "bilge_logger_init fs = chain_logger_init fs"

definition bilge_initialize_log_file :: "bool \<Rightarrow> string \<Rightarrow> bool \<Rightarrow> chain_logger \<Rightarrow> chain_logger" where
  "bilge_initialize_log_file bound time_str io_ok l = initialize_log_file bilge_ledger bound time_str io_ok l"

definition bilge_start_services :: "chain_logger \<Rightarrow> chain_logger" where
  "bilge_start_services l = start_logger_services l"

definition bilge_stop_services :: "chain_logger \<Rightarrow> chain_logger" where
  "bilge_stop_services l = stop_logger_services l"

section \<open>The mission logger\<close>

record mission_logger =
  m_queue :: "string list list"
  m_logging :: bool
  m_worker :: worker_state
  m_path :: string
  m_disk :: file_system

definition mission_headers :: "string list" where
  "mission_headers = [''timestamp_epoch'', ''vessel_speed_ms'', ''water_depth_m'', ''shaft_rpm'',
     ''command_torque_nm'', ''command_rudder_deg'', ''structural_load_pct'', ''ventilation_index'',
     ''roll_angle_deg'', ''roll_rate_degs'', ''weapon_azimuth_deg'', ''weapon_elevation_deg'', ''computer_temp_c'']"

definition mission_logger_init :: "file_system \<Rightarrow> mission_logger" where
  "mission_logger_init fs = \<lparr>m_queue = [], m_logging = False, m_worker = Idle, m_path = [], m_disk = fs\<rparr>"

text \<open>
  The snapshot row: engine commands, the two nested dictionaries and the telemetry. The module
  does not import \<open>math\<close>, so the angles are multiplied by 57.2958. \<open>show_num\<close> prints a number.
\<close>

definition log_snapshot :: "(real \<Rightarrow> string) \<Rightarrow> mission_logger \<Rightarrow> real \<Rightarrow> num_dict \<Rightarrow> num_dict \<Rightarrow> num_dict \<Rightarrow> num_dict \<Rightarrow> mission_logger" where
  "log_snapshot show_num m now engine_commands insight_link weapon_link live_telemetry =
     (let snapshot_row = map show_num
            [now, dget live_telemetry ''speed_ms'' 0, dget live_telemetry ''depth'' 50, dget live_telemetry ''rpm'' 0,
             dget engine_commands ''command_motor_torque_nm'' 0, dget engine_commands ''command_rudder_angle_deg'' 0,
             dget insight_link ''structural_fatigue_load_percentage'' 0, dget insight_link ''subsurface_ventilation_index'' 1,
             dget live_telemetry ''roll_angle_rad'' 0 * 57.2958, dget live_telemetry ''roll_rate_rads'' 0 * 57.2958,
             dget weapon_link ''weapon_azimuth_deg'' 0, dget weapon_link ''weapon_elevation_deg'' 0,
             dget live_telemetry ''computer_temperature_c'' 25]
      in if m_logging m \<and> length (m_queue m) < 5000 then m\<lparr>m_queue := m_queue m @ [snapshot_row]\<rparr> else m)"

text \<open>The file is opened for writing anew at every boot of the worker, at its time stamp.\<close>

definition mission_boot :: "bool \<Rightarrow> string \<Rightarrow> bool \<Rightarrow> mission_logger \<Rightarrow> mission_logger" where
  "mission_boot bound time_str io_ok m =
     (let path = ''mission_telemetry_'' @ time_str @ ''.csv''; m = m\<lparr>m_path := path, m_worker := Working\<rparr>
      in if io_ok then m\<lparr>m_disk := (m_disk m)(path \<mapsto> [mission_headers]), m_worker := (if bound then Working else Crashed)\<rparr>
         else m)"

definition mission_turn :: "bool \<Rightarrow> bool \<Rightarrow> mission_logger \<Rightarrow> mission_logger" where
  "mission_turn bound io_ok m =
     (case m_queue m of
        [] \<Rightarrow> if m_logging m then m else m\<lparr>m_worker := Idle\<rparr>
      | row_data # rest \<Rightarrow>
          let m = m\<lparr>m_queue := rest\<rparr>
          in if \<not> io_ok then m
             else m\<lparr>m_disk := (m_disk m)(m_path m \<mapsto> dget (m_disk m) (m_path m) [] @ [row_data]),
                    m_worker := (if bound then Working else Crashed)\<rparr>)"

text \<open>The services and the worker's steps.\<close>

definition start_logging_services :: "mission_logger \<Rightarrow> mission_logger" where
  "start_logging_services m = (if m_logging m then m else m\<lparr>m_logging := True, m_worker := Booting\<rparr>)"

definition stop_logging_services :: "mission_logger \<Rightarrow> mission_logger" where
  "stop_logging_services m = m\<lparr>m_logging := False\<rparr>"

datatype mission_event = M_Start | M_Stop | M_Snapshot real num_dict num_dict num_dict num_dict | M_Turn string bool

fun mission_step :: "(real \<Rightarrow> string) \<Rightarrow> bool \<Rightarrow> mission_logger \<Rightarrow> mission_event \<Rightarrow> mission_logger" where
  "mission_step show_num bound m M_Start = start_logging_services m"
| "mission_step show_num bound m M_Stop = stop_logging_services m"
| "mission_step show_num bound m (M_Snapshot now ec il wl lt) = log_snapshot show_num m now ec il wl lt"
| "mission_step show_num bound m (M_Turn stamp io_ok) =
     (case m_worker m of
        Booting \<Rightarrow> mission_boot bound stamp io_ok m
      | Working \<Rightarrow> mission_turn bound io_ok m
      | _ \<Rightarrow> m)"

definition mission_run :: "(real \<Rightarrow> string) \<Rightarrow> bool \<Rightarrow> mission_logger \<Rightarrow> mission_event list \<Rightarrow> mission_logger" where
  "mission_run show_num bound = foldl (mission_step show_num bound)"

section \<open>The boot verifier\<close>

text \<open>A file of the log directory: its rows, or the text of the exception reading it raises.\<close>

datatype log_file = Rows "string list list" | Unreadable string

fun find_index :: "string \<Rightarrow> string list \<Rightarrow> nat option" where
  "find_index x [] = None"
| "find_index x (y # ys) = (if y = x then Some 0 else map_option Suc (find_index x ys))"

datatype row_check = Secure | Tampered nat | Short_Row

text \<open>The row loop from the row numbered \<open>i\<close> on; blank rows are skipped.\<close>

fun check_rows :: "(string \<Rightarrow> string) \<Rightarrow> nat \<Rightarrow> nat \<Rightarrow> nat \<Rightarrow> string \<Rightarrow> string list list \<Rightarrow> row_check" where
  "check_rows sha si pv i tracking_prev_hash [] = Secure"
| "check_rows sha si pv i tracking_prev_hash (row # rows) =
     (if row = [] then check_rows sha si pv (Suc i) tracking_prev_hash rows
      else if length row \<le> si \<or> length row \<le> pv then Short_Row
      else let recalculated_hash = link_hash sha (take si row) tracking_prev_hash in
        if row ! si \<noteq> recalculated_hash \<or> row ! pv \<noteq> tracking_prev_hash then Tampered (Suc i)
        else check_rows sha si pv (Suc i) (row ! si) rows)"

definition inspect_file :: "(string \<Rightarrow> string) \<Rightarrow> string \<Rightarrow> log_file \<Rightarrow> string list" where
  "inspect_file sha name f =
     (let failed = (\<lambda>e. [''FILE_ACCESS_EXCEPTION: Unable to read ledger structural profile '' @ name @ '': '' @ e]) in
      case f of
        Unreadable e \<Rightarrow> failed e
      | Rows [] \<Rightarrow> failed []
      | Rows (headers # rows) \<Rightarrow>
          (case (find_index ''current_row_sha256'' headers, find_index ''previous_row_sha256'' headers) of
             (Some sha_idx, Some prev_sha_idx) \<Rightarrow>
               (case check_rows sha sha_idx prev_sha_idx 0 genesis rows of
                  Secure \<Rightarrow> []
                | Tampered n \<Rightarrow> [''TAMPER_DETECTION_FAULT: Data corruption or manual edit inside '' @ name @ '' at Row '' @ nat_str n]
                | Short_Row \<Rightarrow> failed ''list index out of range'')
           | _ \<Rightarrow> [''UNPROTECTED_SCHEMA: '' @ name @ '' lacks cryptographic columns.'']))"

definition compliance_ledgers :: "string list" where
  "compliance_ledgers = [''flag_halyard_audit'', ''marpol_bilge_audit'', ''mission_telemetry'', ''shore_facility_audit'']"

definition latest_file :: "string list \<Rightarrow> string \<Rightarrow> string option" where
  "latest_file all_files prefix =
     (let matching_files = sort (filter (\<lambda>f. starts_with f prefix \<and> ends_with f ''.csv'') all_files)
      in if matching_files = [] then None else Some (last matching_files))"

text \<open>The log directory: \<open>None\<close> when it does not exist; its listing and contents otherwise.\<close>

definition verify_cryptographic_ledger_integrity ::
    "(string \<Rightarrow> string) \<Rightarrow> (string list \<times> (string \<Rightarrow> log_file)) option \<Rightarrow> bool \<times> string list" where
  "verify_cryptographic_ledger_integrity sha dir =
     (case dir of None \<Rightarrow> (True, [])
      | Some (all_files, content) \<Rightarrow>
          let fault_reports = concat (map (\<lambda>p. case latest_file all_files p of None \<Rightarrow> []
                 | Some f \<Rightarrow> inspect_file sha f (content f)) compliance_ledgers)
          in (fault_reports = [], fault_reports))"

definition execute_full_suite :: "(string \<Rightarrow> string) \<Rightarrow> (string list \<times> (string \<Rightarrow> log_file)) option \<Rightarrow> bool" where
  "execute_full_suite sha dir = fst (verify_cryptographic_ledger_integrity sha dir)"

section \<open>Writing a ledger the verifier accepts\<close>

definition log_run :: "ledger_kind \<Rightarrow> (string \<Rightarrow> string) \<Rightarrow> bool \<Rightarrow> chain_logger \<Rightarrow> log_event list \<Rightarrow> chain_logger" where
  "log_run K sha bound = foldl (log_step K sha bound)"

text \<open>A ledger layout: the two hash columns are the last two, the metrics come first.\<close>

definition layout :: "ledger_kind \<Rightarrow> nat \<Rightarrow> bool" where
  "layout K n \<longleftrightarrow> n > 0 \<and> find_index ''current_row_sha256'' (csv_headers K) = Some n
     \<and> find_index ''previous_row_sha256'' (csv_headers K) = Some (Suc n)"

lemma check_chain_rows:
  assumes "\<forall>m \<in> set ms. length m = n" "n > 0"
  shows "check_rows sha n (Suc n) i p (chain_rows sha p ms) = Secure"
  using assms
  by (induction ms arbitrary: i p) (auto simp: chain_row_def nth_append Let_def)

lemma inspect_chain:
  assumes "layout K n" "\<forall>m \<in> set ms. length m = n"
  shows "inspect_file sha name (Rows (csv_headers K # chain_rows sha genesis ms)) = []"
  using assms check_chain_rows [of ms n] by (simp add: layout_def inspect_file_def)

text \<open>
  The state of a logger on one day's file: the file is the headers and the chain of the
  metric rows \<open>ms\<close>, the chain register is the tip of that chain, and everything queued or
  written has the right width.
\<close>

definition ledger_holds :: "ledger_kind \<Rightarrow> (string \<Rightarrow> string) \<Rightarrow> nat \<Rightarrow> string \<Rightarrow> string list list \<Rightarrow> chain_logger \<Rightarrow> bool" where
  "ledger_holds K sha n day ms l \<longleftrightarrow>
     (\<forall>m \<in> set ms \<union> set (log_queue l). length m = n)
     \<and> log_file_path l = prefix_tag K @ ''_'' @ day @ ''.csv''
     \<and> disk l (log_file_path l) = Some (csv_headers K # chain_rows sha genesis ms)
     \<and> previous_row_hash l = chain_tip sha genesis ms"

text \<open>The snapshots that a history's captures put in the queue.\<close>

fun accepted :: "ledger_kind \<Rightarrow> (string \<Rightarrow> string) \<Rightarrow> bool \<Rightarrow> chain_logger \<Rightarrow> log_event list \<Rightarrow> string list list" where
  "accepted K sha bound l [] = []"
| "accepted K sha bound l (e # es) =
     (case e of Capture d \<Rightarrow> if is_logging l \<and> length (log_queue l) < 1000 then [d] else [] | _ \<Rightarrow> [])
     @ accepted K sha bound (log_step K sha bound l e) es"

fun same_day :: "nat \<Rightarrow> string \<Rightarrow> log_event \<Rightarrow> bool" where
  "same_day n day (Turn d io_ok) \<longleftrightarrow> d = day"
| "same_day n day (Capture m) \<longleftrightarrow> length m = n"
| "same_day n day e \<longleftrightarrow> True"

fun disk_ok :: "log_event \<Rightarrow> bool" where
  "disk_ok (Turn d io_ok) = io_ok"
| "disk_ok e = True"

lemma writer_turn_holds:
  assumes "ledger_holds K sha n day ms l"
  shows "\<exists>ms'. ledger_holds K sha n day ms' (writer_turn sha True io_ok l)
     \<and> (io_ok \<longrightarrow> ms' @ log_queue (writer_turn sha True io_ok l) = ms @ log_queue l)"
proof (cases "log_queue l")
  case Nil
  then show ?thesis using assms by (intro exI [of _ ms]) (auto simp: writer_turn_def ledger_holds_def)
next
  case (Cons d rest)
  show ?thesis
  proof (cases io_ok)
    case True
    then show ?thesis using assms Cons
      by (intro exI [of _ "ms @ [d]"])
         (auto simp: writer_turn_def ledger_holds_def Let_def chain_rows_append chain_tip_append chain_row_def dget_def)
  next
    case False
    then show ?thesis using assms Cons
      by (intro exI [of _ ms]) (auto simp: writer_turn_def ledger_holds_def Let_def)
  qed
qed

lemma log_step_holds:
  assumes "ledger_holds K sha n day ms l" "same_day n day e"
  shows "\<exists>ms'. ledger_holds K sha n day ms' (log_step K sha True l e)
     \<and> (disk_ok e \<longrightarrow> ms' @ log_queue (log_step K sha True l e) = ms @ log_queue l @ accepted K sha True l [e])"
proof (cases e)
  case Start
  then show ?thesis using assms by (intro exI [of _ ms]) (auto simp: ledger_holds_def start_logger_services_def)
next
  case Stop
  then show ?thesis using assms by (intro exI [of _ ms]) (auto simp: ledger_holds_def stop_logger_services_def)
next
  case (Capture d)
  then show ?thesis using assms by (intro exI [of _ ms]) (auto simp: ledger_holds_def capture_def)
next
  case (Turn d io_ok)
  show ?thesis
  proof (cases "worker l")
    case Working
    then show ?thesis using writer_turn_holds [OF assms(1), of io_ok] Turn by simp
  next
    case Booting
    then show ?thesis using assms Turn
      by (intro exI [of _ ms]) (auto simp: ledger_holds_def initialize_log_file_def Let_def)
  qed (use assms Turn in \<open>auto intro!: exI [of _ ms]\<close>)
qed

lemma log_run_holds:
  assumes "ledger_holds K sha n day ms l" "\<forall>e \<in> set es. same_day n day e"
  shows "\<exists>ms'. ledger_holds K sha n day ms' (log_run K sha True l es)
     \<and> ((\<forall>e \<in> set es. disk_ok e) \<longrightarrow> ms' @ log_queue (log_run K sha True l es) = ms @ log_queue l @ accepted K sha True l es)"
  using assms
proof (induction es arbitrary: l ms)
  case (Cons e es)
  obtain m1 where m1: "ledger_holds K sha n day m1 (log_step K sha True l e)"
    "disk_ok e \<longrightarrow> m1 @ log_queue (log_step K sha True l e) = ms @ log_queue l @ accepted K sha True l [e]"
    using log_step_holds Cons.prems by (metis list.set_intros(1))
  obtain m2 where "ledger_holds K sha n day m2 (log_run K sha True (log_step K sha True l e) es)"
    "(\<forall>e \<in> set es. disk_ok e) \<longrightarrow> m2 @ log_queue (log_run K sha True (log_step K sha True l e) es)
       = m1 @ log_queue (log_step K sha True l e) @ accepted K sha True (log_step K sha True l e) es"
    using Cons.IH [OF m1(1)] Cons.prems(2) by auto
  with m1(2) show ?case by (intro exI [of _ m2]) (auto simp: log_run_def)
qed (auto simp: log_run_def)

definition ledger_width :: "ledger_kind \<Rightarrow> nat" where
  "ledger_width K = length (csv_headers K) - 2"

lemma shipped_layouts:
  "layout flag_ledger (ledger_width flag_ledger)" "layout bilge_ledger (ledger_width bilge_ledger)"
  by (simp_all add: layout_def ledger_width_def flag_ledger_def bilge_ledger_def)

definition ledger_path :: "ledger_kind \<Rightarrow> string \<Rightarrow> string" where
  "ledger_path K day = prefix_tag K @ ''_'' @ day @ ''.csv''"



text \<open>Property C36. A second process on the same day breaks its own ledger: it appends to the
  existing file but restarts the chain from the genesis hash, so its first row makes the
  verifier report tampering at exactly that row, although nobody touched the file.
\<close>

theorem restart_breaks_the_chain:
  assumes "K = flag_ledger \<or> K = bilge_ledger"
    and old: "fs (ledger_path K day) = Some (csv_headers K # chain_rows sha genesis ms)"
    and ms: "\<forall>m \<in> set ms. length m = ledger_width K" "length d = ledger_width K"
    and tip: "chain_tip sha genesis ms \<noteq> genesis"
  shows "let l = log_run K sha True (chain_logger_init fs) [Start, Turn day True, Capture d, Turn day True]
    in \<exists>rows. disk l (ledger_path K day) = Some rows \<and>
         inspect_file sha name (Rows rows) =
           [''TAMPER_DETECTION_FAULT: Data corruption or manual edit inside '' @ name @ '' at Row '' @ nat_str (Suc (length ms))]"
proof -
  let ?l = "log_run K sha True (chain_logger_init fs) [Start, Turn day True, Capture d, Turn day True]"
  let ?n = "ledger_width K"
  have lay: "layout K ?n" using assms(1) shipped_layouts by auto
  have disk: "disk ?l (ledger_path K day) = Some (csv_headers K # chain_rows sha genesis ms @ [chain_row sha d genesis])"
    using old
    by (simp add: log_run_def chain_logger_init_def start_logger_services_def initialize_log_file_def capture_def
        writer_turn_def ledger_path_def chain_row_def dget_def Let_def)
  have "check_rows sha ?n (Suc ?n) i p (chain_rows sha p ms @ [chain_row sha d genesis]) = Tampered (Suc (i + length ms))"
    if "chain_tip sha p ms \<noteq> genesis" for i p
    using that ms lay
    by (induction ms arbitrary: i p) (auto simp: chain_row_def nth_append Let_def layout_def)
  from this [OF tip, of 0] show ?thesis using lay by (simp add: disk layout_def inspect_file_def)
qed

theorem restart_breaks_the_chain_witness:
  "\<exists>rows. disk (log_run flag_ledger id True
        (chain_logger_init [ledger_path flag_ledger ''20260101'' \<mapsto> csv_headers flag_ledger # chain_rows id genesis [replicate 6 ''0'']])
        [Start, Turn ''20260101'' True, Capture (replicate 6 ''1''), Turn ''20260101'' True]) (ledger_path flag_ledger ''20260101'') = Some rows
     \<and> inspect_file id ''x'' (Rows rows) \<noteq> []"
proof -
  have "chain_tip id genesis [replicate 6 ''0''] \<noteq> genesis"
  proof
    assume "chain_tip id genesis [replicate 6 ''0''] = genesis"
    then have "length (csv_line (replicate 6 ''0'') @ '','' @ genesis) = length genesis" by (simp add: link_hash_def)
    then show False by simp
  qed
  moreover have "ledger_width flag_ledger = 6" by (simp add: ledger_width_def flag_ledger_def)
  ultimately show ?thesis
    using restart_breaks_the_chain [of flag_ledger
        "[ledger_path flag_ledger ''20260101'' \<mapsto> csv_headers flag_ledger # chain_rows id genesis [replicate 6 ''0'']]"
        "''20260101''" id "[replicate 6 ''0'']" "replicate 6 ''1''" "''x''"]
    by (auto simp: Let_def)
qed

section \<open>Without the watchdog hook\<close>

fun starts :: "log_event list \<Rightarrow> nat" where
  "starts [] = 0"
| "starts (Start # es) = Suc (starts es)"
| "starts (e # es) = starts es"

definition pending_line :: "chain_logger \<Rightarrow> nat" where
  "pending_line l = (if worker l = Booting \<or> worker l = Working then 1 else 0)"

lemma unbound_step:
  assumes "same_day n day e" "previous_row_hash l = genesis" "worker l = Working \<longrightarrow> log_file_path l = ledger_path K day"
  shows "previous_row_hash (log_step K sha False l e) = genesis
    \<and> (worker (log_step K sha False l e) = Working \<longrightarrow> log_file_path (log_step K sha False l e) = ledger_path K day)
    \<and> length (dget (disk (log_step K sha False l e)) (ledger_path K day) []) + pending_line (log_step K sha False l e)
      \<le> length (dget (disk l) (ledger_path K day) []) + pending_line l + starts [e]"
  using assms
  by (cases e) (auto simp: start_logger_services_def stop_logger_services_def capture_def writer_turn_def initialize_log_file_def
      pending_line_def ledger_path_def dget_def Let_def split: worker_state.split list.split option.splits if_splits)

text \<open>As shipped, with no \<open>watchdog\<close> bound, the writer thread dies on its first
  success: over any history on a fresh day the file never has more lines than the services
  were started, and the chain register never leaves the genesis hash.
\<close>

theorem unhooked_logger_writes_nothing:
  assumes "\<forall>e \<in> set es. same_day n day e" and "fs (ledger_path K day) = None"
  shows "length (dget (disk (log_run K sha False (chain_logger_init fs) es)) (ledger_path K day) []) \<le> starts es
    \<and> previous_row_hash (log_run K sha False (chain_logger_init fs) es) = genesis"
proof -
  let ?l = "\<lambda>es. log_run K sha False (chain_logger_init fs) es"
  have "previous_row_hash (?l es) = genesis \<and> (worker (?l es) = Working \<longrightarrow> log_file_path (?l es) = ledger_path K day)
      \<and> length (dget (disk (?l es)) (ledger_path K day) []) + pending_line (?l es) \<le> starts es"
    using assms(1)
  proof (induction es rule: rev_induct)
    case Nil
    then show ?case using assms(2) by (simp add: log_run_def chain_logger_init_def pending_line_def dget_def)
  next
    case (snoc e es)
    have split: "starts (xs @ [e]) = starts xs + starts [e]" for xs by (induction xs rule: starts.induct) auto
    have "?l (es @ [e]) = log_step K sha False (?l es) e" by (simp add: log_run_def)
    then show ?case
      using snoc unbound_step [of n day e "?l es" K sha] by (auto simp: split)
  qed
  then show ?thesis by simp
qed

theorem unhooked_logger_writes_nothing_witness:
  "length (dget (disk (log_run bilge_ledger id False (chain_logger_init Map.empty)
     [Start, Capture (replicate 7 ''0''), Turn ''20260101'' True, Turn ''20260101'' True])) (ledger_path bilge_ledger ''20260101'') []) \<le> 1"
  using unhooked_logger_writes_nothing [of "[Start, Capture (replicate 7 ''0''), Turn ''20260101'' True, Turn ''20260101'' True]"
      7 "''20260101''" Map.empty bilge_ledger id]
  by simp

section \<open>What the chain protects\<close>

text \<open>Two different texts with the same digest.\<close>

definition collision :: "(string \<Rightarrow> string) \<Rightarrow> bool" where
  "collision sha \<longleftrightarrow> (\<exists>a b. a \<noteq> b \<and> sha a = sha b)"

lemma secure_rows_chain:
  assumes "check_rows sha n (Suc n) i p rows = Secure" "\<forall>r \<in> set rows. length r = n + 2"
  shows "rows = chain_rows sha p (map (take n) rows)"
  using assms
proof (induction rows arbitrary: i p)
  case (Cons r rows)
  then have r: "r \<noteq> []" "length r = n + 2" "r ! n = link_hash sha (take n r) p" "r ! Suc n = p"
    "check_rows sha n (Suc n) (Suc i) (r ! n) rows = Secure"
    by (auto simp: Let_def split: if_splits)
  have "r = take n r @ drop n r" by simp
  also have "drop n r = [r ! n, r ! Suc n]"
    using r(2) by (simp add: Cons_nth_drop_Suc [symmetric])
  finally have "r = chain_row sha (take n r) p" using r by (simp add: chain_row_def)
  then show ?case using Cons.IH [OF r(5)] Cons.prems(2) r(3) by simp
qed simp

lemma chain_tip_unique:
  assumes "\<forall>s. length (sha s) = 64" "length ms = length ms'" "length p = 64" "length p' = 64"
    and "chain_tip sha p ms = chain_tip sha p' ms'"
  shows "(p = p' \<and> map csv_line ms = map csv_line ms') \<or> collision sha"
  using assms(2-)
proof (induction ms ms' arbitrary: p p' rule: list_induct2)
  case (Cons m ms m' ms')
  have "length (link_hash sha m p) = 64" "length (link_hash sha m' p') = 64"
    using assms(1) by (simp_all add: link_hash_def)
  from Cons.IH [OF this] Cons.prems
  have "link_hash sha m p = link_hash sha m' p' \<and> map csv_line ms = map csv_line ms' \<or> collision sha" by simp
  moreover have "csv_line m @ '','' @ p = csv_line m' @ '','' @ p' \<or> collision sha" if "link_hash sha m p = link_hash sha m' p'"
    using that by (auto simp: link_hash_def collision_def)
  moreover have "csv_line m = csv_line m' \<and> p = p'" if "csv_line m @ '','' @ p = csv_line m' @ '','' @ p'"
    using that Cons.prems(1,2) append_eq_append_conv [of "csv_line m @ '',''" "csv_line m' @ '',''" p p'] by simp
  ultimately show ?case by auto
qed simp

lemma secure_tip:
  "rows = chain_rows sha p (map (take n) rows) \<Longrightarrow> rows \<noteq> [] \<Longrightarrow> \<forall>r \<in> set rows. length r = n + 2 \<Longrightarrow>
     last rows ! n = chain_tip sha p (map (take n) rows)"
proof (induction rows arbitrary: p)
  case (Cons r rows)
  then have r: "r = chain_row sha (take n r) p" "rows = chain_rows sha (link_hash sha (take n r) p) (map (take n) rows)" by auto
  have "length (take n r) = n" using Cons.prems(3) by simp
  then have "r ! n = link_hash sha (take n r) p" by (subst r(1)) (simp add: chain_row_def nth_append)
  then show ?case using Cons.IH [OF r(2)] Cons.prems(3) by (cases rows) auto
qed simp


section \<open>The boot gate\<close>

text \<open>Every mission blocks the next boot: as soon as the mission logger has opened
  its file, whose header has no digest columns, the full suite refuses to pass on any log
  directory whose latest mission file is that one.
\<close>

theorem mission_blocks_boot:
  assumes "m_disk (mission_boot bound stamp True m) f = Some rows"
    and "f = ''mission_telemetry_'' @ stamp @ ''.csv''"
    and "latest_file files ''mission_telemetry'' = Some f" "content f = Rows rows"
  shows "\<not> execute_full_suite sha (Some (files, content))"
proof -
  have "rows = [mission_headers]" using assms(1,2) by (simp add: mission_boot_def Let_def split: if_splits)
  then have "inspect_file sha f (content f) \<noteq> []"
    using assms(4) by (simp add: inspect_file_def mission_headers_def)
  then show ?thesis using assms(3)
    by (auto simp: execute_full_suite_def verify_cryptographic_ledger_integrity_def compliance_ledgers_def)
qed

theorem mission_blocks_boot_witness:
  "\<not> execute_full_suite id (Some ([''mission_telemetry_1.csv''], \<lambda>_. Rows [mission_headers]))"
proof -
  let ?f = "''mission_telemetry_1.csv''"
  have "starts_with ?f ''mission_telemetry''" "ends_with ?f ''.csv''" by (simp_all add: starts_with_def ends_with_def)
  then have latest: "latest_file [?f] ''mission_telemetry'' = Some ?f" by (simp add: latest_file_def)
  have "m_disk (mission_boot True ''1'' True (mission_logger_init Map.empty)) ?f = Some [mission_headers]"
    by (simp add: mission_boot_def Let_def)
  from mission_blocks_boot [OF this _ latest refl] show ?thesis by simp
qed

text \<open>A digest of the right length, for the example.\<close>

definition toy_digest :: "string \<Rightarrow> string" where
  "toy_digest s = take 64 (s @ replicate 64 (CHR ''x''))"


section \<open>The mission sheet\<close>

text \<open>The rows a history's snapshots put in the queue.\<close>

fun mission_accepted :: "(real \<Rightarrow> string) \<Rightarrow> bool \<Rightarrow> mission_logger \<Rightarrow> mission_event list \<Rightarrow> string list list" where
  "mission_accepted show_num bound m [] = []"
| "mission_accepted show_num bound m (e # es) =
     (case e of M_Snapshot now ec il wl lt \<Rightarrow> drop (length (m_queue m)) (m_queue (mission_step show_num bound m e)) | _ \<Rightarrow> [])
     @ mission_accepted show_num bound (mission_step show_num bound m e) es"

fun undisturbed :: "mission_event \<Rightarrow> bool" where
  "undisturbed M_Start = False"
| "undisturbed (M_Turn stamp io_ok) = io_ok"
| "undisturbed e = True"

definition sheet_holds :: "string \<Rightarrow> string list list \<Rightarrow> mission_logger \<Rightarrow> bool" where
  "sheet_holds path rows m \<longleftrightarrow> m_disk m path = Some (mission_headers # rows) \<and> m_path m = path
     \<and> m_worker m \<in> {Working, Idle} \<and> length (m_queue m) \<le> 5000
     \<and> (\<forall>r \<in> set rows \<union> set (m_queue m). length r = length mission_headers)"

lemma mission_step_holds:
  assumes "sheet_holds path rows m" and "undisturbed e"
  shows "\<exists>rows'. sheet_holds path rows' (mission_step show_num True m e)
    \<and> rows' @ m_queue (mission_step show_num True m e) = rows @ m_queue m @ mission_accepted show_num True m [e]"
proof (cases e)
  case (M_Turn stamp io_ok)
  show ?thesis
  proof (cases "m_worker m = Working")
    case True
    show ?thesis
    proof (cases "m_queue m")
      case Nil
      with assms M_Turn True show ?thesis
        by (intro exI [of _ rows]) (auto simp: sheet_holds_def mission_turn_def)
    next
      case (Cons r q)
      with assms M_Turn True show ?thesis
        by (intro exI [of _ "rows @ [r]"]) (auto simp: sheet_holds_def mission_turn_def Let_def dget_def)
    qed
  qed (use assms M_Turn in \<open>auto simp: sheet_holds_def\<close>)
qed (use assms in \<open>auto intro!: exI [of _ rows] simp: sheet_holds_def stop_logging_services_def log_snapshot_def
       mission_headers_def Let_def\<close>)

lemma mission_run_holds:
  "sheet_holds path rows m \<Longrightarrow> list_all undisturbed es \<Longrightarrow>
    \<exists>rows'. sheet_holds path rows' (mission_run show_num True m es)
      \<and> rows' @ m_queue (mission_run show_num True m es) = rows @ m_queue m @ mission_accepted show_num True m es"
proof (induction es arbitrary: m rows)
  case (Cons e es)
  obtain rows1 where 1: "sheet_holds path rows1 (mission_step show_num True m e)"
    "rows1 @ m_queue (mission_step show_num True m e) = rows @ m_queue m @ mission_accepted show_num True m [e]"
    using mission_step_holds [OF Cons.prems(1)] Cons.prems(2) by force
  from Cons.IH [OF 1(1)] Cons.prems(2) obtain rows2 where
    "sheet_holds path rows2 (mission_run show_num True (mission_step show_num True m e) es)"
    "rows2 @ m_queue (mission_run show_num True (mission_step show_num True m e) es)
      = rows1 @ m_queue (mission_step show_num True m e) @ mission_accepted show_num True (mission_step show_num True m e) es"
    by auto
  with 1(2) show ?case by (intro exI [of _ rows2]) (auto simp: mission_run_def)
qed (auto simp: mission_run_def)

text \<open>With the watchdog bound, a sheet whose disk never failed holds the header and, with the queue, every accepted
  snapshot in order.\<close>

lemma mission_sheet_complete:
  fixes show_num fs stamp es
  assumes "list_all undisturbed es"
  defines "m \<equiv> mission_run show_num True (mission_logger_init fs) (M_Start # M_Turn stamp True # es)"
  shows "\<exists>rows. m_disk m (''mission_telemetry_'' @ stamp @ ''.csv'') = Some (mission_headers # rows)
    \<and> rows @ m_queue m = mission_accepted show_num True (mission_logger_init fs) (M_Start # M_Turn stamp True # es)
    \<and> length (m_queue m) \<le> 5000 \<and> list_all (\<lambda>r. length r = 13) rows"
proof -
  let ?m = "mission_run show_num True (mission_logger_init fs) [M_Start, M_Turn stamp True]"
  have "sheet_holds (''mission_telemetry_'' @ stamp @ ''.csv'') [] ?m" "m_queue ?m = []"
    by (simp_all add: sheet_holds_def mission_run_def mission_logger_init_def start_logging_services_def mission_boot_def Let_def)
  with mission_run_holds [OF this(1) assms(1), of show_num] obtain rows
    where rows: "sheet_holds (''mission_telemetry_'' @ stamp @ ''.csv'') rows (mission_run show_num True ?m es)"
      "rows @ m_queue (mission_run show_num True ?m es) = mission_accepted show_num True ?m es" by auto
  have m: "m = mission_run show_num True ?m es" by (simp add: m_def mission_run_def)
  have a: "mission_accepted show_num True (mission_logger_init fs) (M_Start # M_Turn stamp True # es)
      = mission_accepted show_num True ?m es" by (simp add: mission_run_def)
  have n: "length mission_headers = 13" by (simp add: mission_headers_def)
  show ?thesis unfolding m a using rows n
    by (intro exI [of _ rows]) (simp only: sheet_holds_def list_all_iff Un_iff, blast)
qed

text \<open>As shipped, with no \<open>watchdog\<close> bound, the worker dies right after the header: a sheet written in the run holds
  its header and nothing else.\<close>

definition sheets_bare :: "file_system \<Rightarrow> mission_logger \<Rightarrow> bool" where
  "sheets_bare fs m \<longleftrightarrow> m_worker m \<noteq> Working \<and> (\<forall>f rows. m_disk m f = Some rows \<longrightarrow> fs f = Some rows \<or> rows = [mission_headers])"

fun boots_write :: "mission_event \<Rightarrow> bool" where
  "boots_write (M_Turn stamp io_ok) = io_ok"
| "boots_write e = True"

lemma unhooked_mission_logger:
  assumes "list_all boots_write es"
  shows "sheets_bare fs (mission_run show_num False (mission_logger_init fs) es)"
  using assms
proof (induction es rule: rev_induct)
  case Nil
  then show ?case by (simp add: sheets_bare_def mission_run_def mission_logger_init_def)
next
  case (snoc e es)
  then have "sheets_bare fs (mission_run show_num False (mission_logger_init fs) es)" "boots_write e" by simp_all
  then show ?case
    by (cases e) (auto simp: mission_run_def sheets_bare_def start_logging_services_def stop_logging_services_def
        log_snapshot_def mission_boot_def Let_def split: worker_state.split if_splits)
qed


section \<open>Shutting down\<close>

lemma drained_stays: "list_all (\<lambda>e. \<exists>d io_ok. e = Turn d io_ok) es \<Longrightarrow> worker l = Idle \<Longrightarrow> log_run K sha bound l es = l"
  by (induction es) (auto simp: log_run_def)



end
