(* ===== verification/Hal.thy ===== *)
theory Hal
  imports Nmea_Frame
begin

unbundle bit_operations_syntax

text \<open>
  The word-level network components: the multi-model abstraction layer
  (\<open>UnivacArchitectureHAL\<close>), the Gray code shaft decoder (\<open>CrayGrayCodeParserExtension\<close>), the
  MAC alignment engine (\<open>UnivacMacAlignmentEngine\<close>) with the Ethernet handshake validator that
  rebuilds the same address (\<open>HardwareNetworkValidatorEngine\<close>), and the hexadecimal spectrum
  modulator (\<open>HexadecimalSpectrumModulator\<close>). Python integers are unbounded: words arrive as
  \<open>int\<close> of either sign, bytes are natural numbers below 256.
\<close>

section \<open>UnivacArchitectureHAL\<close>

record model_cfg =
  cfg_bits :: nat
  cfg_mask :: int
  cfg_protocol :: string

definition model_registry :: "string \<rightharpoonup> model_cfg" where
  "model_registry =
     [''1219'' \<mapsto> \<lparr>cfg_bits = 18, cfg_mask = 0x0003FFFF, cfg_protocol = ''MIL_STD_1397_A''\<rparr>,
      ''AN/UYK-43'' \<mapsto> \<lparr>cfg_bits = 32, cfg_mask = 0xFFFFFFFF, cfg_protocol = ''NTDS_SERIAL_E''\<rparr>,
      ''AN/UYK-20'' \<mapsto> \<lparr>cfg_bits = 16, cfg_mask = 0x0000FFFF, cfg_protocol = ''NTDS_PARALLEL_C''\<rparr>,
      ''AN/AYK-14'' \<mapsto> \<lparr>cfg_bits = 16, cfg_mask = 0x0000FFFF, cfg_protocol = ''MIL_STD_1553B''\<rparr>,
      ''490'' \<mapsto> \<lparr>cfg_bits = 30, cfg_mask = 0x3FFFFFFF, cfg_protocol = ''NTDS_PARALLEL_A''\<rparr>,
      ''494'' \<mapsto> \<lparr>cfg_bits = 30, cfg_mask = 0x3FFFFFFF, cfg_protocol = ''NTDS_PARALLEL_B''\<rparr>,
      ''1107'' \<mapsto> \<lparr>cfg_bits = 36, cfg_mask = 0xFFAAAAAA, cfg_protocol = ''SCIENTIFIC_PARALLEL''\<rparr>,
      ''1108'' \<mapsto> \<lparr>cfg_bits = 36, cfg_mask = 0xFFAAAAAA, cfg_protocol = ''SCIENTIFIC_EXTENDED''\<rparr>]"

type_synonym hal = string

definition hal_init :: hal where
  "hal_init = ''AN/UYK-43''"

definition clear_interlocks_for_model :: "hal \<Rightarrow> string \<Rightarrow> hal \<times> bool" where
  "clear_interlocks_for_model active_target_model target_model =
     (let sanitized = py_strip (py_upper target_model);
          sanitized = (if sanitized = ''43'' then ''AN/UYK-43'' else sanitized);
          sanitized = (if sanitized = ''20'' then ''AN/UYK-20'' else sanitized);
          sanitized = (if sanitized = ''14'' then ''AN/AYK-14'' else sanitized)
      in if model_registry sanitized \<noteq> None then (sanitized, True) else (active_target_model, False))"

text \<open>A model missing from the registry is a \<open>KeyError\<close>; a word that does not fit its bytes an \<open>OverflowError\<close>.\<close>

definition pack_native_word_to_64bit :: "hal \<Rightarrow> int \<Rightarrow> int option" where
  "pack_native_word_to_64bit h raw_input_word = map_option (\<lambda>cfg. raw_input_word AND cfg_mask cfg) (model_registry h)"

fun to_bytes :: "nat \<Rightarrow> int \<Rightarrow> nat list" where
  "to_bytes 0 w = []"
| "to_bytes (Suc n) w = to_bytes n (w div 256) @ [nat (w mod 256)]"

definition to_bytes_big :: "nat \<Rightarrow> int \<Rightarrow> nat list option" where
  "to_bytes_big n w = (if 0 \<le> w \<and> w < 256 ^ n then Some (to_bytes n w) else None)"

definition unpack_64bit_to_native_bytes :: "hal \<Rightarrow> int \<Rightarrow> (nat list \<times> string) option" where
  "unpack_64bit_to_native_bytes h system_word =
     (case model_registry h of None \<Rightarrow> None
      | Some cfg \<Rightarrow>
          let clean_word = system_word AND cfg_mask cfg; byte_count = (cfg_bits cfg + 7) div 8
          in map_option (\<lambda>b. (b, cfg_protocol cfg)) (to_bytes_big byte_count clean_word))"

definition from_bytes :: "nat list \<Rightarrow> int" where
  "from_bytes bs = foldl (\<lambda>a b. 256 * a + int b) 0 bs"

lemma from_bytes_snoc: "from_bytes (bs @ [b]) = 256 * from_bytes bs + int b"
  by (simp add: from_bytes_def)

lemma from_to_bytes: "0 \<le> w \<Longrightarrow> w < 256 ^ n \<Longrightarrow> from_bytes (to_bytes n w) = w"
proof (induction n arbitrary: w)
  case (Suc n)
  then have "w div 256 < 256 ^ n" by simp
  with Suc show ?case by (simp add: from_bytes_snoc)
qed (simp add: from_bytes_def)

lemma to_bytes_length [simp]: "length (to_bytes n w) = n"
  by (induction n arbitrary: w) auto

lemma to_bytes_byte: "b \<in> set (to_bytes n w) \<Longrightarrow> b < 256"
  by (induction n arbitrary: w) auto

lemma and_bounds:
  fixes w m :: int
  assumes "0 \<le> m"
  shows "0 \<le> w AND m" "w AND m \<le> m"
  using assms by (simp_all add: AND_upper2)

lemma registry_cases:
  "model_registry h = Some cfg \<Longrightarrow>
     (\<exists>n. cfg_bits cfg = n \<and> cfg_mask cfg = mask n \<and> h \<noteq> ''1107'' \<and> h \<noteq> ''1108'' \<and> n > 0)
     \<or> (cfg_bits cfg = 36 \<and> cfg_mask cfg = 0xFFAAAAAA \<and> (h = ''1107'' \<or> h = ''1108''))"
  by (auto simp: model_registry_def mask_eq_exp_minus_1 split: if_splits)

lemma registry_fits:
  assumes "model_registry h = Some cfg"
  shows "0 \<le> cfg_mask cfg" "cfg_mask cfg < 256 ^ ((cfg_bits cfg + 7) div 8)"
  using assms by (auto simp: model_registry_def split: if_splits)

text \<open>Whatever models were requested before, valid or not, the active one is in the
  registry, so neither operation raises: the wire bytes are as many as the model's word needs,
  each a byte, and read back (big-endian) to the packed word, which is the input's low bits at
  the word width for every model but the two 36-bit ones.
\<close>

theorem hal_words_roundtrip:
  "\<exists>cfg bytes. let h = foldl (\<lambda>h m. fst (clear_interlocks_for_model h m)) hal_init ms in
     model_registry h = Some cfg
     \<and> unpack_64bit_to_native_bytes h w = Some (bytes, cfg_protocol cfg)
     \<and> length bytes = (cfg_bits cfg + 7) div 8 \<and> (\<forall>b \<in> set bytes. b < 256)
     \<and> pack_native_word_to_64bit h w = Some (from_bytes bytes)
     \<and> (h = ''1107'' \<or> h = ''1108'' \<or> from_bytes bytes = take_bit (cfg_bits cfg) w)"
proof -
  let ?h = "foldl (\<lambda>h m. fst (clear_interlocks_for_model h m)) hal_init ms"
  have step: "\<exists>cfg. model_registry h = Some cfg \<Longrightarrow> \<exists>cfg. model_registry (fst (clear_interlocks_for_model h m)) = Some cfg" for h m
    by (auto simp: clear_interlocks_for_model_def Let_def)
  have "\<exists>cfg. model_registry hal_init = Some cfg" by (simp add: hal_init_def model_registry_def)
  then have "\<exists>cfg. model_registry ?h = Some cfg"
    by (induction ms rule: rev_induct) (simp_all add: step)
  then obtain cfg where cfg: "model_registry ?h = Some cfg" by blast
  let ?w = "w AND cfg_mask cfg" and ?n = "(cfg_bits cfg + 7) div 8"
  have fits: "0 \<le> ?w" "?w < 256 ^ ?n"
    using registry_fits [OF cfg] and_bounds [of "cfg_mask cfg" w] by auto
  have "?h = ''1107'' \<or> ?h = ''1108'' \<or> ?w = take_bit (cfg_bits cfg) w"
    using registry_cases [OF cfg] by (auto simp: take_bit_eq_mask)
  then show ?thesis
    using fits cfg from_to_bytes [OF fits] to_bytes_byte
    by (intro exI [of _ cfg] exI [of _ "to_bytes ?n ?w"])
       (auto simp: Let_def unpack_64bit_to_native_bytes_def pack_native_word_to_64bit_def to_bytes_big_def)
qed

theorem hal_words_roundtrip_witness:
  "\<exists>cfg bytes. model_registry ''490'' = Some cfg \<and> unpack_64bit_to_native_bytes ''490'' 0x123456789 = Some (bytes, cfg_protocol cfg)
    \<and> length bytes = (cfg_bits cfg + 7) div 8 \<and> from_bytes bytes = take_bit (cfg_bits cfg) 0x123456789"
proof -
  have h: "foldl (\<lambda>h m. fst (clear_interlocks_for_model h m)) hal_init [''490''] = ''490''"
    by (simp add: clear_interlocks_for_model_def model_registry_def py_upper_def py_strip_def is_space_def upper_char_def)
  from hal_words_roundtrip [of "[''490'']" "0x123456789", unfolded h Let_def]
  show ?thesis by (elim exE conjE) (intro exI conjI; (assumption | simp))
qed

text \<open>The two 36-bit models do not carry their words: the mask has 32 bits and holes,
  so bits 32 to 35 and every even bit below 24 are lost on the wire, whatever the word.
\<close>

theorem scientific_words_truncated:
  assumes "h = ''1107'' \<or> h = ''1108''" and "pack_native_word_to_64bit h w = Some r"
  shows "bit r k \<longleftrightarrow> bit w k \<and> (24 \<le> k \<and> k < 32 \<or> odd k \<and> k < 24)"
proof -
  have r: "r = w AND 0xFFAAAAAA"
    using assms by (auto simp: pack_native_word_to_64bit_def model_registry_def)
  have "bit (0xFFAAAAAA :: int) k \<longleftrightarrow> 24 \<le> k \<and> k < 32 \<or> odd k \<and> k < 24"
  proof (cases "k < 32")
    case True
    have "list_all (\<lambda>k. bit (0xFFAAAAAA :: int) k \<longleftrightarrow> 24 \<le> k \<and> k < 32 \<or> odd k \<and> k < 24) [0..<32]"
      by code_simp
    with True show ?thesis by (simp add: list_all_iff)
  next
    case False
    have "bit (take_bit 32 (0xFFAAAAAA :: int)) k \<longleftrightarrow> k < 32 \<and> bit (0xFFAAAAAA :: int) k" by (rule bit_take_bit_iff)
    moreover have "take_bit 32 (0xFFAAAAAA :: int) = 0xFFAAAAAA" by simp
    ultimately show ?thesis using False by simp
  qed
  then show ?thesis by (simp add: r bit_and_iff)
qed

theorem scientific_words_truncated_witness:
  "pack_native_word_to_64bit ''1108'' (2 ^ 35 + 1) = Some 0 \<and> \<not> bit (0::int) 35"
proof -
  have "pack_native_word_to_64bit ''1108'' (2 ^ 35 + 1) = Some 0"
    by (simp add: pack_native_word_to_64bit_def model_registry_def)
  from this scientific_words_truncated [OF disjI2 [OF refl] this, of 35] show ?thesis by simp
qed

section \<open>CrayGrayCodeParserExtension\<close>

record gray_telemetry =
  raw_gray_word :: nat
  decoded_binary_integer :: nat
  calibrated_shaft_angle_deg :: real
  last_decode_timestamp :: real
  last_sync_timestamp :: "real option"

definition gray_init :: "real \<Rightarrow> gray_telemetry" where
  "gray_init now = \<lparr>raw_gray_word = 0, decoded_binary_integer = 0, calibrated_shaft_angle_deg = 0,
     last_decode_timestamp = now, last_sync_timestamp = None\<rparr>"

text \<open>The conversion loop: the binary integer and the shift register.\<close>

function gray_loop :: "nat \<Rightarrow> nat \<Rightarrow> nat" where
  "gray_loop binary_integer shift_register =
     (if shift_register div 2 = 0 then binary_integer
      else gray_loop (binary_integer XOR (shift_register div 2)) (shift_register div 2))"
  by auto
termination by (relation "measure snd") auto

declare gray_loop.simps [simp del]

definition decode_cray_gray_word :: "gray_telemetry \<Rightarrow> real \<Rightarrow> int \<Rightarrow> nat \<Rightarrow> gray_telemetry" where
  "decode_cray_gray_word g now raw bits_resolution =
     (let clean_gray = nat (raw AND (push_bit bits_resolution 1 - 1));
          binary_integer = gray_loop clean_gray clean_gray;
          max_counts = 2 ^ bits_resolution;
          angle_deg = real binary_integer / max_counts * 360
      in g\<lparr>raw_gray_word := clean_gray, decoded_binary_integer := binary_integer,
           calibrated_shaft_angle_deg := py_round 2 angle_deg, last_sync_timestamp := Some now\<rparr>)"

text \<open>The specification: the reflected code of a count, as the encoder disc carries it.\<close>

definition gray_encode :: "nat \<Rightarrow> nat" where
  "gray_encode v = v XOR (v div 2)"

function gray_sum :: "nat \<Rightarrow> nat" where
  "gray_sum s = (if s = 0 then 0 else s XOR gray_sum (s div 2))"
  by auto
termination by (relation "measure id") auto

declare gray_sum.simps [simp del]

lemma gray_sum_0 [simp]: "gray_sum 0 = 0"
  by (simp add: gray_sum.simps)

lemma gray_sum_rec: "gray_sum s = s XOR gray_sum (s div 2)"
  by (cases "s = 0") (simp_all add: gray_sum.simps [of s])

lemma gray_loop_sum: "gray_loop b s = b XOR gray_sum (s div 2)"
proof (induction b s rule: gray_loop.induct)
  case (1 b s)
  then show ?case
    by (cases "s div 2 = 0") (simp_all add: gray_loop.simps [of b s] gray_sum_rec [of "s div 2"] xor.assoc)
qed

lemma xor_div_2: "((a::nat) XOR b) div 2 = (a div 2) XOR (b div 2)"
  using drop_bit_xor [of 1 a b] by (simp add: drop_bit_eq_div)

lemma gray_sum_div_2: "gray_sum s div 2 = gray_sum (s div 2)"
proof (induction s rule: gray_sum.induct)
  case (1 s)
  show ?case
  proof (cases "s = 0")
    case False
    then have "gray_sum (s div 2) div 2 = gray_sum (s div 2 div 2)" using 1 by simp
    then show ?thesis using gray_sum_rec [of s] gray_sum_rec [of "s div 2"] by (simp add: xor_div_2)
  qed simp
qed

lemma gray_sum_xor: "gray_sum (a XOR b) = gray_sum a XOR gray_sum b"
proof (induction a arbitrary: b rule: gray_sum.induct)
  case (1 a)
  show ?case
  proof (cases "a = 0")
    case False
    have "gray_sum (a XOR b) = (a XOR b) XOR gray_sum ((a div 2) XOR (b div 2))"
      by (subst gray_sum_rec) (simp add: xor_div_2)
    also have "\<dots> = (a XOR b) XOR (gray_sum (a div 2) XOR gray_sum (b div 2))" using 1 False by simp
    also have "\<dots> = (a XOR gray_sum (a div 2)) XOR (b XOR gray_sum (b div 2))" by (simp add: ac_simps)
    finally show ?thesis by (simp flip: gray_sum_rec)
  qed simp
qed

lemma gray_sum_cancel: "gray_sum v XOR gray_sum (v div 2) = v"
  by (subst gray_sum_rec [of v]) (simp only: xor.assoc xor_self_eq xor.right_neutral)

lemma gray_sum_encode: "gray_sum (gray_encode v) = v"
  by (simp add: gray_encode_def gray_sum_xor gray_sum_cancel)

lemma gray_encode_sum: "gray_encode (gray_sum s) = s"
  by (simp add: gray_encode_def gray_sum_div_2 gray_sum_cancel)

lemma gray_sum_less: "s < 2 ^ n \<Longrightarrow> gray_sum s < 2 ^ n"
proof (induction n arbitrary: s)
  case (Suc n)
  then have "gray_sum s div 2 < 2 ^ n" using Suc.IH [of "s div 2"] by (simp add: gray_sum_div_2)
  then show ?case by simp
qed simp

lemma gray_mask: "nat (raw AND (2 ^ n - 1)) = nat (take_bit n raw)" for raw :: int
  by (simp add: take_bit_eq_mask mask_eq_exp_minus_1)

text \<open>Property C32. The decoder inverts the reflected code at any resolution: a disc position
  below \<open>2^n\<close>, sent as its Gray code with arbitrary bits above the resolution, decodes to that
  position and to its angle; conversely the decoded integer's code is always the masked input
  word, so two words that differ within the resolution never decode alike; and the angle is
  at least 0 and at most 360 degrees (360 itself only by rounding).
\<close>

theorem gray_decoder_inverts_code:
  "let d = decode_cray_gray_word g now raw n in
     gray_encode (decoded_binary_integer d) = raw_gray_word d \<and> raw_gray_word d = nat (take_bit n raw)
     \<and> decoded_binary_integer d < 2 ^ n
     \<and> 0 \<le> calibrated_shaft_angle_deg d \<and> calibrated_shaft_angle_deg d \<le> 360
     \<and> (raw_gray_word d = gray_encode v \<longrightarrow> decoded_binary_integer d = v
          \<and> calibrated_shaft_angle_deg d = py_round 2 (real v / 2 ^ n * 360))"
proof -
  let ?c = "nat (take_bit n raw)"
  have loop: "gray_loop c c = gray_sum c" for c
    using gray_loop_sum [of c c] gray_sum_rec [of c] by simp
  have "take_bit n raw < 2 ^ n" by (rule take_bit_int_less_exp)
  then have "?c < 2 ^ n" by (simp add: nat_less_iff)
  then have less: "gray_sum ?c < 2 ^ n" by (rule gray_sum_less)
  then have "real (gray_sum ?c) \<le> real (2 ^ n)" by (simp only: of_nat_le_iff less_imp_le)
  then have "real (gray_sum ?c) \<le> 2 ^ n" by simp
  then have "real (gray_sum ?c) / 2 ^ n * 360 \<le> 360" by (simp add: divide_le_eq)
  then have "py_round 2 (real (gray_sum ?c) / 2 ^ n * 360) \<le> 360" by (rule py_round_le [where k = 36000]) simp
  moreover have "0 \<le> py_round 2 (real (gray_sum ?c) / 2 ^ n * 360)" by (intro py_round_nonneg) simp
  ultimately show ?thesis
    using less by (auto simp: decode_cray_gray_word_def Let_def gray_mask loop gray_encode_sum gray_sum_encode)
qed

theorem gray_decoder_inverts_code_witness:
  "decoded_binary_integer (decode_cray_gray_word (gray_init 0) 1 (0b0100 + 16 * 3) 4) = 7"
proof -
  have "raw_gray_word (decode_cray_gray_word (gray_init 0) 1 (0b0100 + 16 * 3) 4) = gray_encode 7"
    by (simp add: decode_cray_gray_word_def gray_mask gray_encode_def Let_def)
  then show ?thesis using gray_decoder_inverts_code [of "gray_init 0" 1 "0b0100 + 16 * 3" 4 7] by (simp add: Let_def)
qed

section \<open>UnivacMacAlignmentEngine\<close>

definition vessel_oui_catalog :: "string \<rightharpoonup> string" where
  "vessel_oui_catalog =
     [''EARLY_AEGIS_CRUISER'' \<mapsto> ''00:00:A3'', ''EARLY_AEGIS_DESTROYER'' \<mapsto> ''00:01:4A'',
      ''ENTERPRISE_CARRIER'' \<mapsto> ''00:1D:6E'', ''PRE_AEGIS_COMBATTANT'' \<mapsto> ''00:50:2A'',
      ''PRE_AEGIS_AUXILIARY'' \<mapsto> ''00:D0:6B'']"

record alignment_state =
  target_vessel_class :: string
  computed_alignment_mac :: string
  hardware_lock_secured :: bool
  timestamp_synchronized :: real

definition alignment_init :: "real \<Rightarrow> alignment_state" where
  "alignment_init now = \<lparr>target_vessel_class = ''EARLY_AEGIS_DESTROYER'',
     computed_alignment_mac = ''00:01:4A:00:00:00'', hardware_lock_secured = False, timestamp_synchronized = now\<rparr>"

text \<open>The latch register: device bit, mainframe bit, and the copy of the device bit.\<close>

definition latch_octet :: "int \<Rightarrow> int \<Rightarrow> int" where
  "latch_octet device mainframe =
     (let bit_0 = device AND 1; bit_1 = mainframe AND 1; bit_2 = bit_0
      in push_bit 2 bit_2 OR push_bit 1 bit_1 OR bit_0)"

definition compute_lowest_possible_handshake_mac ::
    "string \<Rightarrow> real \<Rightarrow> int \<Rightarrow> int \<Rightarrow> int \<Rightarrow> int \<Rightarrow> alignment_state" where
  "compute_lowest_possible_handshake_mac vessel_class_key now device_id mainframe_id switch_depth switch_port =
     (let sanitized_key = py_strip (py_upper vessel_class_key);
          oui_prefix = dget vessel_oui_catalog sanitized_key ''00:00:A3'';
          bounded_device = clamp 0 14 device_id;
          bounded_mainframe = clamp 0 3 mainframe_id;
          bounded_depth = clamp 0 255 switch_depth;
          bounded_port = clamp 0 254 switch_port;
          bit_0 = bounded_device AND 1;
          bit_2 = bit_0;
          octet_6_val = latch_octet bounded_device bounded_mainframe;
          compiled_mac = oui_prefix @ '':'' @ fmt_02X (nat bounded_depth) @ '':'' @ fmt_02X (nat bounded_port)
                           @ '':'' @ fmt_02X (nat octet_6_val)
      in \<lparr>target_vessel_class = sanitized_key, computed_alignment_mac = compiled_mac,
          hardware_lock_secured = (bit_0 = bit_2), timestamp_synchronized = now\<rparr>)"

lemma and_1_mod_2: "(x::int) AND 1 = x mod 2"
  by (simp add: and_one_eq)

lemma latch_octet_cases: "latch_octet d m = 5 * (d mod 2) + 2 * (m mod 2)"
proof -
  have "d mod 2 = 0 \<or> d mod 2 = 1" "m mod 2 = 0 \<or> m mod 2 = 1" by presburger+
  then show ?thesis by (auto simp: latch_octet_def and_1_mod_2)
qed

lemma latch_octet_range: "latch_octet d m \<in> {0, 2, 5, 7}"
  unfolding latch_octet_cases by (simp, presburger)

lemma oui_length: "length (dget vessel_oui_catalog k ''00:00:A3'') = 8"
  by (auto simp: vessel_oui_catalog_def dget_def)

lemma fmt_02X_length: "n < 256 \<Longrightarrow> length (fmt_02X n) = 2"
  by (simp add: fmt_02X_byte)

lemma mac_split:
  "\<exists>pre. length pre = 15 \<and> (\<forall>t d. computed_alignment_mac (compute_lowest_possible_handshake_mac k t d m depth port) =
     pre @ fmt_02X (nat (latch_octet (clamp 0 14 d) (clamp 0 3 m))))"
proof -
  let ?o = "dget vessel_oui_catalog (py_strip (py_upper k)) ''00:00:A3''"
  let ?pre = "?o @ '':'' @ fmt_02X (nat (clamp 0 255 depth)) @ '':'' @ fmt_02X (nat (clamp 0 254 port)) @ '':''"
  have "nat (clamp 0 255 depth) < 256" "nat (clamp 0 254 port) < 256"
    using clamp_le [of "0 :: int" 255 depth] clamp_le [of "0 :: int" 254 port] by linarith+
  then have "length ?pre = 15" by (simp add: oui_length fmt_02X_length)
  then show ?thesis
    by (intro exI [of _ ?pre]) (simp add: compute_lowest_possible_handshake_mac_def Let_def)
qed

text \<open>The alignment address always has the seventeen characters of a MAC address,
  for any identifiers, and its last octet is 00, 02, 05 or 07: the device enters by its parity
  only, so for the same class, mainframe and route all even devices share one address and all
  odd ones another. The lock is reported secured for every input: it compares a bit with
  its own copy.
\<close>

theorem mac_address_shape:
  "let a = compute_lowest_possible_handshake_mac k now d m depth port in
     length (computed_alignment_mac a) = 17 \<and> hardware_lock_secured a
     \<and> drop 15 (computed_alignment_mac a) \<in> {''00'', ''02'', ''05'', ''07''}
     \<and> (\<forall>d'. clamp 0 14 d mod 2 = clamp 0 14 d' mod 2 \<longrightarrow>
          computed_alignment_mac (compute_lowest_possible_handshake_mac k now' d' m depth port) = computed_alignment_mac a)"
proof -
  let ?l = "latch_octet (clamp 0 14 d) (clamp 0 3 m)"
  have "?l \<in> {0, 2, 5, 7}" by (rule latch_octet_range)
  then have hex: "fmt_02X (nat ?l) \<in> {''00'', ''02'', ''05'', ''07''}" "nat ?l < 256"
    by (auto simp: fmt_02X_byte hex_digit_def)
  obtain pre where pre: "length pre = 15" "\<And>t d. computed_alignment_mac (compute_lowest_possible_handshake_mac k t d m depth port) =
     pre @ fmt_02X (nat (latch_octet (clamp 0 14 d) (clamp 0 3 m)))"
    using mac_split [of k m depth port] by blast
  have "hardware_lock_secured (compute_lowest_possible_handshake_mac k now d m depth port)"
    by (simp add: compute_lowest_possible_handshake_mac_def Let_def)
  then show ?thesis using hex pre(1) by (simp add: pre(2) fmt_02X_length latch_octet_cases)
qed

theorem mac_address_shape_witness:
  "computed_alignment_mac (compute_lowest_possible_handshake_mac ''ENTERPRISE_CARRIER'' 0 3 1 1 42)
     = computed_alignment_mac (compute_lowest_possible_handshake_mac ''ENTERPRISE_CARRIER'' 0 1 1 1 42)"
proof -
  have "clamp 0 14 (1::int) mod 2 = clamp 0 14 (3::int) mod 2" by (simp add: clamp_def)
  with mac_address_shape [of "''ENTERPRISE_CARRIER''" 0 1 1 1 42 0, unfolded Let_def] show ?thesis by blast
qed

section \<open>HardwareNetworkValidatorEngine\<close>

text \<open>\<open>bytes.fromhex\<close>: pairs of hexadecimal digits, white space allowed between pairs.\<close>

fun fromhex :: "string \<Rightarrow> nat list option" where
  "fromhex [] = Some []"
| "fromhex [c] = (if is_space c then Some [] else None)"
| "fromhex (c # d # cs) =
     (if is_space c then fromhex (d # cs)
      else if is_hex c \<and> is_hex d then map_option ((#) (16 * hex_val c + hex_val d)) (fromhex cs)
      else None)"

text \<open>
  The raw socket: the answer to a frame, or the exception the send or the receive raised.
\<close>

datatype socket_answer = Echo "nat list" | Permission_Denied | Timed_Out | Driver_Error

type_synonym oui_registry = "(string \<times> string) list"

text \<open>The address and the frame; \<open>None\<close> where \<open>fromhex\<close> raises.\<close>

definition handshake_mac :: "string \<Rightarrow> int \<Rightarrow> int \<Rightarrow> nat list option" where
  "handshake_mac oui_string target_device_id target_mainframe_id =
     map_option (\<lambda>oui_bytes. oui_bytes @ [0x00, 0x01, nat (latch_octet target_device_id target_mainframe_id)])
       (fromhex (filter (\<lambda>c. c \<noteq> CHR '':'') oui_string))"

definition handshake_payload :: "string \<Rightarrow> string" where
  "handshake_payload vessel_class_key =
     (let mock_payload_data = ''PUNVCHND,VERIFY_LINK_ID,'' @ py_upper vessel_class_key @ ''*''
      in mock_payload_data @ fmt_02X (xor_checksum mock_payload_data) @ [CHR 0x0D, CHR 0x0A])"

definition handshake_frame :: "nat list \<Rightarrow> string \<Rightarrow> nat list" where
  "handshake_frame mac vessel_class_key = mac @ replicate 6 0 @ [0x88, 0xB5] @ map ord (handshake_payload vessel_class_key)"

text \<open>
  \<open>wire\<close> is the network card: the answer it gives to a frame. On Windows (\<open>nt\<close>) nothing is
  sent. The outer \<open>None\<close> is the \<open>ValueError\<close> of a malformed prefix, which is not caught.
\<close>

definition verify_tactical_handshake_frame ::
    "bool \<Rightarrow> (nat list \<Rightarrow> socket_answer) \<Rightarrow> oui_registry \<Rightarrow> string \<Rightarrow> int \<Rightarrow> int \<Rightarrow> bool option" where
  "verify_tactical_handshake_frame nt wire registry vessel_class_key target_device_id target_mainframe_id =
     (case map_of registry (py_strip (py_lower vessel_class_key)) of
        None \<Rightarrow> Some False
      | Some oui_string \<Rightarrow>
          (case handshake_mac oui_string target_device_id target_mainframe_id of
             None \<Rightarrow> None
           | Some mac \<Rightarrow> Some
               (if nt then True
                else case wire (handshake_frame mac vessel_class_key) of
                       Echo inbound_packet \<Rightarrow> take 6 inbound_packet = mac
                     | _ \<Rightarrow> False)))"

fun audit_classes :: "(string \<Rightarrow> bool option) \<Rightarrow> string list \<Rightarrow> bool \<Rightarrow> bool option" where
  "audit_classes check [] suite_passed = Some suite_passed"
| "audit_classes check (k # ks) suite_passed =
     (case check k of None \<Rightarrow> None | Some ok \<Rightarrow> audit_classes check ks (suite_passed \<and> ok))"

definition execute_complete_network_matrix_audit ::
    "bool \<Rightarrow> (nat list \<Rightarrow> socket_answer) \<Rightarrow> oui_registry \<Rightarrow> bool option" where
  "execute_complete_network_matrix_audit nt wire registry =
     audit_classes (\<lambda>k. verify_tactical_handshake_frame nt wire registry k 1 0) (map fst registry) True"

lemma audit_classes_eq:
  "audit_classes check ks b = Some r \<Longrightarrow> r \<longleftrightarrow> b \<and> (\<forall>k \<in> set ks. check k = Some True)"
  by (induction ks arbitrary: b) (auto split: option.splits)

text \<open>The validator and the alignment engine agree on the latch: for identifiers in
  the engine's range the sixth byte the validator puts in its destination address is the
  number written in the engine's sixth octet. On a real interface a class passes only if the
  echo's first bytes are that address, so a perfect loopback of well-formed three-byte
  prefixes passes the whole audit, and an audit that passes has seen such an echo for
  every class it found.
\<close>

theorem handshake_audit_sound:
  assumes "0 \<le> dv" "dv \<le> 14" "0 \<le> mf" "mf \<le> 3" and "fromhex (filter (\<lambda>c. c \<noteq> CHR '':'') oui) = Some ob" "length ob = 3"
    and audit: "execute_complete_network_matrix_audit False wire registry = Some True" "key \<in> fst ` set registry"
  shows "(\<exists>mac. handshake_mac oui dv mf = Some mac \<and> length mac = 6
        \<and> fmt_02X (mac ! 5) = drop 15 (computed_alignment_mac (compute_lowest_possible_handshake_mac k now dv mf depth port)))
    \<and> (\<exists>mac0 inbound frame. wire frame = Echo inbound \<and> take 6 inbound = mac0 \<and> take (length mac0) frame = mac0
         \<and> (\<exists>p. map_of registry (py_strip (py_lower key)) = Some p \<and> handshake_mac p 1 0 = Some mac0))"
proof (intro conjI)
  obtain pre where pre: "length pre = 15" "computed_alignment_mac (compute_lowest_possible_handshake_mac k now dv mf depth port) =
     pre @ fmt_02X (nat (latch_octet (clamp 0 14 dv) (clamp 0 3 mf)))"
    using mac_split [of k mf depth port] by blast
  show "\<exists>mac. handshake_mac oui dv mf = Some mac \<and> length mac = 6
      \<and> fmt_02X (mac ! 5) = drop 15 (computed_alignment_mac (compute_lowest_possible_handshake_mac k now dv mf depth port))"
    using assms(1-6) pre by (simp add: handshake_mac_def nth_append)
  have "verify_tactical_handshake_frame False wire registry key 1 0 = Some True"
    using audit_classes_eq [OF audit(1) [unfolded execute_complete_network_matrix_audit_def]] audit(2) by auto
  then obtain p mac inbound where "map_of registry (py_strip (py_lower key)) = Some p" "handshake_mac p 1 0 = Some mac"
    "wire (handshake_frame mac key) = Echo inbound" "take 6 inbound = mac"
    by (auto simp: verify_tactical_handshake_frame_def split: option.splits socket_answer.splits)
  moreover have "take (length mac) (handshake_frame mac key) = mac" by (simp add: handshake_frame_def)
  ultimately show "\<exists>mac0 inbound frame. wire frame = Echo inbound \<and> take 6 inbound = mac0 \<and> take (length mac0) frame = mac0
      \<and> (\<exists>p. map_of registry (py_strip (py_lower key)) = Some p \<and> handshake_mac p 1 0 = Some mac0)"
    by blast
qed

theorem handshake_audit_sound_witness:
  "\<exists>mac. handshake_mac ''00:00:A3'' 1 0 = Some mac
     \<and> fmt_02X (mac ! 5) = drop 15 (computed_alignment_mac (compute_lowest_possible_handshake_mac ''EARLY_AEGIS_CRUISER'' 0 1 0 0 1))"
proof -
  have key: "py_strip (py_lower ''cg'') = ''cg''" by (simp add: py_lower_def py_strip_def is_space_def)
  have hex: "fromhex (filter (\<lambda>c. c \<noteq> CHR '':'') ''00:00:A3'') = Some [0, 0, 0xA3]"
    by (simp add: is_space_def is_hex_def is_digit_def hex_val_def)
  then have "handshake_mac ''00:00:A3'' 1 0 = Some [0, 0, 0xA3, 0, 1, 5]"
    by (simp add: handshake_mac_def latch_octet_cases)
  then have "execute_complete_network_matrix_audit False Echo [(''cg'', ''00:00:A3'')] = Some True"
    by (simp add: execute_complete_network_matrix_audit_def verify_tactical_handshake_frame_def key handshake_frame_def)
  from handshake_audit_sound [OF _ _ _ _ hex _ this, of 1 0 "''cg''" "''EARLY_AEGIS_CRUISER''" 0 0 1] show ?thesis by auto
qed

section \<open>HexadecimalSpectrumModulator\<close>

record spectrum_cache =
  analog_input_flux_lumen :: real
  hex_crest_trough_snippet :: string
  quantized_voltage_output :: real
  signal_saturation_alert :: bool
  timestamp_packet_resolved :: real

definition modulator_init :: "real \<Rightarrow> spectrum_cache" where
  "modulator_init now = \<lparr>analog_input_flux_lumen = 0, hex_crest_trough_snippet = ''0x0'', quantized_voltage_output = 0,
     signal_saturation_alert = False, timestamp_packet_resolved = now\<rparr>"

definition quantized_step :: "real \<Rightarrow> nat" where
  "quantized_step flux = nat \<lfloor>clamp 0 100 flux / 100 * 15\<rfloor>"

definition modulate_flux_to_hex_spectrum :: "real \<Rightarrow> real \<Rightarrow> real \<Rightarrow> spectrum_cache" where
  "modulate_flux_to_hex_spectrum voltage_ceiling now calculated_photon_flux =
     (let normalized_flux = clamp 0 100 calculated_photon_flux;
          step = quantized_step calculated_photon_flux;
          resolved_voltage = real step / 15 * voltage_ceiling
      in \<lparr>analog_input_flux_lumen = py_round 2 normalized_flux, hex_crest_trough_snippet = ''0x'' @ hex_str step,
          quantized_voltage_output = py_round 3 resolved_voltage, signal_saturation_alert = (step \<ge> 14),
          timestamp_packet_resolved = now\<rparr>)"

lemma quantized_step_le: "quantized_step x \<le> 15"
proof -
  have "clamp 0 100 x \<le> 100" by simp
  then have "clamp 0 100 x / 100 * 15 < of_int 15 + 1" by linarith
  then have "\<lfloor>clamp 0 100 x / 100 * 15\<rfloor> \<le> 15" by (simp only: floor_le_iff)
  then show ?thesis by (simp add: quantized_step_def nat_le_iff)
qed

lemma quantized_step_mono: "x \<le> y \<Longrightarrow> quantized_step x \<le> quantized_step y"
  using clamp_mono [of x y 0 100] by (auto simp: quantized_step_def intro!: nat_mono floor_mono)

text \<open>For every flux, in or out of range, the token is one hexadecimal digit, both
  token and voltage grow with the flux, the voltage stays between 0 and the ceiling (the
  ceiling being given to the millivolt), and the saturation alert is raised exactly from 93.3 lumen on
  (the fourteenth of fifteen steps).
\<close>

theorem modulator_monotone_and_bounded:
  assumes "0 \<le> c" "c * 10 ^ 3 = of_int n" "x \<le> y"
  shows "let a = modulate_flux_to_hex_spectrum c now x; b = modulate_flux_to_hex_spectrum c now y in
    hex_crest_trough_snippet a = ''0x'' @ [hex_digit (quantized_step x)] \<and> quantized_step x \<le> quantized_step y
    \<and> 0 \<le> quantized_voltage_output a \<and> quantized_voltage_output a \<le> quantized_voltage_output b
    \<and> quantized_voltage_output b \<le> c \<and> (signal_saturation_alert a \<longleftrightarrow> 1400 / 15 \<le> x)"
proof -
  have hex: "hex_str n = [hex_digit n]" if "n \<le> 15" for n
    using that by (simp add: hex_str.simps)
  have volt: "real (quantized_step x) / 15 * c \<le> real (quantized_step y) / 15 * c"
    using assms(1) quantized_step_mono [OF assms(3)] by (intro mult_right_mono divide_right_mono) auto
  have "real (quantized_step y) / 15 * c \<le> 1 * c"
    using assms(1) quantized_step_le [of y] by (intro mult_right_mono) auto
  then have top: "real (quantized_step y) / 15 * c \<le> c" by simp
  have "14 \<le> quantized_step x \<longleftrightarrow> 14 \<le> clamp 0 100 x / 100 * 15"
    by (simp add: quantized_step_def le_nat_iff le_floor_iff)
  also have "\<dots> \<longleftrightarrow> 1400 / 15 \<le> clamp 0 100 x" by (simp add: field_simps)
  also have "\<dots> \<longleftrightarrow> 1400 / 15 \<le> x" by (auto simp: clamp_def min_def max_def)
  finally have alert: "14 \<le> quantized_step x \<longleftrightarrow> 1400 / 15 \<le> x" .
  have "0 \<le> py_round 3 (real (quantized_step x) / 15 * c)"
    using assms(1) by (intro py_round_nonneg mult_nonneg_nonneg) auto
  moreover have "py_round 3 (real (quantized_step x) / 15 * c) \<le> py_round 3 (real (quantized_step y) / 15 * c)"
    using volt by (rule py_round_mono)
  moreover have "py_round 3 (real (quantized_step y) / 15 * c) \<le> c" using top assms(2) by (rule py_round_le)
  ultimately show ?thesis
    using hex [OF quantized_step_le [of x]] quantized_step_mono [OF assms(3)] alert
    by (simp add: modulate_flux_to_hex_spectrum_def Let_def)
qed

theorem modulator_monotone_and_bounded_witness:
  "quantized_voltage_output (modulate_flux_to_hex_spectrum 4 0 98.5) \<le> 4"
  using modulator_monotone_and_bounded [of 4 4000 0 "98.5" 0] by (simp add: Let_def)

end
