(* ===== verification/Config_Tcp.thy ===== *)
theory Config_Tcp
  imports Py_Text
begin

text \<open>
  What enters the bridge as JSON: the vessel profile on disk (\<open>VesselConfigManager\<close>) and the
  target commands of the TCP server (\<open>JsonTcpCommandListener\<close>). A JSON document is the value
  \<open>json.loads\<close> returns; the parser itself is a parameter \<open>loads\<close> (\<open>None\<close> is the
  \<open>JSONDecodeError\<close>). Exceptions the code catches are branches; exceptions it lets escape are
  \<open>Exn\<close> with the exception's name. Text is decoded chunk by chunk before it gets here.
\<close>

section \<open>JSON values in Python\<close>

datatype json =
    JNull
  | JBool bool
  | JInt int
  | JNum pynum
  | JStr string
  | JArr "json list"
  | JObj "(string \<times> json) list"

datatype 'a outcome = Ret 'a | Exn string

fun type_name :: "json \<Rightarrow> string" where
  "type_name JNull = ''NoneType''"
| "type_name (JBool b) = ''bool''"
| "type_name (JInt i) = ''int''"
| "type_name (JNum x) = ''float''"
| "type_name (JStr s) = ''str''"
| "type_name (JArr xs) = ''list''"
| "type_name (JObj kvs) = ''dict''"

text \<open>\<open>float(v)\<close>; an integer beyond the range of doubles is an \<open>OverflowError\<close>.\<close>

fun to_float :: "json \<Rightarrow> pynum outcome" where
  "to_float (JBool b) = Ret (Fin (if b then 1 else 0))"
| "to_float (JInt i) = (if \<bar>of_int i\<bar> < float_limit then Ret (Fin (of_int i)) else Exn ''OverflowError'')"
| "to_float (JNum x) = Ret x"
| "to_float (JStr s) = (case py_float s of None \<Rightarrow> Exn ''ValueError'' | Some x \<Rightarrow> Ret x)"
| "to_float v = Exn ''TypeError''"

text \<open>\<open>lo <= x <= hi\<close>: false for \<open>nan\<close> and the infinities.\<close>

fun between :: "real \<Rightarrow> real \<Rightarrow> pynum \<Rightarrow> bool" where
  "between lo hi (Fin x) \<longleftrightarrow> lo \<le> x \<and> x \<le> hi"
| "between lo hi _ \<longleftrightarrow> False"

lemma between_Fin: "between lo hi p \<longleftrightarrow> (\<exists>x. p = Fin x \<and> lo \<le> x \<and> x \<le> hi)"
  by (cases p) auto

text \<open>\<open>key in v\<close>; \<open>None\<close> is the \<open>TypeError\<close> of a value that is no container.\<close>

fun substring :: "string \<Rightarrow> string \<Rightarrow> bool" where
  "substring p [] \<longleftrightarrow> p = []"
| "substring p (c # s) \<longleftrightarrow> starts_with (c # s) p \<or> substring p s"

fun contains_key :: "json \<Rightarrow> string \<Rightarrow> bool option" where
  "contains_key (JObj kvs) k = Some (k \<in> set (map fst kvs))"
| "contains_key (JArr xs) k = Some (JStr k \<in> set xs)"
| "contains_key (JStr s) k = Some (substring k s)"
| "contains_key v k = None"

text \<open>\<open>v[key]\<close> for a key known to be in \<open>v\<close>: only a dictionary can be indexed by a string.\<close>

fun json_item :: "json \<Rightarrow> string \<Rightarrow> json outcome" where
  "json_item (JObj kvs) k = (case map_of kvs k of None \<Rightarrow> Exn ''KeyError'' | Some v \<Rightarrow> Ret v)"
| "json_item v k = Exn ''TypeError''"

section \<open>VesselConfigManager\<close>

type_synonym profile = "(string \<times> pynum) list"

definition fallback_profile :: profile where
  "fallback_profile =
     [(''diameter'', Fin 3.4), (''inertia_prop'', Fin 500), (''inertia_roll'', Fin 850000), (''inertia_yaw'', Fin 4500000),
      (''draft'', Fin 6.5), (''rudder_arm_z'', Fin 2.8), (''max_torque'', Fin 90000), (''max_rudder_deg'', Fin 35),
      (''hull_length'', Fin 45), (''beam'', Fin 9.5)]"

definition quote_key :: "string \<Rightarrow> string" where
  "quote_key k = [CHR 0x27] @ k @ [CHR 0x27]"

text \<open>The four range checks, in order: the key, its bounds and the message of a violation.\<close>

definition range_checks :: "(string \<times> real \<times> real \<times> string) list" where
  "range_checks =
     [(''diameter'', 0.5, 15, ''Parameter '' @ quote_key ''diameter'' @ '' bounds exception [0.5m - 15.0m]''),
      (''draft'', 1, 25, ''Parameter '' @ quote_key ''draft'' @ '' bounds exception [1.0m - 25.0m]''),
      (''max_rudder_deg'', 5, 70,
         ''Parameter '' @ quote_key ''max_rudder_deg'' @ '' bounds exception [5.0'' @ [CHR 0xB0] @ '' - 70.0'' @ [CHR 0xB0] @ '']''),
      (''max_torque'', 100, 500000, ''Parameter '' @ quote_key ''max_torque'' @ '' bounds exception [100Nm - 500kNm]'')]"

definition type_mismatch :: string where
  "type_mismatch = ''Type mismatch error: One or more fields contain non-numeric data structures.''"

fun run_checks :: "json \<Rightarrow> (string \<times> real \<times> real \<times> string) list \<Rightarrow> (bool \<times> string) outcome" where
  "run_checks d [] = Ret (True, ''Profile passed validation gates.'')"
| "run_checks d ((k, lo, hi, msg) # cs) =
     (case json_item d k of
        Exn e \<Rightarrow> if e = ''TypeError'' then Ret (False, type_mismatch) else Exn e
      | Ret v \<Rightarrow>
          (case to_float v of
             Exn e \<Rightarrow> if e = ''ValueError'' \<or> e = ''TypeError'' then Ret (False, type_mismatch) else Exn e
           | Ret x \<Rightarrow> if \<not> between lo hi x then Ret (False, msg) else run_checks d cs))"

fun missing_key :: "json \<Rightarrow> string list \<Rightarrow> (string option) outcome" where
  "missing_key d [] = Ret None"
| "missing_key d (k # ks) =
     (case contains_key d k of
        None \<Rightarrow> Exn ''TypeError''
      | Some b \<Rightarrow> if b then missing_key d ks else Ret (Some k))"

definition validate_profile_parameters :: "json \<Rightarrow> (bool \<times> string) outcome" where
  "validate_profile_parameters raw_data =
     (case missing_key raw_data (map fst fallback_profile) of
        Exn e \<Rightarrow> Exn e
      | Ret (Some k) \<Rightarrow> Ret (False, ''Missing critical structural token: '' @ quote_key k)
      | Ret None \<Rightarrow> run_checks raw_data range_checks)"

fun float_items :: "(string \<times> json) list \<Rightarrow> profile outcome" where
  "float_items [] = Ret []"
| "float_items ((k, v) # kvs) =
     (case to_float v of Exn e \<Rightarrow> Exn e
      | Ret x \<Rightarrow> (case float_items kvs of Exn e \<Rightarrow> Exn e | Ret p \<Rightarrow> Ret ((k, x) # p)))"

text \<open>What is at the configuration path when the loader looks.\<close>

datatype config_file = Missing | Unreadable | Malformed | Document json

text \<open>
  \<open>None\<close> in the second component: nothing is written. A missing file is created from the
  fallback when the disk allows it (\<open>writable\<close>). The exceptions of the comprehension are
  not among those the loader catches.
\<close>

definition load_system_specifications :: "bool \<Rightarrow> config_file \<Rightarrow> profile outcome \<times> profile option" where
  "load_system_specifications writable f =
     (case f of
        Missing \<Rightarrow> (Ret fallback_profile, if writable then Some fallback_profile else None)
      | Unreadable \<Rightarrow> (Ret fallback_profile, None)
      | Malformed \<Rightarrow> (Ret fallback_profile, None)
      | Document loaded_json \<Rightarrow>
          ((case validate_profile_parameters loaded_json of
              Exn e \<Rightarrow> Exn e
            | Ret (is_valid, _) \<Rightarrow>
                if is_valid
                then (case loaded_json of JObj kvs \<Rightarrow> float_items kvs | _ \<Rightarrow> Exn ''AttributeError'')
                else Ret fallback_profile), None))"

section \<open>Loading never yields an unsafe profile\<close>

definition in_bounds :: "profile \<Rightarrow> bool" where
  "in_bounds p \<longleftrightarrow> (\<forall>(k, lo, hi, msg) \<in> set range_checks. \<exists>x. map_of p k = Some (Fin x) \<and> lo \<le> x \<and> x \<le> hi)
     \<and> (\<forall>k \<in> set (map fst fallback_profile). map_of p k \<noteq> None)"

lemma run_checks_True:
  "run_checks d cs = Ret (True, m) \<Longrightarrow> (k, lo, hi, msg) \<in> set cs \<Longrightarrow>
     \<exists>kvs v x. d = JObj kvs \<and> map_of kvs k = Some v \<and> to_float v = Ret (Fin x) \<and> lo \<le> x \<and> x \<le> hi"
proof (induction cs)
  case (Cons c cs)
  obtain k' lo' hi' msg' where c: "c = (k', lo', hi', msg')" by (cases c)
  from Cons.prems(1) obtain v x where v: "json_item d k' = Ret v" "to_float v = Ret x" "between lo' hi' x"
    "run_checks d cs = Ret (True, m)"
    by (auto simp: c split: outcome.splits if_splits)
  from v(1) obtain kvs where "d = JObj kvs" "map_of kvs k' = Some v" by (cases d) (auto split: option.splits)
  with v Cons show ?case by (auto simp: c between_Fin)
qed simp

lemma float_items_map_of: "float_items kvs = Ret p \<Longrightarrow>
    map_of p k = (case map_of kvs k of None \<Rightarrow> None | Some v \<Rightarrow> (case to_float v of Ret x \<Rightarrow> Some x | Exn e \<Rightarrow> None))"
  by (induction kvs arbitrary: p) (auto split: outcome.splits option.splits)

lemma missing_key_None: "missing_key (JObj kvs) ks = Ret None \<Longrightarrow> k \<in> set ks \<Longrightarrow> map_of kvs k \<noteq> None"
  by (induction ks) (auto simp: map_of_eq_None_iff split: if_splits)

lemma float_items_defined: "float_items kvs = Ret p \<Longrightarrow> map_of kvs k = Some v \<Longrightarrow> \<exists>x. to_float v = Ret x"
  by (induction kvs arbitrary: p) (auto split: outcome.splits if_splits)

lemma fallback_in_bounds: "in_bounds fallback_profile"
  by (simp add: in_bounds_def range_checks_def fallback_profile_def)
     (intro conjI exI [of _ "3.4"] exI [of _ "6.5"]; simp)

lemma document_in_bounds:
  assumes "validate_profile_parameters (JObj kvs) = Ret (True, m)" "float_items kvs = Ret p"
  shows "in_bounds p"
proof -
  have chk: "run_checks (JObj kvs) range_checks = Ret (True, m)" "missing_key (JObj kvs) (map fst fallback_profile) = Ret None"
    using assms(1) by (auto simp: validate_profile_parameters_def split: outcome.splits option.splits)
  have "\<exists>x. map_of p k = Some (Fin x) \<and> lo \<le> x \<and> x \<le> hi" if "(k, lo, hi, msg) \<in> set range_checks" for k lo hi msg
    using run_checks_True [OF chk(1) that] float_items_map_of [OF assms(2), of k] by auto
  moreover have "map_of p k \<noteq> None" if "k \<in> set (map fst fallback_profile)" for k
    using missing_key_None [OF chk(2) that] float_items_map_of [OF assms(2), of k] float_items_defined [OF assms(2), of k] by auto
  ultimately show ?thesis by (auto simp: in_bounds_def)
qed

lemma loader_in_bounds: "load_system_specifications writable f = (Ret p, w) \<Longrightarrow> in_bounds p"
  using document_in_bounds fallback_in_bounds
  by (fastforce simp: load_system_specifications_def split: config_file.splits outcome.splits if_splits json.splits)


definition sample_document :: "json \<Rightarrow> json" where
  "sample_document v = JObj (map (\<lambda>(k, x). (k, if k = ''beam'' then v else JNum x)) fallback_profile)"


text \<open>
  The default file as the next boot finds it: \<open>json.dump\<close> writes a float so that \<open>json.load\<close> reads the
  same float back. A failed write leaves the path as it was.
\<close>

definition generate_default_config_file :: "bool \<Rightarrow> config_file \<Rightarrow> config_file" where
  "generate_default_config_file writable f =
     (if writable then Document (JObj (map (\<lambda>(k, x). (k, JNum x)) fallback_profile)) else f)"

definition file_after_load :: "bool \<Rightarrow> config_file \<Rightarrow> config_file" where
  "file_after_load writable f = (if f = Missing then generate_default_config_file writable f else f)"

text \<open>The loader leaves a file behind from which every later boot loads what this one did, whatever it found.\<close>

theorem reboot_loads_same_profile:
  "fst (load_system_specifications writable' (file_after_load writable f)) = fst (load_system_specifications writable f)"
proof (cases "f = Missing \<and> writable")
  case True
  let ?d = "JObj (map (\<lambda>(k, x). (k, JNum x)) fallback_profile)"
  have "validate_profile_parameters ?d = Ret (True, ''Profile passed validation gates.'')"
    by (simp add: validate_profile_parameters_def fallback_profile_def range_checks_def)
  moreover have "float_items (map (\<lambda>(k, x). (k, JNum x)) p) = Ret p" for p
    by (induction p) auto
  ultimately show ?thesis
    using True by (simp add: load_system_specifications_def file_after_load_def generate_default_config_file_def)
qed (auto simp: load_system_specifications_def file_after_load_def generate_default_config_file_def split: config_file.split)
text \<open>The loader's promise to fall back safely has a gap: fields other than the four
  checked ones are not validated but are converted, so a document with all keys, good bounds
  and one such field of text that is not a number makes the loader raise instead of falling
  back, and one such field of \<open>nan\<close> is accepted into the active profile.
\<close>

theorem loader_gap:
  "load_system_specifications writable (Document (sample_document (JStr ''wide''))) = (Exn ''ValueError'', None)
   \<and> (\<exists>p. load_system_specifications writable (Document (sample_document (JNum NaN))) = (Ret p, None)
        \<and> map_of p ''beam'' = Some NaN)"
proof (intro conjI exI)
  have wide: "py_float ''wide'' = None"
    by (simp add: py_float_def py_strip_def is_space_def is_digit_def split_sign_def py_lower_def read_decimal_def)
  have chk: "validate_profile_parameters (sample_document v) = Ret (True, ''Profile passed validation gates.'')" for v
    by (simp add: validate_profile_parameters_def sample_document_def fallback_profile_def range_checks_def)
  show "load_system_specifications writable (Document (sample_document (JStr ''wide''))) = (Exn ''ValueError'', None)"
    unfolding load_system_specifications_def config_file.case chk
    by (simp add: sample_document_def fallback_profile_def wide)
  show "load_system_specifications writable (Document (sample_document (JNum NaN))) =
      (Ret (map (\<lambda>(k, x). (k, if k = ''beam'' then NaN else x)) fallback_profile), None)"
    unfolding load_system_specifications_def config_file.case chk
    by (simp add: sample_document_def fallback_profile_def)
  show "map_of (map (\<lambda>(k, x). (k, if k = ''beam'' then NaN else x)) fallback_profile) ''beam'' = Some NaN"
    by (simp add: fallback_profile_def)
qed

section \<open>JsonTcpCommandListener\<close>

record setpoints =
  sp_rpm :: real
  sp_yaw :: real

definition setpoints_init :: setpoints where
  "setpoints_init = \<lparr>sp_rpm = 0, sp_yaw = 0\<rparr>"

text \<open>\<open>payload.get(key)\<close>: only dictionaries have it.\<close>

fun json_get :: "json \<Rightarrow> string \<Rightarrow> json outcome" where
  "json_get (JObj kvs) k = Ret (case map_of kvs k of None \<Rightarrow> JNull | Some v \<Rightarrow> v)"
| "json_get v k = Exn ''AttributeError''"

text \<open>\<open>lo <= v <= hi\<close> on a JSON value; \<open>None\<close> is the \<open>TypeError\<close>.\<close>

fun json_between :: "real \<Rightarrow> real \<Rightarrow> json \<Rightarrow> bool option" where
  "json_between lo hi (JBool b) = Some (between lo hi (Fin (if b then 1 else 0)))"
| "json_between lo hi (JInt i) = Some (between lo hi (Fin (of_int i)))"
| "json_between lo hi (JNum x) = Some (between lo hi x)"
| "json_between lo hi v = None"

definition compare_error :: "json \<Rightarrow> string" where
  "compare_error v = ''REJECTED: Invalid value type formatting error: '' @ quote_key ''<=''
     @ '' not supported between instances of '' @ quote_key ''float'' @ '' and '' @ quote_key (type_name v)"

definition json_real :: "json \<Rightarrow> real" where
  "json_real v = (case to_float v of Ret (Fin x) \<Rightarrow> x | _ \<Rightarrow> 0)"

definition validate_and_update_targets :: "setpoints \<Rightarrow> json \<Rightarrow> (setpoints \<times> bool \<times> string) outcome" where
  "validate_and_update_targets s json_payload =
     (case (json_get json_payload ''rpm'', json_get json_payload ''target_yaw_rate'') of
        (Ret new_rpm, Ret new_yaw_rate) \<Rightarrow> Ret
          (if new_rpm = JNull \<or> new_yaw_rate = JNull
           then (s, False, ''REJECTED: Missing required key '' @ quote_key ''rpm'' @ '' or '' @ quote_key ''target_yaw_rate'')
           else case json_between (- 200) 1200 new_rpm of
             None \<Rightarrow> (s, False, compare_error new_rpm)
           | Some False \<Rightarrow> (s, False, ''REJECTED: Requested RPM out of structural design range (-200 to 1200)'')
           | Some True \<Rightarrow>
               (case json_between (- 0.8) 0.8 new_yaw_rate of
                  None \<Rightarrow> (s, False, compare_error new_yaw_rate)
                | Some False \<Rightarrow> (s, False, ''REJECTED: Requested turning rate exceeds physical rudder capability'')
                | Some True \<Rightarrow> (\<lparr>sp_rpm = json_real new_rpm, sp_yaw = json_real new_yaw_rate\<rparr>, True,
                                ''ACCEPTED: Targets updated successfully'')))
      | _ \<Rightarrow> Exn ''AttributeError'')"

definition get_latest_targets :: "setpoints \<Rightarrow> setpoints" where
  "get_latest_targets s = s"

text \<open>
  A client connection: its line buffer, whether its handler still runs, and the status frames
  sent back. The targets are the server's.
\<close>

record connection =
  buffer :: string
  open_link :: bool
  replies :: "(bool \<times> string) list"

definition connection_init :: connection where
  "connection_init = \<lparr>buffer = [], open_link = True, replies = []\<rparr>"

text \<open>One complete line; an exception escaping the validator ends the handler.\<close>

definition handle_line :: "(string \<Rightarrow> json option) \<Rightarrow> setpoints \<times> connection \<Rightarrow> string \<Rightarrow> setpoints \<times> connection" where
  "handle_line loads sc line =
     (let (s, c) = sc in
      if \<not> open_link c \<or> py_strip line = [] then (s, c)
      else case loads line of
        None \<Rightarrow> (s, c\<lparr>replies := replies c @ [(False, ''REJECTED: Malformed JSON syntax'')]\<rparr>)
      | Some command_packet \<Rightarrow>
          (case validate_and_update_targets s command_packet of
             Exn e \<Rightarrow> (s, c\<lparr>open_link := False\<rparr>)
           | Ret (s', success, response_msg) \<Rightarrow> (s', c\<lparr>replies := replies c @ [(success, response_msg)]\<rparr>)))"

definition receive_chunk :: "(string \<Rightarrow> json option) \<Rightarrow> setpoints \<times> connection \<Rightarrow> string \<Rightarrow> setpoints \<times> connection" where
  "receive_chunk loads sc data =
     (let (s, c) = sc; buf = buffer c @ data in
      if \<not> open_link c then (s, c)
      else if CHR 0x0A \<in> set buf
      then let lines = py_split (CHR 0x0A) buf
           in foldl (handle_line loads) (s, c\<lparr>buffer := last lines\<rparr>) (butlast lines)
      else (s, c\<lparr>buffer := buf\<rparr>))"

section \<open>What a client can do\<close>

definition targets_safe :: "setpoints \<Rightarrow> bool" where
  "targets_safe s \<longleftrightarrow> - 200 \<le> sp_rpm s \<and> sp_rpm s \<le> 1200 \<and> - 0.8 \<le> sp_yaw s \<and> sp_yaw s \<le> 0.8"

lemma limit_big: "1000000 < float_limit"
proof -
  have "(1000000::real) \<le> 10 ^ 300 + 1" by simp
  then show ?thesis using float_limit_gt by (rule le_less_trans)
qed

lemma json_between_real:
  assumes "json_between lo hi v = Some True" "- 1000000 \<le> lo" "hi \<le> 1000000"
  shows "lo \<le> json_real v \<and> json_real v \<le> hi"
proof (cases v)
  case (JInt i)
  then have "\<bar>real_of_int i\<bar> < float_limit" using assms limit_big by auto
  then show ?thesis using assms JInt by (simp add: json_real_def)
qed (use assms in \<open>auto simp: json_real_def between_Fin split: if_splits\<close>)

lemma validate_cases:
  assumes "validate_and_update_targets s v = Ret (s', ok, msg)"
  shows "if ok then \<exists>r y. json_between (- 200) 1200 r = Some True \<and> json_between (- 0.8) 0.8 y = Some True
           \<and> s' = \<lparr>sp_rpm = json_real r, sp_yaw = json_real y\<rparr> else s' = s"
proof -
  define b1 b2 where "b1 = json_between (- 200) 1200" and "b2 = json_between (- 0.8) 0.8"
  show ?thesis
    using assms unfolding validate_and_update_targets_def b1_def [symmetric] b2_def [symmetric]
    by (auto split: outcome.splits option.splits bool.splits if_splits)
qed

lemma validate_safe:
  assumes "validate_and_update_targets s v = Ret (s', ok, msg)"
  shows "targets_safe s \<Longrightarrow> targets_safe s'" "\<not> ok \<Longrightarrow> s' = s"
proof -
  show "\<not> ok \<Longrightarrow> s' = s" using validate_cases [OF assms] by simp
  show "targets_safe s'" if "targets_safe s"
  proof (cases ok)
    case True
    then obtain r y where "json_between (- 200) 1200 r = Some True" "json_between (- 0.8) 0.8 y = Some True"
      "s' = \<lparr>sp_rpm = json_real r, sp_yaw = json_real y\<rparr>" using validate_cases [OF assms] by auto
    then show ?thesis using json_between_real [of "- 200" 1200 r] json_between_real [of "- 0.8" "0.8" y]
      by (simp add: targets_safe_def)
  qed (use that validate_cases [OF assms] in simp)
qed

lemma handle_line_safe: "targets_safe (fst sc) \<Longrightarrow> targets_safe (fst (handle_line loads sc line))"
  by (cases sc) (auto simp: handle_line_def Let_def split: option.split outcome.split intro: validate_safe(1))

lemma handle_lines_safe: "targets_safe (fst sc) \<Longrightarrow> targets_safe (fst (foldl (handle_line loads) sc ls))"
  by (induction ls arbitrary: sc) (auto simp: handle_line_safe)

lemma receive_chunk_safe: "targets_safe (fst sc) \<Longrightarrow> targets_safe (fst (receive_chunk loads sc data))"
  using handle_lines_safe [of "(fst sc, c)" for c]
  by (cases sc) (simp add: receive_chunk_def Let_def)

text \<open>
  The server with any number of clients: each event is a chunk arriving on one connection,
  the handlers share the targets.
\<close>

definition serve_clients :: "(string \<Rightarrow> json option) \<Rightarrow> setpoints \<times> (nat \<Rightarrow> connection) \<Rightarrow> (nat \<times> string) list \<Rightarrow> setpoints \<times> (nat \<Rightarrow> connection)" where
  "serve_clients loads = foldl (\<lambda>(s, cs) (i, data). let (s', c') = receive_chunk loads (s, cs i) data in (s', cs(i := c')))"

text \<open>Property C4. Whatever bytes any number of clients send, in whatever interleaving, the
  propulsion targets stay in their limits: rpm between -200 and 1200 and yaw rate within
  0.8, both finite numbers; a rejected command changes neither.
\<close>

theorem tcp_targets_always_safe:
  "targets_safe (get_latest_targets (fst (serve_clients loads (setpoints_init, \<lambda>_. connection_init) es)))
   \<and> (case validate_and_update_targets s v of Ret (s', False, msg) \<Rightarrow> s' = s | _ \<Rightarrow> True)"
proof -
  have "targets_safe (fst (serve_clients loads sc es))" if "targets_safe (fst sc)" for sc
    using that
  proof (induction es arbitrary: sc)
    case (Cons e es)
    obtain s cs i d where e: "sc = (s, cs)" "e = (i, d)" by (cases sc, cases e)
    have "targets_safe (fst (receive_chunk loads (s, cs i) d))" using Cons.prems e by (intro receive_chunk_safe) simp
    then show ?case using Cons.IH by (simp add: serve_clients_def e split_beta Let_def)
  qed (simp add: serve_clients_def)
  moreover have "targets_safe setpoints_init" by (simp add: targets_safe_def setpoints_init_def)
  ultimately show ?thesis
    using validate_safe(2) [of s v] by (auto simp: get_latest_targets_def split: outcome.split bool.split)
qed

section \<open>Framing\<close>

lemma py_split_append: "py_split c (a @ b) = butlast (py_split c a) @ py_split c (last (py_split c a) @ b)"
proof (induction a)
  case (Cons x a)
  obtain p ps where p: "py_split c a = p # ps" using py_split_not_Nil [of c a] by (cases "py_split c a") auto
  show ?case
  proof (cases "x = c")
    case True
    then show ?thesis using Cons p by simp
  next
    case False
    show ?thesis
    proof (cases ps)
      case Nil
      then show ?thesis using Cons p False by (auto split: list.split)
    next
      case (Cons q qs)
      then show ?thesis using Cons.IH p False by (auto split: list.split)
    qed
  qed
qed simp

lemma receive_chunk_lines:
  "open_link c \<Longrightarrow> CHR 0x0A \<notin> set (buffer c) \<Longrightarrow> receive_chunk loads (s, c) data =
     (let lines = py_split (CHR 0x0A) (buffer c @ data)
      in foldl (handle_line loads) (s, c\<lparr>buffer := last lines\<rparr>) (butlast lines))"
  by (auto simp: receive_chunk_def Let_def py_split_notin)

lemma handle_line_buffer:
  "handle_line loads (s, c\<lparr>buffer := b\<rparr>) l = (let (s', c') = handle_line loads (s, c) l in (s', c'\<lparr>buffer := b\<rparr>))"
  "buffer (snd (handle_line loads (s, c) l)) = buffer c"
  by (auto simp: handle_line_def Let_def split: option.split outcome.split)

lemma handle_lines_buffer:
  "foldl (handle_line loads) (s, c\<lparr>buffer := b\<rparr>) ls =
     (let (s', c') = foldl (handle_line loads) (s, c) ls in (s', c'\<lparr>buffer := b\<rparr>))"
proof (induction ls arbitrary: s c)
  case (Cons l ls)
  then show ?case by (cases "handle_line loads (s, c) l") (simp add: handle_line_buffer)
qed simp

lemma receive_dead: "\<not> open_link c \<Longrightarrow> receive_chunk loads (s, c) d = (s, c)"
  by (simp add: receive_chunk_def)

lemma handle_lines_dead: "\<not> open_link (snd sc) \<Longrightarrow> foldl (handle_line loads) sc ls = sc"
  by (induction ls) (cases sc; auto simp: handle_line_def)+

text \<open>Two handler states a client cannot tell apart: a dead handler's buffer does not matter.\<close>

definition same_link :: "setpoints \<times> connection \<Rightarrow> setpoints \<times> connection \<Rightarrow> bool" where
  "same_link a b \<longleftrightarrow> fst a = fst b \<and> replies (snd a) = replies (snd b) \<and> open_link (snd a) = open_link (snd b)
     \<and> (open_link (snd a) \<longrightarrow> buffer (snd a) = buffer (snd b))"

lemma same_link_open: "same_link a b \<Longrightarrow> open_link (snd a) \<Longrightarrow> a = b"
  by (cases a; cases b) (auto simp: same_link_def)

lemma same_link_receive: "same_link a b \<Longrightarrow> same_link (receive_chunk loads a d) (receive_chunk loads b d)"
proof (cases "open_link (snd a)")
  case True
  assume "same_link a b"
  then have "a = b" using True by (rule same_link_open)
  then show ?thesis by (simp add: same_link_def)
next
  case False
  assume "same_link a b"
  then show ?thesis using False by (cases a; cases b) (auto simp: same_link_def receive_chunk_def)
qed

definition clean_link :: "setpoints \<times> connection \<Rightarrow> bool" where
  "clean_link sc \<longleftrightarrow> (open_link (snd sc) \<longrightarrow> CHR 0x0A \<notin> set (buffer (snd sc)))"

lemma receive_chunk_split:
  assumes "open_link c" "CHR 0x0A \<notin> set (buffer c)"
  defines "ls d \<equiv> py_split (CHR 0x0A) (buffer c @ d)"
  shows "receive_chunk loads (s, c) d =
    (let (s', c') = foldl (handle_line loads) (s, c) (butlast (ls d)) in (s', c'\<lparr>buffer := last (ls d)\<rparr>))"
  using receive_chunk_lines [OF assms(1,2), of loads s d] by (simp add: ls_def handle_lines_buffer Let_def)

lemma receive_clean: "clean_link sc \<Longrightarrow> clean_link (receive_chunk loads sc d)"
proof (cases "open_link (snd sc)")
  case True
  assume cl: "clean_link sc"
  obtain s c where sc: "sc = (s, c)" by (cases sc)
  have "last (py_split (CHR 0x0A) (buffer c @ d)) \<in> set (py_split (CHR 0x0A) (buffer c @ d))" by simp
  then have "CHR 0x0A \<notin> set (last (py_split (CHR 0x0A) (buffer c @ d)))" using py_split_parts by blast
  then show ?thesis using receive_chunk_split [of c loads s d] cl True by (auto simp: clean_link_def sc Let_def split_beta)
next
  case False
  assume "clean_link sc"
  with False show ?thesis by (cases sc) (auto simp: receive_chunk_def)
qed

lemma receive_two:
  assumes "clean_link sc"
  shows "same_link (receive_chunk loads (receive_chunk loads sc x) y) (receive_chunk loads sc (x @ y))"
proof -
  obtain s c where sc: "sc = (s, c)" by (cases sc)
  show ?thesis
  proof (cases "open_link c")
    case False
    then show ?thesis by (simp add: sc receive_chunk_def same_link_def)
  next
    case True
    with assms have c: "CHR 0x0A \<notin> set (buffer c)" by (simp add: clean_link_def sc)
    let ?l1 = "py_split (CHR 0x0A) (buffer c @ x)"
    let ?l2 = "py_split (CHR 0x0A) (last ?l1 @ y)"
    have all: "py_split (CHR 0x0A) (buffer c @ x @ y) = butlast ?l1 @ ?l2"
      using py_split_append [of "CHR 0x0A" "buffer c @ x" y] by simp
    obtain s1 c1 where f1: "foldl (handle_line loads) (s, c) (butlast ?l1) = (s1, c1)" by fastforce
    have r1: "receive_chunk loads sc x = (s1, c1\<lparr>buffer := last ?l1\<rparr>)"
      using receive_chunk_split [OF True c, of loads s x] by (simp add: sc f1)
    have r12: "receive_chunk loads sc (x @ y) =
        (let (s', c') = foldl (handle_line loads) (s1, c1) (butlast ?l2) in (s', c'\<lparr>buffer := last ?l2\<rparr>))"
      using receive_chunk_split [OF True c, of loads s "x @ y"] by (simp add: sc all butlast_append f1)
    show ?thesis
    proof (cases "open_link c1")
      case False
      then show ?thesis using handle_lines_dead [of "(s1, c1)" loads "butlast ?l2"]
        by (simp add: r1 r12 receive_dead same_link_def)
    next
      case True
      have "CHR 0x0A \<notin> set (last ?l1)" using py_split_parts [of "last ?l1" "CHR 0x0A" "buffer c @ x"] by auto
      then show ?thesis
        using receive_chunk_split [of "c1\<lparr>buffer := last ?l1\<rparr>" loads s1 y] True
        by (simp add: r1 r12 handle_lines_buffer same_link_def split_beta Let_def)
    qed
  qed
qed


end
