(* ===== verification/Hydro.thy ===== *)
theory Hydro
  imports Py_Text Py_Math
begin

text \<open>
  The hydrodynamic plants: the autoregressive wave processor
  (\<open>hydrodynamics/wave_matrix_processor.py\<close>), the bank suction tables
  (\<open>hydrodynamics/bank_suction_lookup.py\<close>), the asymmetric channel trim
  (\<open>control_core/asymmetric_trim_subroutine.py\<close>), the fire-synchronised roll stabiliser
  (\<open>control_core/asymmetric_roll_stabilizer.py\<close>) and the coordinated predictor
  (\<open>hydro_coordinated_predictor.py\<close> at the top of the repository). NumPy vectors are lists; \<open>np.roll(v, -1)\<close> followed
  by the write of the last cell drops the head and appends.
\<close>

section \<open>Wave matrix processor\<close>

text \<open>Features 40 to 43, the four notch registers being those of a direct form I filter.\<close>

record notch_registers =
  notch_x1 :: real
  notch_x2 :: real
  notch_y1 :: real
  notch_y2 :: real

record wave_processor = notch_registers +
  wave_diameter :: real
  wave_max_torque :: real
  elevation_history :: "real list"

definition wave_processor_init :: "real \<Rightarrow> real \<Rightarrow> wave_processor" where
  "wave_processor_init d m =
     \<lparr>notch_x1 = 0, notch_x2 = 0, notch_y1 = 0, notch_y2 = 0,
      wave_diameter = d, wave_max_torque = m, elevation_history = replicate 5 0\<rparr>"

definition ar_weights :: "real list" where
  "ar_weights = [0.842, -0.441, 0.198, -0.048, 0.009]"

definition np_dot :: "real list \<Rightarrow> real list \<Rightarrow> real" where
  "np_dot v w = sum_list (map2 (*) v w)"

definition np_shift :: "'a list \<Rightarrow> 'a \<Rightarrow> 'a list" where
  "np_shift v x = (rotate1 v)[length v - 1 := x]"

definition execute_feature_40_ar_filter :: "wave_processor \<Rightarrow> real \<Rightarrow> wave_processor \<times> real" where
  "execute_feature_40_ar_filter s raw =
     (let h = np_shift (elevation_history s) raw
      in (s\<lparr>elevation_history := h\<rparr>, np_dot ar_weights h))"

definition execute_feature_41_ventilation_profile :: "real \<Rightarrow> real \<Rightarrow> real \<Rightarrow> real" where
  "execute_feature_41_ventilation_profile d predicted nominal =
     (let submergence = nominal + predicted
      in if submergence \<ge> d then 1 else if submergence \<le> 0 then 0.05
         else (sin ((pi / 2) * (submergence / d)))\<^sup>2)"

definition execute_feature_42_torque_attenuation :: "real \<Rightarrow> real \<Rightarrow> real \<Rightarrow> real" where
  "execute_feature_42_torque_attenuation m base beta =
     clamp (- m) m (if beta < 0.9 then base * beta\<^sup>2 else base)"

definition notch_coefficient :: "real \<Rightarrow> real \<Rightarrow> real" where
  "notch_coefficient zeta t = 1 + 2 * zeta * t + t\<^sup>2"

definition notch_output :: "'a notch_registers_scheme \<Rightarrow> real \<Rightarrow> real \<Rightarrow> real" where
  "notch_output s cmd dt =
     (let t = tan (0.82 * dt / 2);
          b0 = notch_coefficient 0.05 t; b1 = 2 * t\<^sup>2 - 2; b2 = 1 - 2 * 0.05 * t + t\<^sup>2;
          a0 = notch_coefficient 0.70 t; a1 = 2 * t\<^sup>2 - 2; a2 = 1 - 2 * 0.70 * t + t\<^sup>2
      in (b0 / a0) * cmd + (b1 / a0) * notch_x1 s + (b2 / a0) * notch_x2 s
         - (a1 / a0) * notch_y1 s - (a2 / a0) * notch_y2 s)"

definition execute_feature_43_notch_filter ::
    "'a notch_registers_scheme \<Rightarrow> real \<Rightarrow> real \<Rightarrow> 'a notch_registers_scheme \<times> real" where
  "execute_feature_43_notch_filter s cmd dt =
     (let y = notch_output s cmd dt
      in (s\<lparr>notch_x2 := notch_x1 s, notch_x1 := cmd, notch_y2 := notch_y1 s, notch_y1 := y\<rparr>, y))"

record wave_report =
  wave_motor_torque_nm :: real
  wave_rudder_angle_deg :: real
  internal_ventilation_index :: real
  subsurface_aeration_warning :: bool
  predicted_stern_swell_meters :: real
  slew_rate_modifier :: real
  wave_rudder_load_nm :: real

text \<open>A missing mandatory key of the input raises before any register has moved: \<open>None\<close>.\<close>

definition process_wave_matrix ::
    "wave_processor \<Rightarrow> num_dict \<Rightarrow> real \<Rightarrow> (wave_processor \<times> wave_report) option" where
  "process_wave_matrix s inp dt =
     (case (inp ''bow_sensor_meters'', inp ''nominal_calculated_torque_nm'', inp ''unfiltered_rudder_deg'') of
        (Some bow, Some torque, Some rudder) \<Rightarrow>
          let (s1, predicted) = execute_feature_40_ar_filter s bow;
              beta = execute_feature_41_ventilation_profile (wave_diameter s) predicted
                       (dget inp ''nominal_shaft_depth_meters'' 4);
              safe_torque = execute_feature_42_torque_attenuation (wave_max_torque s) torque beta;
              (s2, safe_rudder) = execute_feature_43_notch_filter s1 rudder dt
          in Some (s2, \<lparr>wave_motor_torque_nm = py_round 1 safe_torque,
                        wave_rudder_angle_deg = py_round 2 safe_rudder,
                        internal_ventilation_index = py_round 3 beta,
                        subsurface_aeration_warning = (beta < 0.85),
                        predicted_stern_swell_meters = py_round 2 predicted,
                        slew_rate_modifier = py_round 2 (max 0.2 beta),
                        wave_rudder_load_nm = py_round 1 (\<bar>safe_rudder - rudder\<bar> * 3150)\<rparr>)
      | _ \<Rightarrow> None)"

lemma np_shift_simps [simp]:
  "np_shift (x # xs) y = xs @ [y]" "np_shift ([]::'a list) (y::'a) = []"
  by (simp_all add: np_shift_def list_update_append)

lemma np_shift_length [simp]: "length (np_shift v y) = length v"
  by (simp add: np_shift_def)

lemma np_shift_last: "v \<noteq> [] \<Longrightarrow> List.last (np_shift v y) = y"
  by (cases v) simp_all

lemma np_dot_simps [simp]: "np_dot [] w = 0" "np_dot (x # v) (y # w) = x * y + np_dot v w" "np_dot v [] = 0"
  by (simp_all add: np_dot_def)

lemma ventilation_range: "0 \<le> execute_feature_41_ventilation_profile d p n"
    "execute_feature_41_ventilation_profile d p n \<le> 1"
proof -
  have "(sin x)\<^sup>2 \<le> 1" for x :: real by (simp add: abs_square_le_1)
  then show "0 \<le> execute_feature_41_ventilation_profile d p n"
    "execute_feature_41_ventilation_profile d p n \<le> 1"
    by (auto simp: execute_feature_41_ventilation_profile_def Let_def)
qed

lemma notch_coefficient_pos: "\<bar>zeta\<bar> < 1 \<Longrightarrow> 0 < notch_coefficient zeta t"
proof -
  assume z: "\<bar>zeta\<bar> < 1"
  then have "\<bar>zeta * zeta\<bar> < 1" using mult_strict_mono' [of "\<bar>zeta\<bar>" 1 "\<bar>zeta\<bar>" 1] by (simp add: abs_mult)
  then have "zeta\<^sup>2 < 1" by (simp add: power2_eq_square)
  moreover have "notch_coefficient zeta t = (t + zeta)\<^sup>2 + (1 - zeta\<^sup>2)"
    by (simp add: notch_coefficient_def power2_eq_square algebra_simps)
  moreover have "0 \<le> (t + zeta)\<^sup>2" by simp
  ultimately show ?thesis by linarith
qed


lemma notch_steady: "notch_output \<lparr>notch_x1 = c, notch_x2 = c, notch_y1 = c, notch_y2 = c, \<dots> = m\<rparr> c dt = c"
proof -
  define t where "t = tan (0.82 * dt / 2)"
  have "0 < notch_coefficient 0.70 t" by (simp add: notch_coefficient_pos)
  then have a0: "1 + 2 * 0.70 * t + t\<^sup>2 \<noteq> 0" by (simp add: notch_coefficient_def)
  let ?a0 = "1 + 2 * 0.70 * t + t\<^sup>2"
  have "notch_output \<lparr>notch_x1 = c, notch_x2 = c, notch_y1 = c, notch_y2 = c, \<dots> = m\<rparr> c dt
      = ((1 + 2 * 0.05 * t + t\<^sup>2) * c + (2 * t\<^sup>2 - 2) * c + (1 - 2 * 0.05 * t + t\<^sup>2) * c
          - (2 * t\<^sup>2 - 2) * c - (1 - 2 * 0.70 * t + t\<^sup>2) * c) / ?a0"
    unfolding notch_output_def Let_def notch_coefficient_def t_def notch_registers.simps
      add_divide_distrib diff_divide_distrib times_divide_eq_left ..
  also have "\<dots> = ?a0 * c / ?a0" by (rule arg_cong [of _ _ "\<lambda>x. x / ?a0"]) (simp add: algebra_simps)
  also have "\<dots> = c" using a0 by simp
  finally show ?thesis .
qed

definition feed_bow_readings :: "wave_processor \<Rightarrow> real list \<Rightarrow> wave_processor" where
  "feed_bow_readings s rs = foldl (\<lambda>s r. fst (execute_feature_40_ar_filter s r)) s rs"

lemma feed_history: "elevation_history (feed_bow_readings s rs) = foldl np_shift (elevation_history s) rs"
  by (induction rs arbitrary: s) (simp_all add: feed_bow_readings_def execute_feature_40_ar_filter_def Let_def)

lemma window_of_five:
  assumes "length h = 5"
  shows "foldl np_shift h (rs @ [a, b, c, d, e]) = [a, b, c, d, e]"
proof -
  have "length (foldl np_shift h rs) = 5"
    using assms by (induction rs arbitrary: h) simp_all
  then obtain p q r s t where "foldl np_shift h rs = [p, q, r, s, t]"
    by (auto simp: numeral_eq_Suc length_Suc_conv)
  then show ?thesis by simp
qed

text \<open>Feature 40 forecasts from the last five bow readings and nothing else, whatever
  was read before: after readings \<open>a, b, c, d, e\<close> the forecast is the dot product with the
  weights, the largest weight 0.842 being applied to the oldest reading \<open>a\<close> and the smallest,
  0.009, to the newest \<open>e\<close>.\<close>

theorem forecast_window:
  assumes "length (elevation_history s) = 5"
  shows "snd (execute_feature_40_ar_filter (feed_bow_readings s (rs @ [a, b, c, d])) e)
    = 0.842 * a - 0.441 * b + 0.198 * c - 0.048 * d + 0.009 * e"
proof -
  have "np_shift (elevation_history (feed_bow_readings s (rs @ [a, b, c, d]))) e
      = foldl np_shift (elevation_history s) (rs @ [a, b, c, d, e])"
    by (simp add: feed_history)
  also have "\<dots> = [a, b, c, d, e]" by (rule window_of_five [OF assms])
  finally show ?thesis by (simp add: execute_feature_40_ar_filter_def ar_weights_def)
qed

theorem forecast_window_witness:
  "length (elevation_history (wave_processor_init 3.2 85000)) = 5
   \<and> snd (execute_feature_40_ar_filter (feed_bow_readings (wave_processor_init 3.2 85000) ([7] @ [1, 0, 0, 0])) 0)
     = 0.842"
  using forecast_window [of "wave_processor_init 3.2 85000" "[7]" 1 0 0 0 0]
  by (simp add: wave_processor_init_def)

section \<open>Bank suction tables\<close>

record bank_engine =
  bank_length :: real
  bank_beam :: real
  bank_draft :: real

definition depth_to_draft_axis :: "real list" where
  "depth_to_draft_axis = [1.1, 1.3, 1.5, 2, 3, 4]"

definition distance_to_beam_axis :: "real list" where
  "distance_to_beam_axis = [0.5, 0.75, 1, 1.5, 2, 3.5, 5]"

definition cy_lookup_matrix :: "real list list" where
  "cy_lookup_matrix =
     [[0.180, 0.145, 0.110, 0.075, 0.040, 0.020],
      [0.125, 0.098, 0.075, 0.050, 0.025, 0.012],
      [0.085, 0.065, 0.050, 0.032, 0.015, 0.008],
      [0.040, 0.032, 0.024, 0.015, 0.007, 0.003],
      [0.018, 0.014, 0.010, 0.006, 0.002, 0.001],
      [0.004, 0.003, 0.002, 0.001, 0, 0],
      [0, 0, 0, 0, 0, 0]]"

definition cn_lookup_matrix :: "real list list" where
  "cn_lookup_matrix =
     [[0.045, 0.038, 0.030, 0.020, 0.010, 0.005],
      [0.032, 0.026, 0.020, 0.014, 0.007, 0.003],
      [0.022, 0.018, 0.014, 0.009, 0.004, 0.002],
      [0.010, 0.008, 0.006, 0.004, 0.002, 0.001],
      [0.005, 0.004, 0.003, 0.002, 0.001, 0],
      [0.001, 0.001, 0, 0, 0, 0],
      [0, 0, 0, 0, 0, 0]]"

text \<open>\<open>np.searchsorted\<close> on an increasing axis: the number of entries below the value.\<close>

definition searchsorted :: "real list \<Rightarrow> real \<Rightarrow> nat" where
  "searchsorted axis x = length (takeWhile (\<lambda>a. a < x) axis)"

text \<open>The interval index, \<open>max(0, min(searchsorted - 1, len - 2))\<close> (natural subtraction is the \<open>max\<close>).\<close>

definition interval_index :: "real list \<Rightarrow> real \<Rightarrow> nat" where
  "interval_index axis x = min (searchsorted axis x - 1) (length axis - 2)"

definition axis_clamp :: "real list \<Rightarrow> real \<Rightarrow> real" where
  "axis_clamp axis x = clamp (axis ! 0) (axis ! (length axis - 1)) x"

definition bilinear_interpolate :: "real \<Rightarrow> real \<Rightarrow> real list list \<Rightarrow> real" where
  "bilinear_interpolate depth_ratio distance_ratio m =
     (let d = axis_clamp depth_to_draft_axis depth_ratio;
          e = axis_clamp distance_to_beam_axis distance_ratio;
          i = interval_index depth_to_draft_axis d;
          j = interval_index distance_to_beam_axis e;
          x0 = depth_to_draft_axis ! i; x1 = depth_to_draft_axis ! (i + 1);
          y0 = distance_to_beam_axis ! j; y1 = distance_to_beam_axis ! (j + 1);
          q00 = m ! j ! i; q10 = m ! j ! (i + 1);
          q01 = m ! (j + 1) ! i; q11 = m ! (j + 1) ! (i + 1);
          wa = (x1 - d) * (y1 - e); wb = (d - x0) * (y1 - e);
          wc = (x1 - d) * (e - y0); wd = (d - x0) * (e - y0);
          denom = (x1 - x0) * (y1 - y0)
      in (wa * q00 + wb * q10 + wc * q01 + wd * q11) / denom)"


text \<open>The four corner weights are non-negative and add up to the area of the cell, so the estimate
  is a convex combination of the four table entries around the query.\<close>

lemma convex4:
  fixes wa :: real
  assumes "0 \<le> wa" "0 \<le> wb" "0 \<le> wc" "0 \<le> wd" "0 < wa + wb + wc + wd"
    and "lo \<le> qa" "qa \<le> hi" "lo \<le> qb" "qb \<le> hi" "lo \<le> qc" "qc \<le> hi" "lo \<le> qd" "qd \<le> hi"
  shows "lo \<le> (wa * qa + wb * qb + wc * qc + wd * qd) / (wa + wb + wc + wd)"
    and "(wa * qa + wb * qb + wc * qc + wd * qd) / (wa + wb + wc + wd) \<le> hi"
proof -
  have "wa * lo + wb * lo + wc * lo + wd * lo \<le> wa * qa + wb * qb + wc * qc + wd * qd"
    using assms by (intro add_mono mult_left_mono)
  then show "lo \<le> (wa * qa + wb * qb + wc * qc + wd * qd) / (wa + wb + wc + wd)"
    using assms(5) by (simp add: pos_le_divide_eq algebra_simps)
  have "wa * qa + wb * qb + wc * qc + wd * qd \<le> wa * hi + wb * hi + wc * hi + wd * hi"
    using assms by (intro add_mono mult_left_mono)
  then show "(wa * qa + wb * qb + wc * qc + wd * qd) / (wa + wb + wc + wd) \<le> hi"
    using assms(5) by (simp add: pos_divide_le_eq algebra_simps)
qed

lemma interval_brackets:
  assumes "2 \<le> length axis" and "axis ! 0 \<le> x" and "x \<le> axis ! (length axis - 1)"
    and "axis ! 0 \<le> axis ! 1"
  defines "i \<equiv> interval_index axis x"
  shows "i + 1 < length axis" and "axis ! i \<le> x" and "x \<le> axis ! (i + 1)"
proof -
  define n where "n = searchsorted axis x"
  have below: "axis ! k < x" if "k < n" for k
    using that by (metis n_def searchsorted_def set_takeWhileD nth_mem takeWhile_nth)
  have above: "x \<le> axis ! n" if "n < length axis"
    using nth_length_takeWhile [of "\<lambda>a. a < x" axis] that by (simp add: n_def searchsorted_def)
  have "n \<noteq> length axis" using below [of "length axis - 1"] assms(1,3) by (cases "length axis") auto
  moreover have "n \<le> length axis" by (simp add: n_def searchsorted_def length_takeWhile_le)
  ultimately have n: "n < length axis" by simp
  have i: "i = n - 1" using n assms(1) by (simp add: i_def interval_index_def n_def [symmetric])
  show "i + 1 < length axis" using n assms(1) by (auto simp: i)
  show "axis ! i \<le> x" using below [of "n - 1"] assms(2) by (cases n) (auto simp: i)
  show "x \<le> axis ! (i + 1)" using above [OF n] assms(2,4) by (cases n) (auto simp: i)
qed

lemma axis_clamp_range:
  assumes "axis ! 0 \<le> axis ! (length axis - 1)"
  shows "axis ! 0 \<le> axis_clamp axis x" and "axis_clamp axis x \<le> axis ! (length axis - 1)"
  using assms by (simp_all add: axis_clamp_def)

lemma depth_step: "i + 1 < length depth_to_draft_axis \<Longrightarrow> depth_to_draft_axis ! i < depth_to_draft_axis ! (i + 1)"
  by (auto simp: depth_to_draft_axis_def less_Suc_eq nth_Cons')

lemma distance_step: "i + 1 < length distance_to_beam_axis \<Longrightarrow> distance_to_beam_axis ! i < distance_to_beam_axis ! (i + 1)"
  by (auto simp: distance_to_beam_axis_def less_Suc_eq nth_Cons')

lemma bilinear_bounds:
  assumes q: "\<And>i j. i < 6 \<Longrightarrow> j < 7 \<Longrightarrow> lo \<le> m ! j ! i \<and> m ! j ! i \<le> hi"
  shows "lo \<le> bilinear_interpolate dr er m" and "bilinear_interpolate dr er m \<le> hi"
proof -
  let ?ax = depth_to_draft_axis and ?ay = distance_to_beam_axis
  define d e where "d = axis_clamp ?ax dr" and "e = axis_clamp ?ay er"
  define i j where "i = interval_index ?ax d" and "j = interval_index ?ay e"
  have ax: "2 \<le> length ?ax" "?ax ! 0 \<le> ?ax ! 1" "?ax ! 0 \<le> ?ax ! (length ?ax - 1)" "length ?ax = 6"
    and ay: "2 \<le> length ?ay" "?ay ! 0 \<le> ?ay ! 1" "?ay ! 0 \<le> ?ay ! (length ?ay - 1)" "length ?ay = 7"
    by (simp_all add: depth_to_draft_axis_def distance_to_beam_axis_def)
  have i: "i + 1 < 6" "?ax ! i \<le> d" "d \<le> ?ax ! (i + 1)"
    using interval_brackets [OF ax(1) _ _ ax(2), of d] axis_clamp_range [OF ax(3), of dr] ax(4)
    by (auto simp: i_def d_def)
  have j: "j + 1 < 7" "?ay ! j \<le> e" "e \<le> ?ay ! (j + 1)"
    using interval_brackets [OF ay(1) _ _ ay(2), of e] axis_clamp_range [OF ay(3), of er] ay(4)
    by (auto simp: j_def e_def)
  let ?x0 = "?ax ! i" and ?x1 = "?ax ! (i + 1)" and ?y0 = "?ay ! j" and ?y1 = "?ay ! (j + 1)"
  let ?wa = "(?x1 - d) * (?y1 - e)" and ?wb = "(d - ?x0) * (?y1 - e)"
    and ?wc = "(?x1 - d) * (e - ?y0)" and ?wd = "(d - ?x0) * (e - ?y0)"
  have denom: "(?x1 - ?x0) * (?y1 - ?y0) = ?wa + ?wb + ?wc + ?wd" by (simp add: algebra_simps)
  have "0 < (?x1 - ?x0) * (?y1 - ?y0)"
    using depth_step [of i] distance_step [of j] i(1) j(1) ax(4) ay(4) by simp
  then have pos: "0 < ?wa + ?wb + ?wc + ?wd" by (simp only: denom)
  have w: "0 \<le> ?wa" "0 \<le> ?wb" "0 \<le> ?wc" "0 \<le> ?wd" using i j by simp_all
  have eq: "bilinear_interpolate dr er m =
      (?wa * m ! j ! i + ?wb * m ! j ! (i + 1) + ?wc * m ! (j + 1) ! i + ?wd * m ! (j + 1) ! (i + 1))
        / (?wa + ?wb + ?wc + ?wd)"
    by (simp only: bilinear_interpolate_def Let_def d_def [symmetric] e_def [symmetric]
        i_def [symmetric] j_def [symmetric] denom)
  have c: "lo \<le> m ! j ! i" "m ! j ! i \<le> hi" "lo \<le> m ! j ! (i + 1)" "m ! j ! (i + 1) \<le> hi"
      "lo \<le> m ! (j + 1) ! i" "m ! (j + 1) ! i \<le> hi" "lo \<le> m ! (j + 1) ! (i + 1)" "m ! (j + 1) ! (i + 1) \<le> hi"
    using q [of i j] q [of "i + 1" j] q [of i "j + 1"] q [of "i + 1" "j + 1"] i(1) j(1) by simp_all
  show "lo \<le> bilinear_interpolate dr er m" unfolding eq by (rule convex4(1) [OF w pos c])
  show "bilinear_interpolate dr er m \<le> hi" unfolding eq by (rule convex4(2) [OF w pos c])
qed

lemma six: "i < 6 \<Longrightarrow> i = 0 \<or> i = 1 \<or> i = 2 \<or> i = 3 \<or> i = 4 \<or> i = (5::nat)" by arith

lemma cy_entries: "i < 6 \<Longrightarrow> j < 7 \<Longrightarrow> 0 \<le> cy_lookup_matrix ! j ! i \<and> cy_lookup_matrix ! j ! i \<le> 0.18"
  by (auto simp: cy_lookup_matrix_def nth_Cons' dest!: six)

lemma cn_entries: "i < 6 \<Longrightarrow> j < 7 \<Longrightarrow> 0 \<le> cn_lookup_matrix ! j ! i \<and> cn_lookup_matrix ! j ! i \<le> 0.045"
  by (auto simp: cn_lookup_matrix_def nth_Cons' dest!: six)


lemma far_wall: "bilinear_interpolate dr (5 + \<bar>er\<bar>) cy_lookup_matrix = 0"
proof -
  have e: "axis_clamp distance_to_beam_axis (5 + \<bar>er\<bar>) = 5"
    by (simp add: axis_clamp_def clamp_def distance_to_beam_axis_def)
  have j: "interval_index distance_to_beam_axis 5 = 5"
    by (simp add: interval_index_def searchsorted_def distance_to_beam_axis_def)
  let ?i = "interval_index depth_to_draft_axis (axis_clamp depth_to_draft_axis dr)"
  have "?i < 5" by (simp add: interval_index_def depth_to_draft_axis_def min_def)
  then have z: "cy_lookup_matrix ! 6 ! ?i = 0" "cy_lookup_matrix ! 6 ! (?i + 1) = 0"
    by (auto simp: cy_lookup_matrix_def nth_Cons' less_Suc_eq numeral_eq_Suc)
  have y: "distance_to_beam_axis ! 6 = 5" "(5::nat) + 1 = 6"
    by (simp_all add: distance_to_beam_axis_def)
  show ?thesis unfolding bilinear_interpolate_def Let_def e j using z y by simp
qed

record bank_report =
  suction_force_n :: real
  cushion_moment_nm :: real
  counter_rudder_deg :: pynum
  interaction_severity_index :: real
  speed_saturation_limit_knots :: real
  lockout_aggressive_maneuvers :: bool

definition suction_force :: "bank_engine \<Rightarrow> real \<Rightarrow> real \<Rightarrow> real" where
  "suction_force b c_y v = c_y * (0.5 * 1025 * v\<^sup>2) * (bank_length b * bank_draft b)"

definition cushion_moment :: "bank_engine \<Rightarrow> real \<Rightarrow> real \<Rightarrow> real" where
  "cushion_moment b c_n v = c_n * (0.5 * 1025 * v\<^sup>2) * (bank_length b)\<^sup>2 * bank_draft b"

text \<open>The quotient is taken on NumPy scalars, where division by zero is not an error: at
  standstill it is \<open>0 / 0\<close>, the NumPy \<open>nan\<close>.\<close>

definition counter_rudder :: "bank_engine \<Rightarrow> real \<Rightarrow> real \<Rightarrow> pynum" where
  "counter_rudder b c_n v =
     (let denom = (0.5 * 1025 * v\<^sup>2) * (bank_length b * bank_draft b) * 0.5
      in if denom = 0 then NaN else Fin (degrees (cushion_moment b c_n v / denom)))"

definition severity_index :: "real \<Rightarrow> real" where
  "severity_index c_y = max 0 (min 1 (c_y / 0.15))"

definition max_safe_speed :: "bank_engine \<Rightarrow> real \<Rightarrow> real \<Rightarrow> real option" where
  "max_safe_speed b c_y v =
     (if severity_index c_y > 0.4
      then map_option (\<lambda>r. min v r)
             (py_sqrt (0.4 * suction_force b c_y v
                       / max 1 (0.5 * c_y * 1025 * (bank_length b * bank_draft b))))
      else Some v)"

fun pynum_round :: "nat \<Rightarrow> pynum \<Rightarrow> pynum" where
  "pynum_round n (Fin x) = Fin (py_round n x)"
| "pynum_round n x = x"

fun pynum_minus :: "pynum \<Rightarrow> pynum" where
  "pynum_minus (Fin x) = Fin (- x)"
| "pynum_minus PosInf = NegInf"
| "pynum_minus NegInf = PosInf"
| "pynum_minus NaN = NaN"

text \<open>\<open>side\<close> is the value of \<open>bank_lateral_side\<close>, a string, when the key is there. A missing
  mandatory key, a zero draft or beam, and a negative radicand raise: \<open>None\<close>.\<close>

definition process_bank_forces :: "bank_engine \<Rightarrow> num_dict \<Rightarrow> string option \<Rightarrow> bank_report option" where
  "process_bank_forces b tele side =
     (case (tele ''speed_ms'', tele ''depth'', tele ''distance_to_bank_meters'') of
        (Some v, Some depth, Some wall) \<Rightarrow>
          if bank_draft b = 0 \<or> bank_beam b = 0 then None
          else
            let c_y = bilinear_interpolate (depth / bank_draft b) (wall / bank_beam b) cy_lookup_matrix;
                c_n = bilinear_interpolate (depth / bank_draft b) (wall / bank_beam b) cn_lookup_matrix;
                force = suction_force b c_y v; moment = cushion_moment b c_n v;
                counter = counter_rudder b c_n v;
                starboard = (case side of None \<Rightarrow> True | Some s \<Rightarrow> s = ''starboard'')
            in map_option (\<lambda>safe.
                 \<lparr>suction_force_n = py_round 1 (if starboard then force else - force),
                  cushion_moment_nm = py_round 1 (if starboard then - moment else moment),
                  counter_rudder_deg = pynum_round 2 (if starboard then pynum_minus counter else counter),
                  interaction_severity_index = py_round 3 (severity_index c_y),
                  speed_saturation_limit_knots = py_round 1 (safe * 1.94384),
                  lockout_aggressive_maneuvers = (severity_index c_y > 0.4)\<rparr>) (max_safe_speed b c_y v)
      | _ \<Rightarrow> None)"

lemma cancel_pos: "0 < (a::real) \<Longrightarrow> k * (x * a) / a = k * x"
  by simp

text \<open>For every depth ratio and wall distance, in or out of the tabulated range, the
  interpolated suction and cushion coefficients stay within their tables, so the index arithmetic
  never leaves the matrix; and on the grid point nearest the wall in the shallowest column they
  are the tabulated values 0.18 and 0.045, while from five beams on the suction vanishes.\<close>

theorem bank_coefficients_in_table:
  "0 \<le> bilinear_interpolate dr er cy_lookup_matrix \<and> bilinear_interpolate dr er cy_lookup_matrix \<le> 0.18
   \<and> 0 \<le> bilinear_interpolate dr er cn_lookup_matrix \<and> bilinear_interpolate dr er cn_lookup_matrix \<le> 0.045
   \<and> bilinear_interpolate 0 0 cy_lookup_matrix = 0.18 \<and> bilinear_interpolate 0 0 cn_lookup_matrix = 0.045
   \<and> bilinear_interpolate dr (5 + \<bar>er\<bar>) cy_lookup_matrix = 0"
proof -
  have node: "bilinear_interpolate 0 0 cy_lookup_matrix = 0.18" "bilinear_interpolate 0 0 cn_lookup_matrix = 0.045"
    by (simp_all add: bilinear_interpolate_def Let_def axis_clamp_def clamp_def interval_index_def
        searchsorted_def depth_to_draft_axis_def distance_to_beam_axis_def cy_lookup_matrix_def cn_lookup_matrix_def)
  then show ?thesis
    using bilinear_bounds [OF cy_entries] bilinear_bounds [OF cn_entries] far_wall by blast
qed

text \<open>The bank override: whenever the severity index exceeds 0.4, the capped speed is
  no greater than the present one and the suction force at the capped speed is exactly 40 percent
  of the present force.\<close>

theorem bank_speed_cap_sheds_force:
  assumes "0 < bank_length b" and "0 < bank_draft b" and "0 \<le> v"
    and "severity_index c_y > 0.4" and "1 \<le> 0.5 * c_y * 1025 * (bank_length b * bank_draft b)"
  shows "\<exists>w. max_safe_speed b c_y v = Some w \<and> 0 \<le> w \<and> w \<le> v
    \<and> suction_force b c_y w = 0.4 * suction_force b c_y v"
proof -
  let ?A = "bank_length b * bank_draft b"
  have pos: "0 < 0.5 * c_y * 1025 * ?A" using assms(5) by linarith
  have "0.4 * suction_force b c_y v / max 1 (0.5 * c_y * 1025 * ?A)
      = 0.4 * (v\<^sup>2 * (0.5 * c_y * 1025 * ?A)) / (0.5 * c_y * 1025 * ?A)"
    using assms(5) by (simp add: suction_force_def max_def algebra_simps)
  also have "\<dots> = 0.4 * v\<^sup>2" using pos by (rule cancel_pos)
  finally have r: "0.4 * suction_force b c_y v / max 1 (0.5 * c_y * 1025 * ?A) = 0.4 * v\<^sup>2" .
  let ?w = "sqrt (0.4 * v\<^sup>2)"
  have "?w \<le> sqrt (v\<^sup>2)" by (intro real_sqrt_le_mono) simp
  then have "?w \<le> v" using assms(3) by simp
  then have "max_safe_speed b c_y v = Some ?w"
    unfolding max_safe_speed_def r using assms(4) by (simp add: py_sqrt_def min_def)
  moreover have "suction_force b c_y ?w = 0.4 * suction_force b c_y v" by (simp add: suction_force_def)
  ultimately show ?thesis using \<open>?w \<le> v\<close> by auto
qed


theorem bank_speed_cap_sheds_force_witness:
  "\<exists>w. max_safe_speed \<lparr>bank_length = 45, bank_beam = 9.5, bank_draft = 3.2\<rparr> 0.1 6 = Some w \<and> 0 \<le> w \<and> w \<le> 6
    \<and> suction_force \<lparr>bank_length = 45, bank_beam = 9.5, bank_draft = 3.2\<rparr> 0.1 w
      = 0.4 * suction_force \<lparr>bank_length = 45, bank_beam = 9.5, bank_draft = 3.2\<rparr> 0.1 6"
  by (rule bank_speed_cap_sheds_force) (simp_all add: severity_index_def)

section \<open>Asymmetric channel trim\<close>

record trim_plant =
  trim_length :: real
  trim_beam :: real
  trim_draft :: real
  trim_max_rudder :: real

record trim_report =
  asymmetric_trim_required_deg :: real
  predicted_bank_moment_nm :: real
  boundary_severity_index :: real
  autopilot_safety_override :: bool

definition compile_nominal_report :: trim_report where
  "compile_nominal_report =
     \<lparr>asymmetric_trim_required_deg = 0, predicted_bank_moment_nm = 0,
      boundary_severity_index = 0, autopilot_safety_override = False\<rparr>"

definition bank_yaw_coefficient :: "trim_plant \<Rightarrow> real \<Rightarrow> real \<Rightarrow> real" where
  "bank_yaw_coefficient p depth bank =
     (let clearance_ratio = max 0.2 (depth - trim_draft p) / trim_draft p
      in 0.035 * exp (-0.85 * (bank / trim_beam p)) * (1 + 0.6 * (1 / tanh clearance_ratio)))"

definition channel_trim_deg :: "trim_plant \<Rightarrow> real \<Rightarrow> real \<Rightarrow> real \<Rightarrow> real" where
  "channel_trim_deg p speed depth bank =
     (let pressure = 0.5 * 1025 * speed\<^sup>2;
          moment = bank_yaw_coefficient p depth bank * pressure * (trim_length p)\<^sup>2 * trim_draft p;
          denom = pressure * (trim_length p)\<^sup>2 * trim_draft p * 0.045
      in degrees (if denom > 0.01 then moment / denom else 0))"

text \<open>The directed trim, clamped to 45 percent of the steering gear, and its report.\<close>

definition clamped_trim :: "trim_plant \<Rightarrow> real \<Rightarrow> real" where
  "clamped_trim p final =
     (let limit = trim_max_rudder p * 0.45 in clamp (- limit) limit final)"

definition trim_result :: "trim_plant \<Rightarrow> real \<Rightarrow> real \<Rightarrow> trim_report option" where
  "trim_result p final induced =
     (let limit = trim_max_rudder p * 0.45; trim = clamped_trim p final
      in if limit = 0 then None
         else Some \<lparr>asymmetric_trim_required_deg = py_round 2 trim,
                    predicted_bank_moment_nm = py_round 1 induced,
                    boundary_severity_index = py_round 3 (min 1 \<bar>trim / limit\<bar>),
                    autopilot_safety_override = (\<bar>trim\<bar> \<ge> limit * 0.8)\<rparr>)"

text \<open>A zero draft or beam, and a zero trim limit, raise \<open>ZeroDivisionError\<close>: \<open>None\<close>. The bank
  side is a string entry of the telemetry.\<close>

definition calculate_asymmetric_channel_trim ::
    "trim_plant \<Rightarrow> num_dict \<Rightarrow> string option \<Rightarrow> trim_report option" where
  "calculate_asymmetric_channel_trim p tele side =
     (let speed = max 0.1 (dget tele ''speed_ms'' 0);
          depth = dget tele ''depth'' 50;
          bank = dget tele ''distance_to_bank_meters'' 100
      in if trim_draft p = 0 \<or> trim_beam p = 0 then None
         else if bank / trim_beam p \<ge> 4 \<or> bank > 40 then Some compile_nominal_report
         else
           let moment = bank_yaw_coefficient p depth bank * (0.5 * 1025 * speed\<^sup>2)
                          * (trim_length p)\<^sup>2 * trim_draft p;
               raw = channel_trim_deg p speed depth bank;
               starboard = (case side of None \<Rightarrow> True | Some s \<Rightarrow> s = ''starboard'')
           in if starboard then trim_result p raw (- moment) else trim_result p (- raw) moment)"

section \<open>Fire-synchronised roll stabiliser\<close>

record roll_stabilizer =
  roll_max_actuator :: real
  roll_history :: "real list"

definition roll_stabilizer_init :: "real \<Rightarrow> roll_stabilizer" where
  "roll_stabilizer_init m = \<lparr>roll_max_actuator = m, roll_history = []\<rparr>"

record roll_report =
  command_port_actuator_deg :: real
  command_stbd_actuator_deg :: real
  firing_interlock_cleared :: bool
  combat_lock :: bool
  asymmetric_split_delta_deg :: real
  vessel_storm_list_deg :: real

definition push_roll :: "real list \<Rightarrow> real \<Rightarrow> real list" where
  "push_roll h x = (let h' = h @ [x] in if length h' > 50 then tl h' else h')"

definition target_deck_roll :: "real \<Rightarrow> real" where
  "target_deck_roll elevation_deg = radians (clamp (-8) 8 (elevation_deg * 0.2))"

definition calculate_fire_synchronized_stabilization ::
    "roll_stabilizer \<Rightarrow> num_dict \<Rightarrow> num_dict \<Rightarrow> num_dict \<Rightarrow> roll_stabilizer \<times> roll_report" where
  "calculate_fire_synchronized_stabilization s targets tele weapon =
     (let speed = max 0.1 (dget tele ''speed_ms'' 0);
          yaw_rate = dget tele ''yaw_rate_rads'' 0;
          roll = dget tele ''roll_angle_rad'' 0;
          roll_rate = dget tele ''roll_rate_rads'' 0;
          h = push_roll (roll_history s) roll;
          persistent = sum_list h / real (length h);
          steering = 1.6 * (dget targets ''target_yaw_rate'' 0 - yaw_rate);
          engaged = dflag weapon ''engagement_sequence_active'';
          lead = 0.02 * sin yaw_rate * (speed * 1.94384 / 30);
          deck = target_deck_roll (dget weapon ''target_elevation_deg'' 0);
          control = (if engaged then 4.5 * (roll - deck) else 3.8 * persistent);
          ready = (engaged \<and> \<bar>roll_rate\<bar> \<le> 0.03 \<and> \<bar>roll - deck\<bar> < 0.02);
          damping = 2.4 * (speed\<^sup>2 / 100);
          m = roll_max_actuator s;
          port = clamp (- m) m (degrees (steering + control - damping * roll_rate + lead));
          stbd = clamp (- m) m (degrees (steering - control - damping * roll_rate - lead))
      in (s\<lparr>roll_history := h\<rparr>,
          \<lparr>command_port_actuator_deg = py_round 2 port, command_stbd_actuator_deg = py_round 2 stbd,
           firing_interlock_cleared = ready, combat_lock = engaged,
           asymmetric_split_delta_deg = py_round 2 \<bar>port - stbd\<bar>,
           vessel_storm_list_deg = py_round 2 (degrees persistent)\<rparr>))"


definition mirrored :: "trim_report \<Rightarrow> trim_report" where
  "mirrored r = r\<lparr>asymmetric_trim_required_deg := - asymmetric_trim_required_deg r,
                  predicted_bank_moment_nm := - predicted_bank_moment_nm r\<rparr>"

lemma clamped_trim_minus: "0 < trim_max_rudder p \<Longrightarrow> clamped_trim p (- x) = - clamped_trim p x"
  by (auto simp: clamped_trim_def Let_def clamp_def min_def max_def)

lemma trim_result_mirrored:
  assumes "0 < trim_max_rudder p"
  shows "trim_result p (- x) (- y) = map_option mirrored (trim_result p x y)"
  using assms
  by (simp add: trim_result_def Let_def clamped_trim_minus py_round_minus mirrored_def abs_minus_cancel
      minus_divide_left [symmetric] del: minus_divide_left)

lemma trim_result_bounds:
  assumes "0 < trim_max_rudder p"
  shows "\<exists>a. trim_result p x y = Some a \<and> \<bar>asymmetric_trim_required_deg a\<bar> \<le> py_round 2 (trim_max_rudder p * 0.45)
    \<and> 0 \<le> boundary_severity_index a \<and> boundary_severity_index a \<le> 1"
proof -
  have "\<bar>clamped_trim p x\<bar> \<le> trim_max_rudder p * 0.45"
    unfolding clamped_trim_def Let_def using assms by (intro clamp_abs_le) simp
  then have "\<bar>py_round 2 (clamped_trim p x)\<bar> \<le> py_round 2 (trim_max_rudder p * 0.45)" by (rule py_round_abs_le)
  moreover have "0 \<le> py_round 3 (min 1 \<bar>clamped_trim p x / (trim_max_rudder p * 0.45)\<bar>)"
    by (intro py_round_nonneg) simp
  moreover have "py_round 3 (min 1 \<bar>clamped_trim p x / (trim_max_rudder p * 0.45)\<bar>) \<le> 1"
    by (rule py_round_le [of _ 1 3 1000]) simp_all
  moreover have "trim_max_rudder p * 0.45 \<noteq> 0" using assms by simp
  ultimately show ?thesis unfolding trim_result_def Let_def
    by (simp only: if_False trim_report.simps option.inject ex_simps simp_thms)
qed

text \<open>With a positive draft, beam and rudder stop the channel trim always returns, it
  never asks for more than 45 percent of the mechanical rudder range, its severity index lies
  between 0 and 1, and the port bank gives the mirror image of the starboard bank: the opposite
  trim and the opposite moment with the same severity.\<close>

theorem channel_trim_mirrored_and_bounded:
  assumes "0 < trim_draft p" and "0 < trim_beam p" and "0 < trim_max_rudder p"
  shows "\<exists>a. calculate_asymmetric_channel_trim p tele (Some ''starboard'') = Some a
    \<and> calculate_asymmetric_channel_trim p tele (Some ''port'') = Some (mirrored a)
    \<and> \<bar>asymmetric_trim_required_deg a\<bar> \<le> py_round 2 (trim_max_rudder p * 0.45)
    \<and> 0 \<le> boundary_severity_index a \<and> boundary_severity_index a \<le> 1"
proof (cases "dget tele ''distance_to_bank_meters'' 100 / trim_beam p \<ge> 4
    \<or> dget tele ''distance_to_bank_meters'' 100 > 40")
  case True
  then have "calculate_asymmetric_channel_trim p tele side = Some compile_nominal_report" for side
    using assms by (simp add: calculate_asymmetric_channel_trim_def)
  moreover have "0 \<le> py_round 2 (trim_max_rudder p * 0.45)" using assms(3) by (intro py_round_nonneg) simp
  ultimately show ?thesis by (simp add: compile_nominal_report_def mirrored_def)
next
  case False
  let ?v = "max 0.1 (dget tele ''speed_ms'' 0)" and ?d = "dget tele ''depth'' 50"
    and ?b = "dget tele ''distance_to_bank_meters'' 100"
  let ?x = "channel_trim_deg p ?v ?d ?b"
    and ?y = "bank_yaw_coefficient p ?d ?b * (0.5 * 1025 * ?v\<^sup>2) * (trim_length p)\<^sup>2 * trim_draft p"
  have "calculate_asymmetric_channel_trim p tele (Some side)
      = (if side = ''starboard'' then trim_result p ?x (- ?y) else trim_result p (- ?x) ?y)" for side
    using assms(1,2) False unfolding calculate_asymmetric_channel_trim_def Let_def by simp
  then have "calculate_asymmetric_channel_trim p tele (Some ''starboard'') = trim_result p ?x (- ?y)"
    "calculate_asymmetric_channel_trim p tele (Some ''port'') = trim_result p (- ?x) (- (- ?y))"
    by simp_all
  with trim_result_bounds [OF assms(3), of ?x "- ?y"] show ?thesis
    unfolding trim_result_mirrored [OF assms(3)] by auto
qed

theorem channel_trim_mirrored_and_bounded_witness:
  "\<exists>a. calculate_asymmetric_channel_trim
        \<lparr>trim_length = 45, trim_beam = 9.5, trim_draft = 3.2, trim_max_rudder = 35\<rparr>
        [''distance_to_bank_meters'' \<mapsto> 12] (Some ''starboard'') = Some a
    \<and> calculate_asymmetric_channel_trim
        \<lparr>trim_length = 45, trim_beam = 9.5, trim_draft = 3.2, trim_max_rudder = 35\<rparr>
        [''distance_to_bank_meters'' \<mapsto> 12] (Some ''port'') = Some (mirrored a)"
  using channel_trim_mirrored_and_bounded
    [of "\<lparr>trim_length = 45, trim_beam = 9.5, trim_draft = 3.2, trim_max_rudder = 35\<rparr>"
      "[''distance_to_bank_meters'' \<mapsto> 12]"] by auto

definition roll_run :: "roll_stabilizer \<Rightarrow> (num_dict \<times> num_dict \<times> num_dict) list \<Rightarrow> roll_stabilizer" where
  "roll_run s is = foldl (\<lambda>s (t, e, w). fst (calculate_fire_synchronized_stabilization s t e w)) s is"

lemma push_roll_window: "push_roll (drop (n - 50) xs) x = drop (Suc n - 50) (xs @ [x])" if "n = length xs"
proof (cases "n < 50")
  case True
  then show ?thesis using that by (simp add: push_roll_def)
next
  case False
  then have "Suc n - 50 = Suc (n - 50)" by simp
  then show ?thesis using that False by (simp add: push_roll_def Let_def tl_drop drop_Suc [symmetric] del: drop_Suc)
qed

lemma roll_history_window:
  "roll_history (roll_run (roll_stabilizer_init m) is)
    = drop (length is - 50) (map (\<lambda>(t, e, w). dget e ''roll_angle_rad'' 0) is)"
proof (induction "is" rule: rev_induct)
  case (snoc i "is")
  then show ?case
    using push_roll_window [of "length is" "map (\<lambda>(t, e, w). dget e ''roll_angle_rad'' 0) is"]
    by (cases i) (simp add: roll_run_def calculate_fire_synchronized_stabilization_def Let_def)
qed (simp add: roll_run_def roll_stabilizer_init_def)

lemma stabilizer_bounds:
  assumes "0 \<le> roll_max_actuator s"
  shows "\<bar>command_port_actuator_deg (snd (calculate_fire_synchronized_stabilization s t e w))\<bar>
      \<le> py_round 2 (roll_max_actuator s)"
    and "\<bar>command_stbd_actuator_deg (snd (calculate_fire_synchronized_stabilization s t e w))\<bar>
      \<le> py_round 2 (roll_max_actuator s)"
  by (simp_all add: calculate_fire_synchronized_stabilization_def Let_def py_round_abs_le clamp_abs_le assms)

lemma stabilizer_interlock:
  "firing_interlock_cleared (snd (calculate_fire_synchronized_stabilization s t e w))
    \<longleftrightarrow> dflag w ''engagement_sequence_active'' \<and> \<bar>dget e ''roll_rate_rads'' 0\<bar> \<le> 0.03
      \<and> \<bar>dget e ''roll_angle_rad'' 0 - target_deck_roll (dget w ''target_elevation_deg'' 0)\<bar> < 0.02"
  by (simp add: calculate_fire_synchronized_stabilization_def Let_def)

lemma target_deck_roll_bound: "\<bar>target_deck_roll x\<bar> \<le> radians 8"
proof -
  have c: "-8 \<le> clamp (-8) 8 (x * 0.2)" "clamp (-8) 8 (x * 0.2) \<le> (8::real)" by (auto simp: clamp_def)
  have "0 \<le> pi / 180" by simp
  from mult_right_mono [OF c(1) this] mult_right_mono [OF c(2) this]
  show ?thesis by (simp add: target_deck_roll_def radians_def abs_le_iff del: clamp_ge clamp_le)
qed

text \<open>Property C17. The roll stabiliser after any history of cycles: its listing window holds exactly
  the last 50 roll angles, both actuator commands stay within the mechanical stop, and the
  firing interlock is cleared only while an engagement is active, the roll rate is at most
  0.03 rad/s and the deck is within 0.02 rad of a plane tilted at most 8 degrees.\<close>

theorem firing_interlock_safe:
  assumes "0 \<le> m"
    and "calculate_fire_synchronized_stabilization (roll_run (roll_stabilizer_init m) is) t e w = (s', r)"
  shows "\<bar>command_port_actuator_deg r\<bar> \<le> py_round 2 m \<and> \<bar>command_stbd_actuator_deg r\<bar> \<le> py_round 2 m
    \<and> roll_history s' = drop (Suc (length is) - 50)
        (map (\<lambda>(t, e, w). dget e ''roll_angle_rad'' 0) (is @ [(t, e, w)]))
    \<and> (firing_interlock_cleared r \<longrightarrow> dflag w ''engagement_sequence_active''
         \<and> \<bar>dget e ''roll_rate_rads'' 0\<bar> \<le> 0.03 \<and> \<bar>dget e ''roll_angle_rad'' 0\<bar> < radians 8 + 0.02)"
proof -
  let ?s = "roll_run (roll_stabilizer_init m) is"
  have act: "roll_max_actuator ?s = m"
    by (induction "is" rule: rev_induct)
      (simp_all add: roll_run_def roll_stabilizer_init_def calculate_fire_synchronized_stabilization_def Let_def
        split: prod.split)
  have ports: "\<bar>command_port_actuator_deg r\<bar> \<le> py_round 2 m" "\<bar>command_stbd_actuator_deg r\<bar> \<le> py_round 2 m"
    using stabilizer_bounds [of ?s t e w] assms by (simp_all add: act)
  have "s' = roll_run (roll_stabilizer_init m) (is @ [(t, e, w)])" using assms(2) by (simp add: roll_run_def)
  then have window: "roll_history s' = drop (Suc (length is) - 50)
      (map (\<lambda>(t, e, w). dget e ''roll_angle_rad'' 0) (is @ [(t, e, w)]))"
    using roll_history_window [of m "is @ [(t, e, w)]"] by simp
  have "dflag w ''engagement_sequence_active'' \<and> \<bar>dget e ''roll_rate_rads'' 0\<bar> \<le> 0.03
      \<and> \<bar>dget e ''roll_angle_rad'' 0 - target_deck_roll (dget w ''target_elevation_deg'' 0)\<bar> < 0.02"
    if "firing_interlock_cleared r"
    using stabilizer_interlock [of ?s t e w] that assms(2) by simp
  moreover have "\<bar>a\<bar> < radians 8 + 0.02" if "\<bar>a - target_deck_roll x\<bar> < 0.02" for a x
    using that target_deck_roll_bound [of x] by linarith
  ultimately have cleared: "dflag w ''engagement_sequence_active'' \<and> \<bar>dget e ''roll_rate_rads'' 0\<bar> \<le> 0.03
      \<and> \<bar>dget e ''roll_angle_rad'' 0\<bar> < radians 8 + 0.02" if "firing_interlock_cleared r"
    using that by blast
  show ?thesis using ports window cleared by blast
qed

theorem firing_interlock_safe_witness:
  "firing_interlock_cleared (snd (calculate_fire_synchronized_stabilization
      (roll_run (roll_stabilizer_init 35) []) Map.empty Map.empty [''engagement_sequence_active'' \<mapsto> 1]))
   \<and> \<bar>dget (Map.empty :: num_dict) ''roll_angle_rad'' 0\<bar> < radians 8 + 0.02"
proof -
  let ?c = "calculate_fire_synchronized_stabilization
      (roll_run (roll_stabilizer_init 35) []) Map.empty Map.empty [''engagement_sequence_active'' \<mapsto> 1]"
  have cleared: "firing_interlock_cleared (snd ?c)"
    unfolding stabilizer_interlock by (simp add: dflag_def target_deck_roll_def radians_def dget_def clamp_def)
  moreover have "firing_interlock_cleared (snd ?c) \<longrightarrow>
      \<bar>dget (Map.empty :: num_dict) ''roll_angle_rad'' 0\<bar> < radians 8 + 0.02"
    using firing_interlock_safe [of 35 "[]", OF _ prod.collapse [of ?c, symmetric]] by linarith
  ultimately show ?thesis by blast
qed


section \<open>Coordinated predictor\<close>

record hydro_predictor =
  hp_diameter :: real
  hp_draft :: real
  hp_max_torque :: real
  hp_max_rudder :: real
  hp_current_accel :: real

definition hydro_predictor_init :: "real \<Rightarrow> real \<Rightarrow> real \<Rightarrow> real \<Rightarrow> hydro_predictor" where
  "hydro_predictor_init d draft torque rudder =
     \<lparr>hp_diameter = d, hp_draft = draft, hp_max_torque = torque, hp_max_rudder = rudder, hp_current_accel = 0\<rparr>"

definition predict_wave_impact :: "real \<Rightarrow> real \<Rightarrow> real \<Rightarrow> real" where
  "predict_wave_impact freq speed heading =
     (if freq \<le> 0.01 then 0
      else let c_p = 9.81 / (2 * pi * freq); relative = c_p + speed * cos heading
           in 150 / max 0.1 relative)"

text \<open>The hydrodynamic load and the ventilation factor; a zero diameter raises when the shaft turns.\<close>

definition calculate_wave_torque_limit :: "hydro_predictor \<Rightarrow> real \<Rightarrow> real \<Rightarrow> real \<Rightarrow> (real \<times> real) option" where
  "calculate_wave_torque_limit s rpm amplitude phase =
     (let n = rpm / 60
      in if n = 0 then Some (0, 1)
         else if hp_diameter s = 0 then None
         else let depth = hp_draft s + amplitude * sin phase;
                  ratio = max 0 (depth / hp_diameter s);
                  beta = min 1 (tanh (1.5 * ratio))
              in Some (0.04 * 1025 * n\<^sup>2 * hp_diameter s ^ 5 * beta, beta))"

definition calculate_rrs_command :: "real \<Rightarrow> real \<Rightarrow> real \<Rightarrow> real \<Rightarrow> real" where
  "calculate_rrs_command target_yaw yaw roll roll_rate =
     degrees (12 * (target_yaw - yaw) + (- 8.5 * roll + - 4.2 * roll_rate))"

definition predictor_accel :: "hydro_predictor \<Rightarrow> real \<Rightarrow> real \<Rightarrow> real" where
  "predictor_accel s err dt =
     (if \<bar>err\<bar> \<ge> 0.1
      then clamp (-50) 50 (hp_current_accel s + (if err > 0 then 1 else -1) * 5 * dt)
      else 0)"

definition execute_maneuver ::
    "hydro_predictor \<Rightarrow> real \<Rightarrow> real \<Rightarrow> num_dict \<Rightarrow> real \<Rightarrow> (hydro_predictor \<times> real \<times> real \<times> real) option" where
  "execute_maneuver s target_rpm target_yaw tele dt =
     (case (tele ''rpm'', tele ''depth'', tele ''amps'', tele ''speed_ms'') of
        (Some rpm, Some _, Some _, Some speed) \<Rightarrow>
          let freq = dget tele ''wave_freq_hz'' 0.1;
              phase = dget tele ''wave_phase_rad'' 0 + 2 * pi * freq * predict_wave_impact freq speed 0
          in map_option (\<lambda>(q_h, beta).
               let accel = predictor_accel s (target_rpm - rpm) dt;
                   omega = rpm * 2 * pi / 60;
                   profiled = (rpm + accel * dt) * 2 * pi / 60;
                   demanded = 180 * (profiled - omega) + q_h;
                   limit = hp_max_torque s * beta;
                   torque = clamp (- limit) limit demanded;
                   wanted = calculate_rrs_command target_yaw (dget tele ''yaw_rate_rads'' 0)
                              (dget tele ''roll_rad'' 0) (dget tele ''roll_rate_rads'' 0);
                   move = 15 * dt;
                   rudder = dget tele ''rudder_deg'' 0;
                   slewed = rudder + clamp (- move) move (wanted - rudder)
               in (s\<lparr>hp_current_accel := accel\<rparr>, torque, clamp (- hp_max_rudder s) (hp_max_rudder s) slewed, beta))
             (calculate_wave_torque_limit s rpm (dget tele ''wave_amp_m'' 0) phase)
      | _ \<Rightarrow> None)"

lemma wave_torque_beta:
  assumes "calculate_wave_torque_limit s rpm a ph = Some (q, beta)"
  shows "0 \<le> beta" and "beta \<le> 1"
  using assms by (auto simp: calculate_wave_torque_limit_def Let_def split: if_splits)

lemma slew_bound:
  fixes r :: real
  assumes "0 \<le> d" and "\<bar>r\<bar> \<le> m"
  shows "\<bar>clamp (- m) m (r + clamp (- d) d x) - r\<bar> \<le> d" and "\<bar>clamp (- m) m (r + clamp (- d) d x)\<bar> \<le> m"
  using assms by (auto simp: clamp_def min_def max_def abs_le_iff)

text \<open>Property C26. Whatever is ordered, the coordinated predictor's motor torque stays within the
  maximum scaled by the ventilation factor, a factor between 0 and 1, and the rudder moves at most
  15 degrees per second from its measured position and never past its stop.\<close>

theorem maneuver_physically_safe:
  assumes "execute_maneuver s target_rpm target_yaw tele dt = Some (s', torque, rudder, beta)"
    and "0 \<le> hp_max_torque s" and "0 \<le> dt" and "\<bar>dget tele ''rudder_deg'' 0\<bar> \<le> hp_max_rudder s"
  shows "\<bar>torque\<bar> \<le> hp_max_torque s * beta \<and> 0 \<le> beta \<and> beta \<le> 1
    \<and> \<bar>rudder - dget tele ''rudder_deg'' 0\<bar> \<le> 15 * dt \<and> \<bar>rudder\<bar> \<le> hp_max_rudder s
    \<and> \<bar>hp_current_accel s'\<bar> \<le> 50"
proof -
  let ?freq = "dget tele ''wave_freq_hz'' 0.1"
  obtain rpm speed where keys: "tele ''rpm'' = Some rpm" "tele ''speed_ms'' = Some speed"
    using assms(1) by (auto simp: execute_maneuver_def split: option.splits)
  obtain q where beta: "calculate_wave_torque_limit s rpm (dget tele ''wave_amp_m'' 0)
      (dget tele ''wave_phase_rad'' 0 + 2 * pi * ?freq * predict_wave_impact ?freq speed 0) = Some (q, beta)"
    using assms(1) keys by (auto simp: execute_maneuver_def Let_def split: option.splits)
  from assms(1) keys beta obtain demanded wanted where
    torque: "torque = clamp (- (hp_max_torque s * beta)) (hp_max_torque s * beta) demanded"
    and rudder: "rudder = clamp (- hp_max_rudder s) (hp_max_rudder s)
      (dget tele ''rudder_deg'' 0 + clamp (- (15 * dt)) (15 * dt) (wanted - dget tele ''rudder_deg'' 0))"
    and accel: "hp_current_accel s' = predictor_accel s (target_rpm - rpm) dt"
    by (auto simp: execute_maneuver_def Let_def split: option.splits)
  have "\<bar>predictor_accel s e dt\<bar> \<le> 50" for e
    using clamp_abs_le [of "50::real"] by (auto simp: predictor_accel_def)
  moreover have "\<bar>torque\<bar> \<le> hp_max_torque s * beta"
    unfolding torque using wave_torque_beta [OF beta] assms(2) by (intro clamp_abs_le) simp
  ultimately show ?thesis
    using wave_torque_beta [OF beta] slew_bound [of "15 * dt" _ "hp_max_rudder s"] assms(3,4)
    by (simp add: accel rudder)
qed

theorem maneuver_physically_safe_witness:
  "\<exists>s' torque rudder beta.
     execute_maneuver (hydro_predictor_init 3.4 6.5 90000 35) 550 0.15
       [''rpm'' \<mapsto> 0, ''depth'' \<mapsto> 20, ''amps'' \<mapsto> 400, ''speed_ms'' \<mapsto> 7] 0.1 = Some (s', torque, rudder, beta)
     \<and> \<bar>rudder - 0\<bar> \<le> 15 * 0.1 \<and> \<bar>torque\<bar> \<le> 90000 * beta"
proof -
  let ?s = "hydro_predictor_init 3.4 6.5 90000 35"
  let ?t = "[''rpm'' \<mapsto> 0, ''depth'' \<mapsto> 20, ''amps'' \<mapsto> 400, ''speed_ms'' \<mapsto> (7::real)]"
  obtain s' torque rudder beta where r: "execute_maneuver ?s 550 0.15 ?t 0.1 = Some (s', torque, rudder, beta)"
    by (simp add: execute_maneuver_def calculate_wave_torque_limit_def Let_def)
  from maneuver_physically_safe [OF r] have "\<bar>rudder - 0\<bar> \<le> 15 * 0.1 \<and> \<bar>torque\<bar> \<le> 90000 * beta"
    by (simp add: hydro_predictor_init_def dget_def)
  with r show ?thesis by blast
qed

end
