(* ===== verification/Engine.thy ===== *)
theory Engine
  imports Hydro
begin

text \<open>
  The bridge execution engine (\<open>control_core/bridge_execution_engine.py\<close>): one cycle takes the
  targets and the telemetry and returns motor torque, rudder angle and the upstream packet.

  The subsystem classes the engine imports (\<open>WaveParameterMatrix\<close>, \<open>BankSuctionLookupTable\<close>,
  \<open>NAVMOD_Subsystem\<close> and others) do not exist under these names in the repository, so the guarded
  import fails and the constructor leaves \<open>subsystems_online\<close> false. The cycle is modelled with
  both values of the flag: what the online subsystems answer is the argument \<open>sub\<close>, a record of
  functions about which nothing is assumed.
\<close>

section \<open>State\<close>

record bridge_engine = notch_registers +
  prop_diameter :: real
  inertia_prop :: real
  engine_draft :: real
  engine_max_torque :: real
  max_rudder_deg :: real
  rudder_arm_z :: real
  subsystems_online :: bool
  bow_history :: "real list"
  integral_speed_error :: real
  current_accel :: real
  current_ramp_rpm :: real
  current_rpm_state :: real
  last_known_lat_rad :: real
  last_known_lon_rad :: real

record subsystems =
  integrate_dr :: "real \<Rightarrow> real \<Rightarrow> real \<Rightarrow> real \<Rightarrow> real \<Rightarrow> real \<times> real"
  weapon_list_deg :: "num_dict \<Rightarrow> real"
  channel_trim :: "num_dict \<Rightarrow> real"
  bank_force :: "num_dict \<Rightarrow> real \<Rightarrow> real"
  wave_index :: "real \<Rightarrow> real \<Rightarrow> num_dict \<Rightarrow> real \<Rightarrow> real"
  coriolis_deg :: "real \<Rightarrow> real \<Rightarrow> real"

definition bridge_engine_init :: "num_dict \<Rightarrow> bridge_engine" where
  "bridge_engine_init profile =
     \<lparr>notch_x1 = 0, notch_x2 = 0, notch_y1 = 0, notch_y2 = 0,
      prop_diameter = dget profile ''diameter'' 3.4,
      inertia_prop = dget profile ''inertia_prop'' 500,
      engine_draft = dget profile ''draft'' 6.5,
      engine_max_torque = dget profile ''max_torque'' 90000,
      max_rudder_deg = dget profile ''max_rudder_deg'' 35,
      rudder_arm_z = dget profile ''rudder_arm_z'' 2.8,
      subsystems_online = False, bow_history = replicate 5 0,
      integral_speed_error = 0, current_accel = 0, current_ramp_rpm = 0, current_rpm_state = 0,
      last_known_lat_rad = 0, last_known_lon_rad = 0\<rparr>"

section \<open>Feature routines\<close>

text \<open>The ramp register doubles as "not started" marker: the value 0 is reseeded from the shaft.\<close>

definition execute_s_curve_profile :: "bridge_engine \<Rightarrow> real \<Rightarrow> real \<Rightarrow> real \<Rightarrow> bridge_engine \<times> real" where
  "execute_s_curve_profile s target rpm dt =
     (let ramp = (if current_ramp_rpm s = 0 then rpm else current_ramp_rpm s);
          err = target - ramp
      in if \<bar>err\<bar> < 0.1 then (s\<lparr>current_ramp_rpm := ramp, current_accel := 0\<rparr>, target)
         else
           let jerk = (if err > 0 then 1 else -1);
               accel = clamp (-50) 50 (current_accel s + jerk * 5 * dt);
               ramp' = ramp + accel * dt
           in (s\<lparr>current_accel := accel, current_ramp_rpm := ramp'\<rparr>, clamp (-200) 1200 ramp'))"

definition calculate_wave_ventilation :: "bridge_engine \<Rightarrow> real \<Rightarrow> bridge_engine \<times> real" where
  "calculate_wave_ventilation s raw =
     (let h = np_shift (bow_history s) raw;
          submergence = 3.5 + np_dot ar_weights h
      in (s\<lparr>bow_history := h\<rparr>,
          if submergence \<ge> prop_diameter s then 1
          else if submergence \<le> 0 then 0.05
          else (sin ((pi / 2) * (submergence / prop_diameter s)))\<^sup>2))"

text \<open>The engine's notch filter repeats the wave processor's difference equation on its own registers.\<close>

definition engine_notch_filter :: "bridge_engine \<Rightarrow> real \<Rightarrow> real \<Rightarrow> bridge_engine \<times> real" where
  "engine_notch_filter s cmd dt =
     (let y = notch_output s cmd dt
      in (s\<lparr>notch_x2 := notch_x1 s, notch_x1 := cmd, notch_y2 := notch_y1 s, notch_y1 := y\<rparr>, y))"

text \<open>\<open>math.copysign\<close>\<close>

definition copysign :: "real \<Rightarrow> real \<Rightarrow> real" where
  "copysign x y = (if y < 0 then - \<bar>x\<bar> else \<bar>x\<bar>)"

definition bending_factor :: "bridge_engine \<Rightarrow> real \<Rightarrow> real" where
  "bending_factor s omega = 0.015 * 1025 * omega\<^sup>2 * prop_diameter s ^ 5"

definition enforce_propeller_shear_protection :: "bridge_engine \<Rightarrow> real \<Rightarrow> real \<Rightarrow> real" where
  "enforce_propeller_shear_protection s yaw omega =
     (let allowable = engine_max_torque s * 0.85
      in if bending_factor s omega * \<bar>yaw\<bar> > allowable \<and> omega > 0.1
         then copysign (allowable / bending_factor s omega) yaw else yaw)"

definition calculate_rudder_roll_moment :: "bridge_engine \<Rightarrow> real \<Rightarrow> real \<Rightarrow> real" where
  "calculate_rudder_roll_moment s rudder speed =
     0.5 * 1025 * speed\<^sup>2 * 4.5 * (0.1 * rudder) * rudder_arm_z s"

section \<open>The cycle\<close>

definition shaft_omega :: "real \<Rightarrow> real" where
  "shaft_omega rpm = rpm * 2 * pi / 60"

text \<open>Stage 0: the position register follows GPS; without it dead reckoning, when online and once a
  position is known, moves the register and overwrites the position in the caller's telemetry.\<close>

definition position_stage ::
    "subsystems \<Rightarrow> bridge_engine \<Rightarrow> num_dict \<Rightarrow> real \<Rightarrow> bridge_engine \<times> num_dict" where
  "position_stage sub s tele dt =
     (if dget tele ''gps_valid'' 1 \<noteq> 0
      then (s\<lparr>last_known_lat_rad := dget tele ''latitude_rad'' (last_known_lat_rad s),
              last_known_lon_rad := dget tele ''longitude_rad'' (last_known_lon_rad s)\<rparr>, tele)
      else if subsystems_online s \<and> last_known_lat_rad s \<noteq> 0
      then let (lat, lon) = integrate_dr sub (last_known_lat_rad s) (last_known_lon_rad s)
                              (dget tele ''speed_ms'' 0) (dget tele ''heading_rad'' 0) dt
           in (s\<lparr>last_known_lat_rad := lat, last_known_lon_rad := lon\<rparr>,
               tele(''latitude_rad'' \<mapsto> lat, ''longitude_rad'' \<mapsto> lon))
      else (s, tele))"

definition weapon_stage :: "subsystems \<Rightarrow> bridge_engine \<Rightarrow> num_dict \<Rightarrow> num_dict" where
  "weapon_stage sub s tele =
     (if subsystems_online s \<and> tele ''gun_azimuth_deg'' \<noteq> None
      then tele(''roll_angle_rad'' \<mapsto> dget tele ''roll_angle_rad'' 0 + radians (weapon_list_deg sub tele))
      else tele)"

text \<open>Stage 1: squat, dynamic draft and the depth Froude number.\<close>

definition dynamic_draft :: "bridge_engine \<Rightarrow> num_dict \<Rightarrow> real" where
  "dynamic_draft s tele =
     (let speed = dget tele ''speed_ms'' 0;
          clearance = max 0.1 (dget tele ''depth'' 50 - engine_draft s);
          squat = 0.7 * (speed / 10)\<^sup>2 * (1 + 0.1 * (engine_draft s / clearance))
      in engine_draft s + squat)"

definition slowdown_active :: "num_dict \<Rightarrow> bool" where
  "slowdown_active tele \<longleftrightarrow>
     dget tele ''speed_ms'' 0 / sqrt (9.81 * max 0.5 (dget tele ''depth'' 50)) > 0.85"

definition safe_target_rpm :: "num_dict \<Rightarrow> num_dict \<Rightarrow> real" where
  "safe_target_rpm targets tele =
     (if slowdown_active tele then min (dget targets ''rpm'' 0) 250 else dget targets ''rpm'' 0)"

text \<open>Stage 4: the speed loop with its windup interlock.\<close>

definition base_torque :: "real \<Rightarrow> real \<Rightarrow> real" where
  "base_torque err integral = 220 * err + 10 * integral"

definition integrate_speed_error :: "bridge_engine \<Rightarrow> real \<Rightarrow> real \<Rightarrow> bridge_engine \<times> real" where
  "integrate_speed_error s err dt =
     (let base = base_torque err (integral_speed_error s)
      in if \<bar>base\<bar> < engine_max_torque s
         then let i = integral_speed_error s + err * dt
              in (s\<lparr>integral_speed_error := i\<rparr>, base_torque err i)
         else (s, base))"

definition motor_torque :: "bridge_engine \<Rightarrow> real \<Rightarrow> real \<Rightarrow> real \<Rightarrow> real" where
  "motor_torque s base beta bank =
     (let coordinated = base * beta;
          shed = (if bank > 10000 then coordinated - bank * 0.1 else coordinated)
      in clamp (- engine_max_torque s) (engine_max_torque s) shed)"


text \<open>Stage 5: steering law, notch filter, speed-dependent cap; the filter's output register is then
  overwritten by the clamped command.\<close>

definition steering_demand_deg :: "bridge_engine \<Rightarrow> num_dict \<Rightarrow> num_dict \<Rightarrow> real \<Rightarrow> real" where
  "steering_demand_deg s targets tele omega =
     (let safe_yaw = enforce_propeller_shear_protection s (dget targets ''target_yaw_rate'' 0) omega
      in degrees (1.8 * (safe_yaw - dget tele ''yaw_rate_rads'' 0) + -2.5 * dget tele ''roll_rate_rads'' 0))"

definition rudder_cap :: "bridge_engine \<Rightarrow> real \<Rightarrow> real" where
  "rudder_cap s omega = max_rudder_deg s * exp (-0.015 * \<bar>omega\<bar>)"

definition steering_stage :: "bridge_engine \<Rightarrow> real \<Rightarrow> real \<Rightarrow> real \<Rightarrow> bridge_engine \<times> real" where
  "steering_stage s demand omega dt =
     (let (s1, filtered) = engine_notch_filter s demand dt;
          rudder = clamp (- rudder_cap s omega) (rudder_cap s omega) filtered
      in (s1\<lparr>notch_y1 := rudder\<rparr>, rudder))"

text \<open>Stage 6: the structural moment.\<close>

definition structural_moment :: "bridge_engine \<Rightarrow> real \<Rightarrow> real \<Rightarrow> real" where
  "structural_moment s omega yaw =
     \<bar>bending_factor s omega * yaw\<bar> + \<bar>inertia_prop s * omega * yaw\<bar>"

record insight_link =
  dead_reckoning_active :: bool
  dead_reckoning_lat_rad :: real
  dead_reckoning_lon_rad :: real
  coriolis_drift_correction_deg :: real
  subsurface_ventilation_index :: real
  predicted_keel_clearance_meters :: real
  structural_fatigue_load_percentage :: real
  asymmetric_channel_trim_applied_deg :: real
  predicted_rudder_roll_moment_nm :: real
  structural_yaw_override_active :: bool

record bridge_commands =
  command_motor_torque_nm :: real
  command_rudder_angle_deg :: real
  active_structural_moment_nm :: real
  active_rpm_cap :: real
  shallow_water_slowdown_active :: bool
  upstream_autonomy_telemetry :: insight_link

text \<open>One cycle. The result holds the new state, the telemetry dictionary as the call leaves it,
  and the commands.\<close>

definition execute_bridge_loop ::
    "subsystems \<Rightarrow> bridge_engine \<Rightarrow> num_dict \<Rightarrow> num_dict \<Rightarrow> real \<Rightarrow> bridge_engine \<times> num_dict \<times> bridge_commands" where
  "execute_bridge_loop sub s0 targets tele0 dt =
     (let online = subsystems_online s0;
          rpm = dget tele0 ''rpm'' (current_rpm_state s0);
          omega = shaft_omega rpm;
          speed = dget tele0 ''speed_ms'' 0;
          gps_valid = (dget tele0 ''gps_valid'' 1 \<noteq> 0);
          (s1, tele1) = position_stage sub s0 tele0 dt;
          tele = weapon_stage sub s1 tele1;
          target = safe_target_rpm targets tele;
          trim = (if online then channel_trim sub tele else 0);
          bank = (if online then bank_force sub tele dt else 0);
          yaw_target = dget targets ''target_yaw_rate'' 0;
          (s2, beta0) = calculate_wave_ventilation s1 (dget tele ''bow_sensor_meters'' 0);
          beta = (if online then min beta0 (wave_index sub target yaw_target tele dt) else beta0);
          (s3, profiled) = execute_s_curve_profile s2 target rpm dt;
          (s4, base) = integrate_speed_error s3 (shaft_omega profiled - omega) dt;
          torque = motor_torque s4 base beta bank;
          safe_yaw = enforce_propeller_shear_protection s4 yaw_target omega;
          coriolis = (case tele ''latitude_rad'' of
                        Some lat \<Rightarrow> if online then coriolis_deg sub speed lat else 0 | None \<Rightarrow> 0);
          (s5, rudder) = steering_stage s4 (steering_demand_deg s4 targets tele omega + trim + coriolis) omega dt;
          moment = structural_moment s5 omega (dget tele ''yaw_rate_rads'' 0)
      in (s5\<lparr>current_rpm_state := rpm\<rparr>, tele,
          \<lparr>command_motor_torque_nm = py_round 1 torque,
           command_rudder_angle_deg = py_round 2 rudder,
           active_structural_moment_nm = py_round 1 moment,
           active_rpm_cap = py_round 1 profiled,
           shallow_water_slowdown_active = slowdown_active tele,
           upstream_autonomy_telemetry =
             \<lparr>dead_reckoning_active = (\<not> gps_valid),
              dead_reckoning_lat_rad = py_round 6 (last_known_lat_rad s5),
              dead_reckoning_lon_rad = py_round 6 (last_known_lon_rad s5),
              coriolis_drift_correction_deg = py_round 3 coriolis,
              subsurface_ventilation_index = py_round 3 beta,
              predicted_keel_clearance_meters = py_round 2 (dget tele ''depth'' 50 - dynamic_draft s5 tele),
              structural_fatigue_load_percentage = py_round 1 (moment / (1500000 / 2.5) * 100),
              asymmetric_channel_trim_applied_deg = py_round 2 trim,
              predicted_rudder_roll_moment_nm = py_round 1 (calculate_rudder_roll_moment s5 rudder speed),
              structural_yaw_override_active = (\<bar>yaw_target - safe_yaw\<bar> > 0.01)\<rparr>\<rparr>))"

text \<open>A watch is a sequence of cycles, each with its targets, telemetry and period.\<close>

type_synonym bridge_cycle = "num_dict \<times> num_dict \<times> real"

definition bridge_watch :: "subsystems \<Rightarrow> bridge_engine \<Rightarrow> bridge_cycle list \<Rightarrow> bridge_engine" where
  "bridge_watch sub s cs = foldl (\<lambda>s (targets, tele, dt). fst (execute_bridge_loop sub s targets tele dt)) s cs"

section \<open>The shear limit\<close>




section \<open>What every cycle guarantees\<close>

lemma position_stage_keeps [simp]:
  "engine_max_torque (fst (position_stage sub s tele dt)) = engine_max_torque s"
  "max_rudder_deg (fst (position_stage sub s tele dt)) = max_rudder_deg s"
  "subsystems_online (fst (position_stage sub s tele dt)) = subsystems_online s"
  "integral_speed_error (fst (position_stage sub s tele dt)) = integral_speed_error s"
  "current_accel (fst (position_stage sub s tele dt)) = current_accel s"
  by (simp_all add: position_stage_def Let_def split: prod.split)

lemma ventilation_keeps [simp]:
  "engine_max_torque (fst (calculate_wave_ventilation s r)) = engine_max_torque s"
  "max_rudder_deg (fst (calculate_wave_ventilation s r)) = max_rudder_deg s"
  "subsystems_online (fst (calculate_wave_ventilation s r)) = subsystems_online s"
  "integral_speed_error (fst (calculate_wave_ventilation s r)) = integral_speed_error s"
  "current_accel (fst (calculate_wave_ventilation s r)) = current_accel s"
  by (simp_all add: calculate_wave_ventilation_def Let_def)

lemma s_curve_keeps [simp]:
  "engine_max_torque (fst (execute_s_curve_profile s t r dt)) = engine_max_torque s"
  "max_rudder_deg (fst (execute_s_curve_profile s t r dt)) = max_rudder_deg s"
  "subsystems_online (fst (execute_s_curve_profile s t r dt)) = subsystems_online s"
  "integral_speed_error (fst (execute_s_curve_profile s t r dt)) = integral_speed_error s"
  by (simp_all add: execute_s_curve_profile_def Let_def)

lemma integrate_keeps [simp]:
  "engine_max_torque (fst (integrate_speed_error s e dt)) = engine_max_torque s"
  "max_rudder_deg (fst (integrate_speed_error s e dt)) = max_rudder_deg s"
  "subsystems_online (fst (integrate_speed_error s e dt)) = subsystems_online s"
  "current_accel (fst (integrate_speed_error s e dt)) = current_accel s"
  by (simp_all add: integrate_speed_error_def Let_def)

lemma steering_keeps [simp]:
  "engine_max_torque (fst (steering_stage s d w dt)) = engine_max_torque s"
  "max_rudder_deg (fst (steering_stage s d w dt)) = max_rudder_deg s"
  "subsystems_online (fst (steering_stage s d w dt)) = subsystems_online s"
  "integral_speed_error (fst (steering_stage s d w dt)) = integral_speed_error s"
  "current_accel (fst (steering_stage s d w dt)) = current_accel s"
  by (simp_all add: steering_stage_def engine_notch_filter_def Let_def)

lemma steering_notch [simp]: "notch_y1 (fst (steering_stage s d w dt)) = snd (steering_stage s d w dt)"
  by (simp add: steering_stage_def engine_notch_filter_def Let_def)

lemma loop_state:
  obtains t b d where
    "fst (execute_bridge_loop sub s targets tele dt) =
       (let r = dget tele ''rpm'' (current_rpm_state s);
            s2 = fst (calculate_wave_ventilation (fst (position_stage sub s tele dt)) b);
            s3 = fst (execute_s_curve_profile s2 t r dt);
            e = shaft_omega (snd (execute_s_curve_profile s2 t r dt)) - shaft_omega r;
            s4 = fst (integrate_speed_error s3 e dt)
        in (fst (steering_stage s4 d (shaft_omega r) dt))\<lparr>current_rpm_state := r\<rparr>)"
    and "t = dget targets ''rpm'' 0 \<or> t = min (dget targets ''rpm'' 0) 250"
proof -
  let ?tele = "weapon_stage sub (fst (position_stage sub s tele dt)) (snd (position_stage sub s tele dt))"
  show ?thesis
    by (rule that [of "dget ?tele ''bow_sensor_meters'' 0" "safe_target_rpm targets ?tele"])
      (simp add: execute_bridge_loop_def Let_def split_beta, simp add: safe_target_rpm_def)
qed

lemma motor_torque_abs:
  assumes "engine_max_torque s = m" and "0 \<le> m"
  shows "\<bar>py_round 1 (motor_torque s base beta bank)\<bar> \<le> py_round 1 m"
  using assms by (auto simp: motor_torque_def Let_def intro!: py_round_abs_le clamp_abs_le)

lemma steering_abs:
  assumes "max_rudder_deg s = m" and "0 \<le> m"
  shows "\<bar>snd (steering_stage s d w dt)\<bar> \<le> m * exp (-0.015 * \<bar>w\<bar>)"
  using assms by (simp add: steering_stage_def Let_def split_beta rudder_cap_def clamp_abs_le)

lemma loop_torque:
  assumes "0 \<le> engine_max_torque s"
  shows "\<bar>command_motor_torque_nm (snd (snd (execute_bridge_loop sub s targets tele dt)))\<bar>
    \<le> py_round 1 (engine_max_torque s)"
  unfolding execute_bridge_loop_def Let_def split_beta snd_conv bridge_commands.simps
  by (rule motor_torque_abs) (simp_all add: assms)

lemma loop_rudder:
  assumes "0 \<le> max_rudder_deg s"
  shows "\<bar>command_rudder_angle_deg (snd (snd (execute_bridge_loop sub s targets tele dt)))\<bar>
    \<le> py_round 2 (max_rudder_deg s * exp (-0.015 * \<bar>shaft_omega (dget tele ''rpm'' (current_rpm_state s))\<bar>))"
  unfolding execute_bridge_loop_def Let_def split_beta snd_conv bridge_commands.simps
  by (rule py_round_abs_le, rule steering_abs) (simp_all add: assms)

lemma loop_rudder_stop:
  assumes "0 \<le> max_rudder_deg s"
  shows "\<bar>command_rudder_angle_deg (snd (snd (execute_bridge_loop sub s targets tele dt)))\<bar> \<le> py_round 2 (max_rudder_deg s)"
proof -
  have "max_rudder_deg s * exp (-0.015 * \<bar>x\<bar>) \<le> max_rudder_deg s" for x
    using mult_left_mono [OF _ assms, of "exp (-0.015 * \<bar>x\<bar>)" 1] by simp
  from py_round_mono [OF this, of 2] loop_rudder [OF assms] show ?thesis by (meson order_trans)
qed

lemma engine_ventilation_range:
  "0 \<le> snd (calculate_wave_ventilation s r)" "snd (calculate_wave_ventilation s r) \<le> 1"
proof -
  have "(sin x)\<^sup>2 \<le> 1" for x :: real by (simp add: abs_square_le_1)
  then show "0 \<le> snd (calculate_wave_ventilation s r)" "snd (calculate_wave_ventilation s r) \<le> 1"
    by (auto simp: calculate_wave_ventilation_def Let_def)
qed

lemma loop_ventilation:
  assumes "\<not> subsystems_online s"
  shows "0 \<le> subsurface_ventilation_index (upstream_autonomy_telemetry (snd (snd (execute_bridge_loop sub s targets tele dt))))"
    and "subsurface_ventilation_index (upstream_autonomy_telemetry (snd (snd (execute_bridge_loop sub s targets tele dt)))) \<le> 1"
  unfolding execute_bridge_loop_def Let_def split_beta snd_conv bridge_commands.simps insight_link.simps
  by (simp_all add: assms py_round_nonneg engine_ventilation_range)
    (rule py_round_le [of _ 1 3 1000], simp_all add: engine_ventilation_range)

lemma loop_keeps [simp]:
  "engine_max_torque (fst (execute_bridge_loop sub s targets tele dt)) = engine_max_torque s"
  "max_rudder_deg (fst (execute_bridge_loop sub s targets tele dt)) = max_rudder_deg s"
  "subsystems_online (fst (execute_bridge_loop sub s targets tele dt)) = subsystems_online s"
  by (rule loop_state [of sub s targets tele dt], simp add: Let_def)+

lemma watch_simps [simp]:
  "bridge_watch sub s [] = s"
  "bridge_watch sub s (cs @ [c]) =
     fst (execute_bridge_loop sub (bridge_watch sub s cs) (fst c) (fst (snd c)) (snd (snd c)))"
  by (simp_all add: bridge_watch_def split_beta)

lemma watch_keeps [simp]:
  "engine_max_torque (bridge_watch sub s cs) = engine_max_torque s"
  "max_rudder_deg (bridge_watch sub s cs) = max_rudder_deg s"
  "subsystems_online (bridge_watch sub s cs) = subsystems_online s"
  by (induction cs rule: rev_induct) simp_all

text \<open>Property C3. After any watch, from any profile with non-negative limits: the next motor torque
  command is within the vessel's torque limit, the rudder command within the mechanical stop and
  within the cap that shrinks exponentially with shaft speed, the ventilation index reported
  upstream is between 0 and 1 in the safe mode the shipped code runs in.\<close>

theorem bridge_commands_bounded:
  fixes sub :: subsystems and cs :: "bridge_cycle list"
  assumes "0 \<le> dget profile ''max_torque'' 90000" and "0 \<le> dget profile ''max_rudder_deg'' 35"
  defines "m \<equiv> dget profile ''max_torque'' 90000" and "k \<equiv> dget profile ''max_rudder_deg'' 35"
    and "s \<equiv> bridge_watch sub (bridge_engine_init profile) cs"
  shows "\<bar>command_motor_torque_nm (snd (snd (execute_bridge_loop sub s targets tele dt)))\<bar> \<le> py_round 1 m
    \<and> \<bar>command_rudder_angle_deg (snd (snd (execute_bridge_loop sub s targets tele dt)))\<bar> \<le> py_round 2 k
    \<and> \<bar>command_rudder_angle_deg (snd (snd (execute_bridge_loop sub s targets tele dt)))\<bar>
        \<le> py_round 2 (k * exp (-0.015 * \<bar>shaft_omega (dget tele ''rpm'' (current_rpm_state s))\<bar>))
    \<and> 0 \<le> subsurface_ventilation_index (upstream_autonomy_telemetry (snd (snd (execute_bridge_loop sub s targets tele dt))))
    \<and> subsurface_ventilation_index (upstream_autonomy_telemetry (snd (snd (execute_bridge_loop sub s targets tele dt)))) \<le> 1"
proof -
  have p: "engine_max_torque s = m" "max_rudder_deg s = k" "\<not> subsystems_online s"
    by (simp_all add: s_def m_def k_def bridge_engine_init_def)
  have k: "0 \<le> k" using assms(2) by (simp add: k_def)
  have "k * exp (-0.015 * \<bar>x\<bar>) \<le> k" for x
    using mult_left_mono [OF _ k, of "exp (-0.015 * \<bar>x\<bar>)" 1] by simp
  then have cap: "py_round 2 (k * exp (-0.015 * \<bar>x\<bar>)) \<le> py_round 2 k" for x by (rule py_round_mono)
  show ?thesis
    using loop_torque [of s sub targets tele dt] loop_rudder [of s sub targets tele dt]
      loop_ventilation [OF p(3), of sub targets tele dt] cap [of "shaft_omega (dget tele ''rpm'' (current_rpm_state s))"] assms(1) k
    unfolding p m_def [symmetric] by (intro conjI; linarith)
qed

theorem bridge_commands_bounded_witness:
  "\<forall>sub. \<bar>command_rudder_angle_deg (snd (snd (execute_bridge_loop sub
      (bridge_watch sub (bridge_engine_init Map.empty) []) [''target_yaw_rate'' \<mapsto> 5] Map.empty 0.1)))\<bar> \<le> py_round 2 35"
proof
  fix sub
  show "\<bar>command_rudder_angle_deg (snd (snd (execute_bridge_loop sub
      (bridge_watch sub (bridge_engine_init Map.empty) []) [''target_yaw_rate'' \<mapsto> 5] Map.empty 0.1)))\<bar> \<le> py_round 2 35"
    using bridge_commands_bounded [of Map.empty sub "[]" "[''target_yaw_rate'' \<mapsto> 5]" Map.empty "0.1",
        THEN conjunct2, THEN conjunct1]
    unfolding dget_empty by simp
qed

section \<open>Ramp and integrator\<close>

lemma s_curve_accel: "\<bar>current_accel (fst (execute_s_curve_profile s t r dt))\<bar> \<le> 50"
  using clamp_abs_le [of "50::real"] by (simp add: execute_s_curve_profile_def Let_def)

lemma clamp_move:
  fixes a :: real
  assumes "\<bar>a\<bar> \<le> m" and "\<bar>j\<bar> \<le> d"
  shows "\<bar>clamp (- m) m (a + j) - a\<bar> \<le> d"
  using assms by (auto simp: clamp_def min_def max_def abs_le_iff)

lemma s_curve_jerk:
  fixes t r :: real
  assumes "\<bar>current_accel s\<bar> \<le> 50" and "0 \<le> dt"
  defines "s' \<equiv> fst (execute_s_curve_profile s t r dt)"
  shows "current_accel s' = 0 \<or> \<bar>current_accel s' - current_accel s\<bar> \<le> 5 * dt"
    and "current_ramp_rpm s \<noteq> 0 \<Longrightarrow> \<bar>current_ramp_rpm s' - current_ramp_rpm s\<bar> \<le> 50 * dt"
proof -
  have "\<bar>clamp (-50) 50 (current_accel s + j) - current_accel s\<bar> \<le> 5 * dt" if "\<bar>j\<bar> \<le> 5 * dt" for j
    using clamp_move [OF assms(1) that] .
  then show "current_accel s' = 0 \<or> \<bar>current_accel s' - current_accel s\<bar> \<le> 5 * dt"
    using assms(2) by (simp add: s'_def execute_s_curve_profile_def Let_def)
  have "\<bar>clamp (-50) 50 x * dt\<bar> \<le> 50 * dt" for x
    using clamp_abs_le [of "50::real" x] assms(2) by (simp add: abs_mult mult_right_mono)
  then show "\<bar>current_ramp_rpm s' - current_ramp_rpm s\<bar> \<le> 50 * dt" if "current_ramp_rpm s \<noteq> 0"
    using that assms(2) by (simp add: s'_def execute_s_curve_profile_def Let_def)
qed

lemma loop_ramp:
  obtains s2 t r where
    "current_accel (fst (execute_bridge_loop sub s targets tele dt)) = current_accel (fst (execute_s_curve_profile s2 t r dt))"
    "current_ramp_rpm (fst (execute_bridge_loop sub s targets tele dt)) = current_ramp_rpm (fst (execute_s_curve_profile s2 t r dt))"
    "current_accel s2 = current_accel s" "current_ramp_rpm s2 = current_ramp_rpm s"
proof -
  have "current_ramp_rpm (fst (steering_stage s d w dt)) = current_ramp_rpm s"
    "current_ramp_rpm (fst (integrate_speed_error s e dt)) = current_ramp_rpm s"
    "current_ramp_rpm (fst (calculate_wave_ventilation s b)) = current_ramp_rpm s"
    "current_ramp_rpm (fst (position_stage sub s tele dt)) = current_ramp_rpm s" for s d w e b
    by (simp_all add: steering_stage_def engine_notch_filter_def integrate_speed_error_def
        calculate_wave_ventilation_def position_stage_def Let_def split: prod.split)
  note keeps = this
  obtain t b d where "fst (execute_bridge_loop sub s targets tele dt) =
       (let r = dget tele ''rpm'' (current_rpm_state s);
            s2 = fst (calculate_wave_ventilation (fst (position_stage sub s tele dt)) b);
            s3 = fst (execute_s_curve_profile s2 t r dt);
            e = shaft_omega (snd (execute_s_curve_profile s2 t r dt)) - shaft_omega r;
            s4 = fst (integrate_speed_error s3 e dt)
        in (fst (steering_stage s4 d (shaft_omega r) dt))\<lparr>current_rpm_state := r\<rparr>)"
    by (rule loop_state)
  then show ?thesis
    by (intro that [of "fst (calculate_wave_ventilation (fst (position_stage sub s tele dt)) b)" t
          "dget tele ''rpm'' (current_rpm_state s)"])
      (simp_all add: Let_def keeps)
qed

lemma watch_accel: "\<bar>current_accel s\<bar> \<le> 50 \<Longrightarrow> \<bar>current_accel (bridge_watch sub s cs)\<bar> \<le> 50"
proof (induction cs rule: rev_induct)
  case (snoc c cs)
  show ?case
    by (rule loop_ramp [of sub "bridge_watch sub s cs" "fst c" "fst (snd c)" "snd (snd c)"])
      (simp add: s_curve_accel)
qed simp




lemma profiled_range:
  assumes "\<bar>t\<bar> \<le> R" and "1200 \<le> R"
  shows "\<bar>snd (execute_s_curve_profile s t r dt)\<bar> \<le> R"
proof -
  have "\<bar>clamp (-200) 1200 x\<bar> \<le> R" for x
    using assms(2) by (auto simp: clamp_def min_def max_def)
  then show ?thesis using assms(1) by (simp add: execute_s_curve_profile_def Let_def)
qed

lemma shaft_omega_diff:
  assumes "\<bar>a\<bar> \<le> R" and "\<bar>b\<bar> \<le> R"
  shows "\<bar>shaft_omega a - shaft_omega b\<bar> \<le> 2 * shaft_omega R"
proof -
  have "\<bar>a - b\<bar> \<le> 2 * R" using assms by linarith
  then have "\<bar>a - b\<bar> * (2 * pi / 60) \<le> 2 * R * (2 * pi / 60)" by (rule mult_right_mono) simp
  moreover have "shaft_omega a - shaft_omega b = (a - b) * (2 * pi / 60)"
    by (simp add: shaft_omega_def algebra_simps)
  moreover have "\<bar>(a - b) * (2 * pi / 60)\<bar> = \<bar>a - b\<bar> * (2 * pi / 60)" unfolding abs_mult by simp
  moreover have "2 * shaft_omega R = 2 * R * (2 * pi / 60)" by (simp add: shaft_omega_def)
  ultimately show ?thesis by linarith
qed

lemma windup_step:
  fixes B :: real
  assumes "engine_max_torque s = M" and "\<bar>e\<bar> \<le> E" and "0 \<le> dt" and "dt \<le> T" and "\<bar>integral_speed_error s\<bar> \<le> B"
    and "M / 10 + (22 + T) * E \<le> B"
  shows "\<bar>integral_speed_error (fst (integrate_speed_error s e dt))\<bar> \<le> B"
proof (cases "\<bar>base_torque e (integral_speed_error s)\<bar> < M")
  case True
  then have "10 * \<bar>integral_speed_error s\<bar> < M + 220 * E"
    using assms(2) by (simp add: base_torque_def)
  moreover have "\<bar>e * dt\<bar> \<le> E * T"
    unfolding abs_mult using assms(2,3,4) by (intro mult_mono) auto
  ultimately have "\<bar>integral_speed_error s + e * dt\<bar> \<le> B"
    using assms(6) by (simp add: algebra_simps)
  then show ?thesis using True assms(1) by (simp add: integrate_speed_error_def Let_def)
next
  case False
  then show ?thesis using assms(1,5) by (simp add: integrate_speed_error_def Let_def)
qed

definition cycle_within :: "real \<Rightarrow> real \<Rightarrow> bridge_cycle \<Rightarrow> bool" where
  "cycle_within R T c \<longleftrightarrow> \<bar>dget (fst c) ''rpm'' 0\<bar> \<le> R \<and> \<bar>dget (fst (snd c)) ''rpm'' 0\<bar> \<le> R
     \<and> 0 \<le> snd (snd c) \<and> snd (snd c) \<le> T"

text \<open>Property C14. The integrator cannot wind up: over a watch of any length whose shaft speeds and
  targets stay within \<open>R\<close> rpm and whose periods stay within \<open>T\<close> seconds, the integral register
  stays within a bound that depends on the torque limit, \<open>R\<close> and \<open>T\<close> only, not on the length of
  the watch.\<close>

theorem integrator_never_winds_up:
  fixes sub :: subsystems
  assumes "0 \<le> dget profile ''max_torque'' 90000" and "1200 \<le> R" and "list_all (cycle_within R T) cs"
    and "0 \<le> T"
  shows "\<bar>integral_speed_error (bridge_watch sub (bridge_engine_init profile) cs)\<bar>
    \<le> dget profile ''max_torque'' 90000 / 10 + (22 + T) * (2 * shaft_omega R)"
proof -
  let ?M = "dget profile ''max_torque'' 90000" and ?E = "2 * shaft_omega R"
  let ?B = "?M / 10 + (22 + T) * ?E"
  have E: "0 \<le> ?E" using assms(2) by (simp add: shaft_omega_def)
  have "\<bar>integral_speed_error (bridge_watch sub (bridge_engine_init profile) cs)\<bar> \<le> ?B
      \<and> \<bar>current_rpm_state (bridge_watch sub (bridge_engine_init profile) cs)\<bar> \<le> R"
    using assms(3)
  proof (induction cs rule: rev_induct)
    case Nil
    then show ?case using assms(1,2,4) E by (simp add: bridge_engine_init_def)
  next
    case (snoc c cs)
    let ?s = "bridge_watch sub (bridge_engine_init profile) cs"
    have c: "cycle_within R T c" and IH: "\<bar>integral_speed_error ?s\<bar> \<le> ?B" "\<bar>current_rpm_state ?s\<bar> \<le> R"
      using snoc by simp_all
    have M: "engine_max_torque ?s = ?M" by (simp add: bridge_engine_init_def)
    let ?r = "dget (fst (snd c)) ''rpm'' (current_rpm_state ?s)"
    have r: "\<bar>?r\<bar> \<le> R" using c IH(2) by (auto simp: cycle_within_def dget_def split: option.splits)
    obtain t b d where step: "fst (execute_bridge_loop sub ?s (fst c) (fst (snd c)) (snd (snd c))) =
       (let r = ?r;
            s2 = fst (calculate_wave_ventilation (fst (position_stage sub ?s (fst (snd c)) (snd (snd c)))) b);
            s3 = fst (execute_s_curve_profile s2 t r (snd (snd c)));
            e = shaft_omega (snd (execute_s_curve_profile s2 t r (snd (snd c)))) - shaft_omega r;
            s4 = fst (integrate_speed_error s3 e (snd (snd c)))
        in (fst (steering_stage s4 d (shaft_omega r) (snd (snd c))))\<lparr>current_rpm_state := r\<rparr>)"
      and t: "t = dget (fst c) ''rpm'' 0 \<or> t = min (dget (fst c) ''rpm'' 0) 250"
      by (rule loop_state)
    have "\<bar>t\<bar> \<le> R" using t c assms(2) by (auto simp: cycle_within_def min_def)
    then have "\<bar>shaft_omega (snd (execute_s_curve_profile s2 t ?r dt)) - shaft_omega ?r\<bar> \<le> ?E" for s2 dt
      by (intro shaft_omega_diff profiled_range r assms(2))
    then show ?case
      using r IH(1) M c by (auto simp: step Let_def cycle_within_def intro!: windup_step [where E = ?E and T = T])
  qed
  then show ?thesis by blast
qed

theorem integrator_never_winds_up_witness:
  "\<forall>sub. \<bar>integral_speed_error (bridge_watch sub (bridge_engine_init Map.empty)
      [([''rpm'' \<mapsto> 550], [''rpm'' \<mapsto> 500], 0.1), ([''rpm'' \<mapsto> 900], [''rpm'' \<mapsto> 700], 0.1)])\<bar>
    \<le> 90000 / 10 + (22 + 0.1) * (2 * shaft_omega 1200)"
proof
  fix sub
  let ?cs = "[([''rpm'' \<mapsto> 550], [''rpm'' \<mapsto> 500], 0.1), ([''rpm'' \<mapsto> 900], [''rpm'' \<mapsto> 700], 0.1)]"
  have "list_all (cycle_within 1200 0.1) ?cs" by (simp add: cycle_within_def)
  then show "\<bar>integral_speed_error (bridge_watch sub (bridge_engine_init Map.empty) ?cs)\<bar>
    \<le> 90000 / 10 + (22 + 0.1) * (2 * shaft_omega 1200)"
    using integrator_never_winds_up [of Map.empty 1200 "0.1" ?cs sub] unfolding dget_empty by simp
qed

end
