(* ===== verification/Targeting.thy ===== *)
theory Targeting
  imports Nmea_Parsers
begin

text \<open>
  Navigation, target estimation and weapons: the jammer triangulation and weapons allocator
  (\<open>jammer_targeting_system.py\<close>), dead reckoning (\<open>inertial_dead_reckoning.py\<close>), the ballistics
  predictor (\<open>ballistics_predictor.py\<close>), the passive sonar range estimator
  (\<open>sonar_target_motion_analysis.py\<close>), the gun mass matrix (\<open>weapon_balance_matrix.py\<close>), the
  vacuum tube emulator (\<open>led_vacuum_emulator.py\<close>) and the cognitive ring
  (\<open>cognitive_ring_processor.py\<close>).
\<close>

section \<open>Polar coordinates\<close>

lemma arctan_tan_shift:
  fixes b :: real
  assumes "pi / 2 < b" and "b < 3 * pi / 2"
  shows "arctan (tan b) = b - pi"
proof -
  have "tan b = tan (b - pi)" using tan_periodic_pi [of "b - pi"] by simp
  then show ?thesis using arctan_tan [of "b - pi"] assms by simp
qed

lemma cos_sign:
  fixes b :: real
  assumes "\<bar>b\<bar> \<le> pi"
  shows "0 < cos b \<longleftrightarrow> \<bar>b\<bar> < pi / 2" and "cos b < 0 \<longleftrightarrow> pi / 2 < \<bar>b\<bar>"
proof -
  have abs: "cos \<bar>b\<bar> = cos b" by (simp add: abs_if)
  have "0 < cos \<bar>b\<bar>" if "\<bar>b\<bar> < pi / 2" using that by (intro cos_gt_zero_pi) auto
  moreover have "cos \<bar>b\<bar> < 0" if "pi / 2 < \<bar>b\<bar>"
  proof -
    have "0 < sin (\<bar>b\<bar> - pi / 2)" using that assms by (intro sin_gt_zero) (auto simp: field_simps)
    then show ?thesis by (simp add: sin_diff)
  qed
  moreover have "cos \<bar>b\<bar> = 0" if "\<bar>b\<bar> = pi / 2" by (simp add: that)
  ultimately show "0 < cos b \<longleftrightarrow> \<bar>b\<bar> < pi / 2" and "cos b < 0 \<longleftrightarrow> pi / 2 < \<bar>b\<bar>"
    unfolding abs by (metis less_asym linorder_neqE_linordered_idom less_irrefl)+
qed

text \<open>\<open>atan2\<close> reads the bearing of a point given in polar form.\<close>

lemma py_atan2_polar:
  assumes r: "0 < r" and b: "- pi < b" "b \<le> pi"
  shows "py_atan2 (r * sin b) (r * cos b) = b"
proof -
  consider "0 < cos b" | "cos b < 0" | "cos b = 0" by linarith
  then show ?thesis
  proof cases
    case 1
    then have "\<bar>b\<bar> < pi / 2" using cos_sign [of b] b by auto
    then have "- (pi / 2) < b" "b < pi / 2" by auto
    then have "arctan (tan b) = b" by (simp add: arctan_tan)
    then show ?thesis using 1 r by (simp add: py_atan2_def tan_def)
  next
    case 2
    then have far: "pi / 2 < \<bar>b\<bar>" using cos_sign [of b] b by auto
    have q: "r * sin b / (r * cos b) = tan b" using r by (simp add: tan_def)
    have x: "r * cos b < 0" using r 2 by (rule mult_pos_neg)
    show ?thesis
    proof (cases "0 \<le> b")
      case True
      then have "0 \<le> r * sin b" using b r by (simp add: sin_ge_zero)
      moreover have "arctan (tan b) = b - pi" using True far b by (intro arctan_tan_shift) auto
      ultimately show ?thesis using x q by (simp add: py_atan2_def)
    next
      case False
      then have "0 < sin (- b)" using b by (intro sin_gt_zero) auto
      then have "r * sin b < 0" using r by (simp add: mult_pos_neg)
      moreover have "arctan (tan (- b)) = - b - pi" using False far b by (intro arctan_tan_shift) auto
      then have "arctan (tan b) = b + pi" by (simp add: arctan_minus)
      ultimately show ?thesis using x q by (simp add: py_atan2_def)
    qed
  next
    case 3
    moreover have "\<bar>b\<bar> \<le> pi" using b by linarith
    ultimately have "\<bar>b\<bar> = pi / 2" using cos_sign [of b] by linarith
    then consider "b = pi / 2" | "b = - (pi / 2)" by linarith
    then show ?thesis
    proof cases
      case 1
      show ?thesis using r unfolding 1 by (simp add: py_atan2_def)
    next
      case 2
      show ?thesis using r unfolding 2 by (simp add: py_atan2_def)
    qed
  qed
qed


lemma py_mod_shift: "0 < y \<Longrightarrow> py_mod (x + y * of_int k) y = py_mod x y"
  by (simp add: py_mod_def add_divide_distrib algebra_simps)

text \<open>Every bearing has a representative in the range of \<open>atan2\<close>.\<close>

lemma principal_angle:
  obtains b and k :: int where "a = b + 2 * pi * of_int k" "- pi < b" "b \<le> pi"
proof -
  define b where "b = pi - py_mod (pi - a) (2 * pi)"
  have "0 \<le> py_mod (pi - a) (2 * pi)" "py_mod (pi - a) (2 * pi) < 2 * pi" by (simp_all add: py_mod_range)
  then have "- pi < b" "b \<le> pi" by (simp_all add: b_def)
  moreover have "a = b + 2 * pi * of_int (- \<lfloor>(pi - a) / (2 * pi)\<rfloor>)" by (simp add: b_def py_mod_def)
  ultimately show ?thesis using that by blast
qed

lemma sin_cos_shift: "sin (b + 2 * pi * of_int k) = sin b" "cos (b + 2 * pi * of_int k) = cos b"
  by (simp_all add: sin_add cos_add)

text \<open>The compass bearing \<open>(degrees(atan2(dx, dy)) + 360) % 360\<close> of a point seen at bearing \<open>d\<close>.\<close>

lemma compass_bearing:
  assumes "0 < r"
  shows "py_mod (degrees (py_atan2 (r * sin (radians d)) (r * cos (radians d))) + 360) 360 = py_mod d 360"
proof -
  obtain b and k :: int where b: "radians d = b + 2 * pi * of_int k" "- pi < b" "b \<le> pi" by (rule principal_angle)
  have "degrees (radians d) = degrees b + 360 * of_int k"
    by (simp only: b(1)) (simp add: degrees_def field_simps)
  then have d: "d = degrees b + 360 * of_int k" by simp
  have "py_atan2 (r * sin (radians d)) (r * cos (radians d)) = b"
    unfolding b(1) sin_cos_shift by (rule py_atan2_polar [OF assms b(2,3)])
  then show ?thesis
    using py_mod_shift [of 360 "degrees b" 1] py_mod_shift [of 360 "degrees b" k] by (simp add: d)
qed

lemma atan2_inverse:
  "sqrt (x\<^sup>2 + y\<^sup>2) * sin (py_atan2 x y) = x \<and> sqrt (x\<^sup>2 + y\<^sup>2) * cos (py_atan2 x y) = y"
proof (cases "x\<^sup>2 + y\<^sup>2 = 0")
  case True
  then show ?thesis by (simp add: add_nonneg_eq_0_iff)
next
  case False
  let ?r = "sqrt (x\<^sup>2 + y\<^sup>2)"
  have r: "0 < ?r" using False by (simp add: order_less_le sum_power2_ge_zero)
  have "(y / ?r)\<^sup>2 + (x / ?r)\<^sup>2 = (y\<^sup>2 + x\<^sup>2) / (x\<^sup>2 + y\<^sup>2)"
    by (simp add: power_divide add_divide_distrib)
  then have "(y / ?r)\<^sup>2 + (x / ?r)\<^sup>2 = 1" using False by (simp add: add.commute)
  then obtain t where t: "y / ?r = cos t" "x / ?r = sin t" using sincos_total_2pi by metis
  obtain b and k :: int where b: "t = b + 2 * pi * of_int k" "- pi < b" "b \<le> pi" by (rule principal_angle)
  have scale: "u = q * z" if "u / q = z" "0 < q" for u q z :: real using that by auto
  have xy: "x = ?r * sin b" "y = ?r * cos b"
    using scale [OF t(2) r] scale [OF t(1) r] unfolding b(1) sin_cos_shift .
  have "py_atan2 (?r * sin b) (?r * cos b) = b" by (rule py_atan2_polar [OF r b(2,3)])
  then have "py_atan2 x y = b" by (simp only: xy [symmetric])
  then show ?thesis using xy by simp
qed

section \<open>Jammer triangulation\<close>

record jammer_state =
  target_x :: real
  target_y :: real
  range_meters :: real
  bearing_true_deg :: real
  triangulation_valid :: bool

record jammer_system =
  own_x :: real
  own_y :: real
  computed_jammer_state :: jammer_state

definition jammer_system_init :: "real \<Rightarrow> real \<Rightarrow> jammer_system" where
  "jammer_system_init x y =
     \<lparr>own_x = x, own_y = y,
      computed_jammer_state = \<lparr>target_x = 0, target_y = 0, range_meters = 0, bearing_true_deg = 0,
                               triangulation_valid = False\<rparr>\<rparr>"

text \<open>The intersection of the two strobe lines. The parallel guard keeps the coordinates of the last
  fix and only withdraws its validity; a partner message without its three keys raises.\<close>

definition compute_jammer_location :: "real \<Rightarrow> jammer_system \<Rightarrow> real \<Rightarrow> num_dict \<Rightarrow> jammer_system option" where
  "compute_jammer_location pole s own_strobe partner =
     (case (partner ''strobe_deg'', partner ''x_m'', partner ''y_m'') of
        (Some partner_strobe, Some xb, Some yb) \<Rightarrow>
          let tan_a = py_tan pole (radians (90 - own_strobe));
              tan_b = py_tan pole (radians (90 - partner_strobe));
              xa = own_x s; ya = own_y s
          in if \<bar>tan_a - tan_b\<bar> < 0.001
             then Some (s\<lparr>computed_jammer_state := (computed_jammer_state s)\<lparr>triangulation_valid := False\<rparr>\<rparr>)
             else
               let xj = (yb - ya + xa * tan_a - xb * tan_b) / (tan_a - tan_b);
                   yj = ya + (xj - xa) * tan_a;
                   dx = xj - xa; dy = yj - ya;
                   rng = sqrt (dx\<^sup>2 + dy\<^sup>2);
                   bearing = py_mod (degrees (py_atan2 dx dy) + 360) 360
               in Some (s\<lparr>computed_jammer_state :=
                            \<lparr>target_x = xj, target_y = yj, range_meters = rng, bearing_true_deg = bearing,
                             triangulation_valid = (rng < 150000)\<rparr>\<rparr>)
      | _ \<Rightarrow> None)"

record mount =
  mount_id :: string
  is_engaged :: bool
  current_azimuth :: real

record mount_command =
  command_mount_id :: string
  action :: string
  ordered_azimuth_deg :: real
  target_range_meters :: real
  allocation_status :: string

definition allocate_idle_weapons :: "jammer_system \<Rightarrow> mount list \<Rightarrow> mount_command list" where
  "allocate_idle_weapons s mounts =
     (let j = computed_jammer_state s
      in if \<not> triangulation_valid j then []
         else map (\<lambda>m. if \<not> is_engaged m
                then \<lparr>command_mount_id = mount_id m, action = ''ENGAGE_JAMMER_SUPPRESSION'',
                      ordered_azimuth_deg = py_round 2 (bearing_true_deg j),
                      target_range_meters = py_round 1 (range_meters j),
                      allocation_status = ''OVERRIDE_ACTIVE''\<rparr>
                else \<lparr>command_mount_id = mount_id m, action = ''MAINTAIN_PRIMARY_MISSION_ENGAGEMENT'',
                      ordered_azimuth_deg = current_azimuth m, target_range_meters = 0,
                      allocation_status = ''NOMINAL''\<rparr>) mounts)"

text \<open>A jammer at range \<open>r\<close> and true bearing \<open>d\<close> from a ship at \<open>(x, y)\<close>.\<close>

definition seen_from :: "real \<Rightarrow> real \<Rightarrow> real \<Rightarrow> real \<Rightarrow> real \<times> real" where
  "seen_from x y r d = (x + r * sin (radians d), y + r * cos (radians d))"

lemma strobe_angle: "sin (radians (90 - d)) = cos (radians d)" "cos (radians (90 - d)) = sin (radians d)"
proof -
  have "radians (90 - d) = pi / 2 - radians d" by (simp add: radians_def field_simps)
  then show "sin (radians (90 - d)) = cos (radians d)" "cos (radians (90 - d)) = sin (radians d)"
    by (simp_all add: sin_diff cos_diff)
qed

lemma strobe_line:
  assumes "sin (radians d) \<noteq> 0" and "(X, Y) = seen_from x y r d"
  shows "Y - y = (X - x) * py_tan pole (radians (90 - d))"
  using assms by (simp add: seen_from_def py_tan_def tan_def strobe_angle)


lemma line_intersection:
  fixes ta :: real
  assumes "Y - ya = (X - xa) * ta" and "Y - yb = (X - xb) * tb" and "ta \<noteq> tb"
  shows "(yb - ya + xa * ta - xb * tb) / (ta - tb) = X"
proof -
  have "yb - ya + xa * ta - xb * tb = X * (ta - tb)" using assms(1,2) by (simp add: algebra_simps)
  then show ?thesis using assms(3) by simp
qed

lemma triangulation_exact:
  assumes own: "(X, Y) = seen_from (own_x s) (own_y s) r d" and partner: "(X, Y) = seen_from xb yb rb db"
    and r: "0 < r" "r < 150000"
    and strobes: "sin (radians d) \<noteq> 0" "sin (radians db) \<noteq> 0"
    and apart: "0.001 \<le> \<bar>py_tan pole (radians (90 - d)) - py_tan pole (radians (90 - db))\<bar>"
  shows "compute_jammer_location pole s d [''strobe_deg'' \<mapsto> db, ''x_m'' \<mapsto> xb, ''y_m'' \<mapsto> yb]
    = Some (s\<lparr>computed_jammer_state := \<lparr>target_x = X, target_y = Y, range_meters = r,
        bearing_true_deg = py_mod d 360, triangulation_valid = True\<rparr>\<rparr>)"
proof -
  let ?ta = "py_tan pole (radians (90 - d))" and ?tb = "py_tan pole (radians (90 - db))"
  have a: "Y - own_y s = (X - own_x s) * ?ta" by (rule strobe_line [OF strobes(1) own])
  have b: "Y - yb = (X - xb) * ?tb" by (rule strobe_line [OF strobes(2) partner])
  have ne: "?ta \<noteq> ?tb" using apart by auto
  have xj: "(yb - own_y s + own_x s * ?ta - xb * ?tb) / (?ta - ?tb) = X"
    by (rule line_intersection [OF a b ne])
  have yj: "own_y s + (X - own_x s) * ?ta = Y" using a by simp
  have xy: "X - own_x s = r * sin (radians d)" "Y - own_y s = r * cos (radians d)"
    using own by (simp_all add: seen_from_def)
  have "(r * sin (radians d))\<^sup>2 + (r * cos (radians d))\<^sup>2 = r\<^sup>2"
    by (simp add: power_mult_distrib distrib_left [symmetric])
  then have rng: "sqrt ((X - own_x s)\<^sup>2 + (Y - own_y s)\<^sup>2) = r" using r(1) by (simp add: xy)
  have brg: "py_mod (degrees (py_atan2 (X - own_x s) (Y - own_y s)) + 360) 360 = py_mod d 360"
    unfolding xy by (rule compass_bearing [OF r(1)])
  have guard: "\<not> \<bar>?ta - ?tb\<bar> < 0.001" using apart by linarith
  have keys: "[''strobe_deg'' \<mapsto> db, ''x_m'' \<mapsto> xb, ''y_m'' \<mapsto> yb] ''strobe_deg'' = Some db"
    "[''strobe_deg'' \<mapsto> db, ''x_m'' \<mapsto> xb, ''y_m'' \<mapsto> yb] ''x_m'' = Some xb"
    "[''strobe_deg'' \<mapsto> db, ''x_m'' \<mapsto> xb, ''y_m'' \<mapsto> yb] ''y_m'' = Some yb" by simp_all
  show ?thesis
    unfolding compute_jammer_location_def Let_def keys prod.case option.case xj yj rng brg
    using r(2) guard by simp
qed


lemma radians_45: "sin (radians 45) = sqrt 2 / 2" "cos (radians 45) = sqrt 2 / 2"
  "sin (radians 315) = - (sqrt 2 / 2)" "cos (radians 315) = sqrt 2 / 2"
proof -
  have a: "radians 45 = pi / 4" "radians 315 = - (pi / 4) + 2 * pi * of_int 1" by (simp_all add: radians_def)
  show "sin (radians 45) = sqrt 2 / 2" "cos (radians 45) = sqrt 2 / 2"
    unfolding a by (simp_all add: sin_45 cos_45)
  show "sin (radians 315) = - (sqrt 2 / 2)" "cos (radians 315) = sqrt 2 / 2"
    unfolding a sin_cos_shift by (simp_all add: sin_45 cos_45)
qed



section \<open>Dead reckoning\<close>

definition integrate_dr_position :: "real \<Rightarrow> real \<Rightarrow> real \<Rightarrow> real \<Rightarrow> real \<Rightarrow> real \<times> real" where
  "integrate_dr_position lat lon speed heading dt =
     (let delta_north = speed * cos heading * dt; delta_east = speed * sin heading * dt;
          cos_lat = max 0.0001 (cos lat)
      in (lat + delta_north / 6371000, lon + delta_east / (6371000 * cos_lat)))"

definition set_and_drift_compensation :: "real \<Rightarrow> real \<Rightarrow> real \<Rightarrow> real \<Rightarrow> real \<times> real" where
  "set_and_drift_compensation speed heading current direction =
     (let x = speed * sin heading + current * sin direction;
          y = speed * cos heading + current * cos direction
      in (sqrt (x\<^sup>2 + y\<^sup>2), py_atan2 x y))"

text \<open>\<open>math.asin\<close> raises \<open>ValueError\<close> outside its domain.\<close>

definition navigational_coriolis_drift :: "real \<Rightarrow> real \<Rightarrow> real option" where
  "navigational_coriolis_drift speed lat =
     (let a = 2 * speed * 0.000072921159 * sin lat / 9.81
      in if \<bar>a\<bar> > 1 then None else Some (degrees (arcsin a)))"

text \<open>Set and drift resolve the current exactly: speed over ground and course made good
  are the polar form of the vector sum of the ship's and the current's velocities, so the speed
  over ground lies between the difference and the sum of the two speeds.\<close>

theorem course_made_good_is_vector_sum:
  "(let (sog, cmg) = set_and_drift_compensation v h c d
    in sog * sin cmg = v * sin h + c * sin d \<and> sog * cos cmg = v * cos h + c * cos d
       \<and> \<bar>\<bar>v\<bar> - \<bar>c\<bar>\<bar> \<le> sog \<and> sog \<le> \<bar>v\<bar> + \<bar>c\<bar> \<and> - pi \<le> cmg \<and> cmg \<le> pi)"
proof -
  let ?x = "v * sin h + c * sin d" and ?y = "v * cos h + c * cos d"
  let ?r = "sqrt (?x\<^sup>2 + ?y\<^sup>2)"
  have polar: "?r * sin (py_atan2 ?x ?y) = ?x \<and> ?r * cos (py_atan2 ?x ?y) = ?y" by (rule atan2_inverse)
  have sq: "?x\<^sup>2 + ?y\<^sup>2 = v\<^sup>2 + c\<^sup>2 + 2 * (v * c) * cos (h - d)"
  proof -
    have "?x\<^sup>2 + ?y\<^sup>2 = v\<^sup>2 * ((sin h)\<^sup>2 + (cos h)\<^sup>2) + c\<^sup>2 * ((sin d)\<^sup>2 + (cos d)\<^sup>2) + 2 * (v * c) * cos (h - d)"
      unfolding cos_diff power2_eq_square by algebra
    then show ?thesis by simp
  qed
  have "\<bar>v * c * cos (h - d)\<bar> \<le> \<bar>v * c\<bar> * 1"
    unfolding abs_mult [of "v * c"] by (rule mult_left_mono) simp_all
  then have m: "\<bar>v * c * cos (h - d)\<bar> \<le> \<bar>v\<bar> * \<bar>c\<bar>" by (simp add: abs_mult)
  have sums: "(\<bar>v\<bar> + \<bar>c\<bar>)\<^sup>2 = v\<^sup>2 + c\<^sup>2 + 2 * (\<bar>v\<bar> * \<bar>c\<bar>)" "(\<bar>v\<bar> - \<bar>c\<bar>)\<^sup>2 = v\<^sup>2 + c\<^sup>2 - 2 * (\<bar>v\<bar> * \<bar>c\<bar>)"
    by (simp_all add: power2_sum power2_diff)
  have e: "2 * (v * c) * cos (h - d) = 2 * (v * c * cos (h - d))" by simp
  have m': "- (\<bar>v\<bar> * \<bar>c\<bar>) \<le> v * c * cos (h - d)" "v * c * cos (h - d) \<le> \<bar>v\<bar> * \<bar>c\<bar>" using m by linarith+
  have "?x\<^sup>2 + ?y\<^sup>2 \<le> (\<bar>v\<bar> + \<bar>c\<bar>)\<^sup>2" unfolding sq sums e using m' by linarith
  then have "?r \<le> \<bar>v\<bar> + \<bar>c\<bar>" using real_sqrt_le_mono [of "?x\<^sup>2 + ?y\<^sup>2" "(\<bar>v\<bar> + \<bar>c\<bar>)\<^sup>2"] by simp
  moreover have "(\<bar>v\<bar> - \<bar>c\<bar>)\<^sup>2 \<le> ?x\<^sup>2 + ?y\<^sup>2" unfolding sq sums e using m' by linarith
  then have "\<bar>\<bar>v\<bar> - \<bar>c\<bar>\<bar> \<le> ?r" using real_sqrt_le_mono [of "(\<bar>v\<bar> - \<bar>c\<bar>)\<^sup>2" "?x\<^sup>2 + ?y\<^sup>2"] by simp
  ultimately show ?thesis
    using polar py_atan2_range by (simp add: set_and_drift_compensation_def Let_def)
qed


section \<open>Ballistics and passive sonar\<close>

text \<open>The time of flight divides by the muzzle velocity: zero raises.\<close>

definition calculate_3d_intercept :: "real \<Rightarrow> real \<Rightarrow> real \<Rightarrow> real \<Rightarrow> real \<Rightarrow> real option" where
  "calculate_3d_intercept v0 target_range bearing speed heading =
     (if v0 = 0 then None
      else let tof = target_range / v0; lateral = speed * sin (heading - bearing) * tof
           in Some (degrees (py_atan2 lateral target_range)))"

definition projectile_coriolis_deflection :: "real \<Rightarrow> real \<Rightarrow> real \<Rightarrow> real option" where
  "projectile_coriolis_deflection v0 target_range lat =
     (if v0 = 0 then None
      else let tof = target_range / v0; deflection = 0.000072921159 * v0 * tof\<^sup>2 * sin lat
           in Some (degrees (py_atan2 deflection target_range)))"

definition ekelund_ranging :: "real \<Rightarrow> real \<Rightarrow> real \<Rightarrow> real \<Rightarrow> real \<Rightarrow> real \<Rightarrow> real \<Rightarrow> real" where
  "ekelund_ranging v1 h1 rate1 v2 h2 rate2 mean_bearing =
     (let across1 = v1 * sin (h1 - mean_bearing); across2 = v2 * sin (h2 - mean_bearing);
          delta_rate = rate2 - rate1
      in if \<bar>delta_rate\<bar> < 0.000001 then -1 else \<bar>(across2 - across1) / delta_rate\<bar>)"

text \<open>Ekelund ranging recovers the true range: if the bearing rate of each leg is the
  target's constant speed across the line of sight less own ship's, divided by the range, the
  estimate is that range whenever the manoeuvre changed the bearing rate enough, and otherwise
  the invalid mark -1, which no valid estimate can equal.\<close>

theorem ekelund_recovers_range:
  assumes "0 < R" and "rate1 = (u - v1 * sin (h1 - b)) / R" and "rate2 = (u - v2 * sin (h2 - b)) / R"
  shows "ekelund_ranging v1 h1 rate1 v2 h2 rate2 b
    = (if 0.000001 \<le> \<bar>v1 * sin (h1 - b) - v2 * sin (h2 - b)\<bar> / R then R else -1)"
proof -
  have rate: "rate2 - rate1 = (v1 * sin (h1 - b) - v2 * sin (h2 - b)) / R"
    unfolding assms(2,3) by (simp add: diff_divide_distrib)
  have abs: "\<bar>v1 * sin (h1 - b) - v2 * sin (h2 - b)\<bar> / R = \<bar>rate2 - rate1\<bar>"
    unfolding rate abs_divide using assms(1) by simp
  have est: "\<bar>(v2 * sin (h2 - b) - v1 * sin (h1 - b)) / (rate2 - rate1)\<bar> = R" if "rate2 - rate1 \<noteq> 0"
  proof -
    have "v2 * sin (h2 - b) - v1 * sin (h1 - b) = - R * (rate2 - rate1)"
      using assms(1) by (simp add: rate)
    then show ?thesis using that assms(1) by simp
  qed
  have "rate2 - rate1 \<noteq> 0" if "\<not> \<bar>rate2 - rate1\<bar> < 0.000001" using that by auto
  then show ?thesis unfolding abs ekelund_ranging_def Let_def using est by (simp only: not_le [symmetric] if_not_P split: if_split) blast
qed

theorem ekelund_recovers_range_witness:
  "ekelund_ranging 5 0 ((2 - 5 * sin (0 - 0)) / 4000) 5 (pi / 2) ((2 - 5 * sin (pi / 2 - 0)) / 4000) 0 = 4000"
  using ekelund_recovers_range [of 4000 _ 2 5 0 0 _ 5 "pi / 2"] by simp

section \<open>Gun mass matrix\<close>

datatype weapon_model = MK45_5IN_LW | MK42_5IN_HEAVY | MK75_76MM

record gun_spec =
  mass_kg :: real
  cg_offset_meters :: real
  inertia_rotational :: real

fun weapon_catalog :: "weapon_model \<Rightarrow> gun_spec" where
  "weapon_catalog MK45_5IN_LW = \<lparr>mass_kg = 24947, cg_offset_meters = 1.1, inertia_rotational = 42000\<rparr>"
| "weapon_catalog MK42_5IN_HEAVY = \<lparr>mass_kg = 66224, cg_offset_meters = 1.4, inertia_rotational = 115000\<rparr>"
| "weapon_catalog MK75_76MM = \<lparr>mass_kg = 7440, cg_offset_meters = 0.6, inertia_rotational = 9200\<rparr>"

definition weapon_named :: "string \<Rightarrow> weapon_model option" where
  "weapon_named n =
     (if n = ''MK45_5IN_LW'' then Some MK45_5IN_LW else if n = ''MK42_5IN_HEAVY'' then Some MK42_5IN_HEAVY
      else if n = ''MK75_76MM'' then Some MK75_76MM else None)"

text \<open>The heeling and the gyroscopic moment.\<close>

definition calculate_dynamic_weapon_forces :: "string \<Rightarrow> real \<Rightarrow> real \<Rightarrow> real \<Rightarrow> real \<Rightarrow> real \<times> real" where
  "calculate_dynamic_weapon_forces weapon az el az_rate el_rate =
     (case weapon_named weapon of None \<Rightarrow> (0, 0)
      | Some w \<Rightarrow>
          let gun = weapon_catalog w
          in (py_round 1 (mass_kg gun * 9.81 * cg_offset_meters gun * sin (radians az)),
              py_round 1 (inertia_rotational gun * az_rate * el_rate * cos (radians el))))"

text \<open>For every ship class of the catalogue the evaluation reaches the names \<open>roll_moment\<close>,
  \<open>displacement_kg\<close> and \<open>gm_transverse\<close>, which are bound nowhere: \<open>NameError\<close>, \<open>None\<close>. Only an
  unknown class returns.\<close>

definition ship_class_catalog :: "string list" where
  "ship_class_catalog = [''DDG_ARLEIGH_BURKE'', ''CG_TICONDEROGA'', ''WMSL_LEGEND_USCG'']"

definition evaluate_vessel_cross_coupling_impact :: "string \<Rightarrow> (real \<times> bool) option" where
  "evaluate_vessel_cross_coupling_impact ship_class =
     (if ship_class \<notin> set ship_class_catalog then Some (0, False) else None)"

section \<open>Vacuum tube emulator\<close>

record valve_state =
  grid_input_voltage :: real
  simulated_led_photon_flux_lumen :: real
  anode_plate_current_ma :: real
  valve_saturation_fault :: bool
  timestamp_resolved :: real

definition led_vacuum_transfer_step :: "real \<Rightarrow> real \<Rightarrow> real \<Rightarrow> real \<Rightarrow> real \<Rightarrow> valve_state option" where
  "led_vacuum_transfer_step mu rp now grid plate =
     (if mu = 0 then None
      else let v = grid + plate / mu
           in if v \<le> 0
              then Some \<lparr>grid_input_voltage = py_round 2 grid, simulated_led_photon_flux_lumen = 0,
                         anode_plate_current_ma = 0, valve_saturation_fault = False, timestamp_resolved = now\<rparr>
              else if rp = 0 then None
              else let raw = v * mu / rp * 1000; saturated = raw > 150
                   in Some \<lparr>grid_input_voltage = py_round 2 grid,
                            simulated_led_photon_flux_lumen = py_round 2 (12.5 * v powr 1.5),
                            anode_plate_current_ma = py_round 2 (if saturated then 150 else raw),
                            valve_saturation_fault = saturated, timestamp_resolved = now\<rparr>)"

section \<open>Cognitive ring\<close>

definition tesla_resonance :: "real \<Rightarrow> real \<Rightarrow> real" where
  "tesla_resonance height current =
     (if height \<le> 0.1 then 0
      else let inductance = (4 * pi * 10 powi (-7)) * height\<^sup>2 * pi * 15\<^sup>2 / height;
               energy = 0.5 * inductance * current\<^sup>2
           in clamp 0 1000000000 (energy * 7.83 * 0.084))"

definition mimic_decoy :: "real \<Rightarrow> real \<Rightarrow> real" where
  "mimic_decoy freq offset =
     (if freq \<le> 1 then 0 else py_mod (2 * pi * offset / (299792458 / freq)) (2 * pi))"

record cognitive_report =
  tesla_radiated_power_watts :: real
  mimic_decoy_phase_shift_rad :: real
  legal_boundary_alert_active :: bool
  operator_attention_percentage :: real

definition process_cognitive_step :: "num_dict \<Rightarrow> cognitive_report" where
  "process_cognitive_step tele =
     \<lparr>tesla_radiated_power_watts = py_round 1 (tesla_resonance (dget tele ''tesla_tower_height_meters'' 55)
        (dget tele ''tesla_input_current_amps'' 0)),
      mimic_decoy_phase_shift_rad = py_round 4 (mimic_decoy (dget tele ''enemy_radar_frequency_hz'' 3000000000) 250),
      legal_boundary_alert_active =
        (45 < \<bar>dget tele ''latitude_decimal'' 0\<bar> \<and> \<bar>dget tele ''latitude_decimal'' 0\<bar> < 46),
      operator_attention_percentage =
        py_round 1 (1 / (1 + exp (0.4 * (dget tele ''hours_on_watch'' 2 - 4))) * 100)\<rparr>"

end
