(* ===== verification/Loopback.thy ===== *)
theory Loopback
  imports Nmea_Frame
begin

text \<open>
  The serial side of the boot diagnostics and the serial listener: the loopback test of one port
  (\<open>config/hardware_serial_validator.py\<close>) and the decision the listener takes on one raw line
  (\<open>network_layer/serial_port_listener.py\<close>). The port is a parameter: what \<open>readline\<close> returns for
  each frame, the empty string being the time-out, or the failure to open the port.
\<close>

section \<open>Loopback test of one port\<close>

record port_results =
  frames_transmitted :: nat
  frames_received :: nat
  checksum_failures :: nat
  line_timeouts :: nat

definition port_results_init :: port_results where
  "port_results_init = \<lparr>frames_transmitted = 0, frames_received = 0, checksum_failures = 0, line_timeouts = 0\<rparr>"

text \<open>\<open>f"{step:03d}"\<close>\<close>

definition step_digits :: "nat \<Rightarrow> string" where
  "step_digits n = replicate (3 - length (nat_str n)) (CHR ''0'') @ nat_str n"

definition outbound_sentence :: "string \<Rightarrow> nat \<Rightarrow> string" where
  "outbound_sentence ident step = nmea_sentence (''PUNVCDG,'' @ ident @ '','' @ step_digits step)"

text \<open>The inbound check; unlike the receivers it does not strip the checksum field, and it looks at the
  returned body only to recompute the checksum.\<close>

definition inbound_valid :: "string \<Rightarrow> bool" where
  "inbound_valid raw =
     (let s = py_strip raw
      in if \<not> starts_with s ''$'' \<or> CHR ''*'' \<notin> set s then False
         else case py_split (CHR ''*'') (drop 1 s) of
                [body, received_cs] \<Rightarrow> generate_checksum body = py_upper received_cs
              | _ \<Rightarrow> False)"

definition audit_frame :: "port_results \<Rightarrow> string \<Rightarrow> port_results" where
  "audit_frame r raw =
     (let r = r\<lparr>frames_transmitted := frames_transmitted r + 1\<rparr>
      in if raw = [] then r\<lparr>line_timeouts := line_timeouts r + 1\<rparr>
         else if inbound_valid raw then r\<lparr>frames_received := frames_received r + 1\<rparr>
         else r\<lparr>checksum_failures := checksum_failures r + 1\<rparr>)"

datatype integrity_status = Passed | Failed | Port_Unavailable string

text \<open>The wire sends back, for the frame of each step, the line \<open>wire sentence\<close>.\<close>

definition run_frames :: "string \<Rightarrow> (nat \<Rightarrow> string \<Rightarrow> string) \<Rightarrow> nat \<Rightarrow> port_results" where
  "run_frames ident wire frame_count =
     foldl (\<lambda>r step. audit_frame r (wire step (outbound_sentence ident step))) port_results_init [0..<frame_count]"

definition stress_test_isolated_port ::
    "string \<Rightarrow> (string + (nat \<Rightarrow> string \<Rightarrow> string)) \<Rightarrow> nat \<Rightarrow> port_results \<times> integrity_status" where
  "stress_test_isolated_port ident port frame_count =
     (case port of
        Inl err \<Rightarrow> (port_results_init, Port_Unavailable err)
      | Inr wire \<Rightarrow>
          let r = run_frames ident wire frame_count
          in (r, if frames_received r = frame_count \<and> checksum_failures r = 0 then Passed else Failed))"

text \<open>Every port of the manifest is tested by its own worker; the results are collected per handle.\<close>

definition execute_complete_hardware_verification ::
    "('h \<times> string \<times> (string + (nat \<Rightarrow> string \<Rightarrow> string))) list \<Rightarrow> nat
      \<Rightarrow> ('h \<times> port_results \<times> integrity_status) list" where
  "execute_complete_hardware_verification ports frames =
     map (\<lambda>(handle, ident, port). (handle, stress_test_isolated_port ident port frames)) ports"

lemma run_frames_simps [simp]:
  "run_frames ident wire 0 = port_results_init"
  "run_frames ident wire (Suc n) = audit_frame (run_frames ident wire n) (wire n (outbound_sentence ident n))"
  by (simp_all add: run_frames_def)

lemma frame_accounting:
  "frames_transmitted (run_frames ident wire n) = n
   \<and> frames_received (run_frames ident wire n) + checksum_failures (run_frames ident wire n)
       + line_timeouts (run_frames ident wire n) = n
   \<and> (frames_received (run_frames ident wire n) = n \<longleftrightarrow>
       (\<forall>k < n. wire k (outbound_sentence ident k) \<noteq> [] \<and> inbound_valid (wire k (outbound_sentence ident k))))"
proof (induction n)
  case (Suc n)
  let ?raw = "wire n (outbound_sentence ident n)"
  have le: "frames_received (run_frames ident wire n) \<le> n" using Suc by arith
  then show ?case using Suc by (auto simp: audit_frame_def Let_def less_Suc_eq)
qed (simp add: port_results_init_def)

lemma sealed_inbound_valid:
  assumes "CHR ''*'' \<notin> set p"
  shows "inbound_valid (nmea_sentence p)"
proof -
  have up: "py_upper (generate_checksum p) = generate_checksum p" and star: "CHR ''*'' \<notin> set (generate_checksum p)"
    by (rule generate_checksum_digits [of p], simp add: py_upper_def hex_digit_visible)
      (rule generate_checksum_digits [of p], auto simp: hex_digit_visible dest: sym)
  show ?thesis
    using assms star by (simp add: inbound_valid_def strip_sentence starts_with_def py_split_cons py_split_notin up)
qed


text \<open>The loopback verdict: after \<open>n\<close> frames every frame is accounted for exactly once as
  received, failed or timed out, the port passes exactly when every answer was a non-empty line with
  a matching checksum of its own, and so a device that answers every frame with one fixed valid
  sentence passes without ever echoing what was sent.\<close>

theorem loopback_never_compares_echo:
  assumes "CHR ''*'' \<notin> set p"
  shows "(let (r, verdict) = stress_test_isolated_port ident (Inr wire) n
      in frames_transmitted r = n \<and> frames_received r + checksum_failures r + line_timeouts r = n
       \<and> (verdict = Passed \<longleftrightarrow> (\<forall>k < n. wire k (outbound_sentence ident k) \<noteq> []
             \<and> inbound_valid (wire k (outbound_sentence ident k)))))
    \<and> snd (stress_test_isolated_port ident (Inr (\<lambda>step sent. nmea_sentence p)) n) = Passed"
proof -
  have verdict: "snd (stress_test_isolated_port ident (Inr w) n) = Passed \<longleftrightarrow>
      (\<forall>k < n. w k (outbound_sentence ident k) \<noteq> [] \<and> inbound_valid (w k (outbound_sentence ident k)))" for w
    using frame_accounting [of ident w n] by (auto simp: stress_test_isolated_port_def Let_def)
  have "nmea_sentence p \<noteq> []" by (simp add: nmea_sentence_def)
  then have "snd (stress_test_isolated_port ident (Inr (\<lambda>step sent. nmea_sentence p)) n) = Passed"
    using sealed_inbound_valid [OF assms] by (simp add: verdict)
  then show ?thesis
    using verdict [of wire] frame_accounting [of ident wire n]
    by (auto simp: stress_test_isolated_port_def Let_def)
qed

theorem loopback_never_compares_echo_witness:
  "snd (stress_test_isolated_port ''COMPASS'' (Inr (\<lambda>step sent. nmea_sentence ''HEHDT,1,T'')) 50) = Passed"
  using loopback_never_compares_echo [of "''HEHDT,1,T''" "''COMPASS''" "\<lambda>step sent. sent" 50] by simp

section \<open>Serial listener\<close>

text \<open>One \<open>readline\<close> of the listener: non-ASCII bytes are dropped, a blank line is ignored, any other
  line goes to the router as it is.\<close>

definition decode_ascii_ignore :: "nat list \<Rightarrow> string" where
  "decode_ascii_ignore bs = map (\<lambda>b. char_of b) (filter (\<lambda>b. b < 128) bs)"

definition listener_forwards :: "nat list \<Rightarrow> string option" where
  "listener_forwards raw_bytes =
     (if raw_bytes = [] then None
      else let decoded = decode_ascii_ignore raw_bytes
           in if py_strip decoded = [] then None else Some decoded)"

text \<open>The emulation used when the serial library is absent: the checksum is the constant \<open>1C\<close>
  whatever the heading.\<close>

definition emulated_sentence :: "real \<Rightarrow> string" where
  "emulated_sentence heading = ''$HEHDT,'' @ fmt_fixed 1 heading @ '',T*1C'' @ [CHR 0x0D, CHR 0x0A]"

lemma emulation_starts_invalid: "\<not> validate_checksum (py_strip (emulated_sentence 124.6))"
  by code_simp

end
