(* ===== verification/Museum_Physics.thy ===== *)
theory Museum_Physics
  imports Py_Math
begin

text \<open>
  Nodes 1 to 60 of the museum catalogue \<open>config/museum_history_matrix.py\<close>: the display formulas of
  the base, utility, silo and infrastructure exhibits. Every function of the source is one definition with
  the source's guards and sentinel values (999, 999.9, 999999); a formula that can divide by zero
  or leave the domain of a \<open>math\<close> function returns an option. Integer arguments are \<open>int\<close>.
\<close>

section \<open>Nodes 1 to 10\<close>

definition equation_hospital_blood_decay :: "real \<Rightarrow> int \<Rightarrow> real option" where
  "equation_hospital_blood_decay lam k =
     do { p \<leftarrow> py_ipow lam k; f \<leftarrow> py_factorial k; py_div (exp (- lam) * p) f }"

definition equation_power_phase_sync :: "real \<Rightarrow> real \<Rightarrow> real \<Rightarrow> real" where
  "equation_power_phase_sync voltage_a voltage_b angle_rad = voltage_a * voltage_b * sin angle_rad"

definition equation_utility_reynolds_number :: "real \<Rightarrow> real \<Rightarrow> real \<Rightarrow> real option" where
  "equation_utility_reynolds_number velocity pipe_diameter viscosity = py_div (velocity * pipe_diameter) viscosity"

definition equation_gym_readiness_index :: "real \<Rightarrow> real \<Rightarrow> real option" where
  "equation_gym_readiness_index weight_kg height_meters = py_div weight_kg (height_meters ^ 2)"

definition equation_lab_radar_cross_section :: "real \<Rightarrow> real \<Rightarrow> real option" where
  "equation_lab_radar_cross_section radius wavelength = py_div (pi * radius ^ 4) (4 * wavelength ^ 2)"

definition equation_engineering_cable_twist :: "real \<Rightarrow> real \<Rightarrow> real \<Rightarrow> real \<Rightarrow> real option" where
  "equation_engineering_cable_twist torque len shear_modulus polar_inertia =
     py_div (torque * len) (shear_modulus * polar_inertia)"

definition equation_patent_core_flux :: "int \<Rightarrow> real \<Rightarrow> real \<Rightarrow> real option" where
  "equation_patent_core_flux turns current_amps reluctance = py_div (of_int turns * current_amps) reluctance"

definition equation_clothing_reorder_size :: "real \<Rightarrow> real \<Rightarrow> real \<Rightarrow> real option" where
  "equation_clothing_reorder_size demand_rate setup_cost holding_cost =
     do { q \<leftarrow> py_div (2 * demand_rate * setup_cost) holding_cost; py_sqrt q }"

definition equation_education_operator_lag :: "int \<Rightarrow> real" where
  "equation_education_operator_lag number_of_targets = 0.15 * ln (of_int (max 1 number_of_targets)) + 0.05"

definition equation_firing_intercept_angle :: "real \<Rightarrow> real \<Rightarrow> real \<Rightarrow> real option" where
  "equation_firing_intercept_angle v_target v_bullet approach_angle_rad =
     do { q \<leftarrow> py_div (v_target * sin approach_angle_rad) v_bullet; py_asin q }"

section \<open>Nodes 11 to 20\<close>

definition equation_metoc_sound_speed :: "real \<Rightarrow> real \<Rightarrow> real \<Rightarrow> real" where
  "equation_metoc_sound_speed temp_c salinity_ppt depth_meters =
     1449.2 + 4.6 * temp_c - 0.055 * temp_c ^ 2 + 1.34 * (salinity_ppt - 35) + 0.016 * depth_meters"

definition equation_pump_gate_thrust :: "real \<Rightarrow> real \<Rightarrow> real" where
  "equation_pump_gate_thrust gate_width water_height =
     (let rho_seawater = 1025; g = 9.81 in 0.5 * rho_seawater * g * gate_width * water_height ^ 2)"

definition equation_manning_retention_decay :: "int \<Rightarrow> real \<Rightarrow> real" where
  "equation_manning_retention_decay base_crew_count months_deployed =
     of_int base_crew_count * exp (- 0.045 * months_deployed)"

definition equation_catapult_kinetic_energy :: "real \<Rightarrow> real \<Rightarrow> real" where
  "equation_catapult_kinetic_energy aircraft_mass_kg takeoff_velocity_ms =
     0.5 * aircraft_mass_kg * takeoff_velocity_ms ^ 2"

definition equation_torpedo_impact_force :: "real \<Rightarrow> real \<Rightarrow> real \<Rightarrow> real" where
  "equation_torpedo_impact_force entry_velocity drag_coefficient area =
     (let rho_seawater = 1025 in 0.5 * rho_seawater * entry_velocity ^ 2 * area * drag_coefficient)"

definition equation_basin_wave_phase_velocity :: "real \<Rightarrow> real \<Rightarrow> real option" where
  "equation_basin_wave_phase_velocity wave_frequency_rads depth_meters =
     (let g = 9.81 in
      do { q \<leftarrow> py_div g wave_frequency_rads; py_sqrt (q * tanh (wave_frequency_rads * depth_meters)) })"

definition equation_ordnance_chemical_decay :: "real \<Rightarrow> real option" where
  "equation_ordnance_chemical_decay ambient_temp_k =
     (let frequency_factor = 2.4 * 10 ^ 12; activation_energy_j = 85000; gas_constant_r = 8.314 in
      do { q \<leftarrow> py_div (- activation_energy_j) (gas_constant_r * ambient_temp_k);
           Some (frequency_factor * exp q) })"

definition equation_gyro_inertial_drift :: "real \<Rightarrow> real \<Rightarrow> real \<Rightarrow> real option" where
  "equation_gyro_inertial_drift applied_torque_nm rotor_spin_inertia spin_rate_rads =
     py_div applied_torque_nm (rotor_spin_inertia * spin_rate_rads)"

definition equation_habitat_crush_pressure :: "real \<Rightarrow> real \<Rightarrow> real \<Rightarrow> real option" where
  "equation_habitat_crush_pressure modulus_elasticity wall_thickness radius =
     (let poisson_ratio = 0.3; scale = modulus_elasticity / (4 * (1 - poisson_ratio ^ 2)) in
      do { q \<leftarrow> py_div wall_thickness radius; Some (scale * q ^ 3) })"

definition equation_logistics_trim_moment :: "real \<Rightarrow> real \<Rightarrow> real" where
  "equation_logistics_trim_moment cargo_weight_newtons arm_distance_meters = cargo_weight_newtons * arm_distance_meters"

section \<open>Nodes 21 to 30\<close>

definition equation_propellant_mixer_torque :: "real \<Rightarrow> real \<Rightarrow> real \<Rightarrow> real" where
  "equation_propellant_mixer_torque viscosity_pas rotational_speed_rads blade_radius_m =
     4 * pi * viscosity_pas * rotational_speed_rads * blade_radius_m ^ 3"

definition equation_comm_packet_latency :: "real \<Rightarrow> real \<Rightarrow> real" where
  "equation_comm_packet_latency arrival_rate service_capacity =
     (if service_capacity \<le> arrival_rate then 999.9 else 1 / (service_capacity - arrival_rate))"

definition equation_crypt_triangulation_offset :: "real \<Rightarrow> real \<Rightarrow> real \<Rightarrow> real" where
  "equation_crypt_triangulation_offset pole base_distance_m bearing_angle_rad =
     base_distance_m * py_tan pole bearing_angle_rad"

definition equation_shielding_radiation_attenuation :: "real \<Rightarrow> real \<Rightarrow> real \<Rightarrow> real option" where
  "equation_shielding_radiation_attenuation initial_intensity target_intensity linear_atten_coef =
     (if initial_intensity \<le> target_intensity then Some 0.0
      else do { q \<leftarrow> py_div initial_intensity target_intensity; l \<leftarrow> py_log q; py_div l linear_atten_coef })"

definition equation_turbine_exhaust_velocity :: "real \<Rightarrow> real \<Rightarrow> real \<Rightarrow> real option" where
  "equation_turbine_exhaust_velocity specific_heat inlet_temp_k outlet_temp_k =
     (let temp_delta = inlet_temp_k - outlet_temp_k in
      if temp_delta \<le> 0 then Some 0 else py_sqrt (2 * specific_heat * temp_delta))"

definition equation_supply_failure_probability :: "real \<Rightarrow> real \<Rightarrow> real \<Rightarrow> real option" where
  "equation_supply_failure_probability time_days scale_alpha shape_beta =
     do { q \<leftarrow> py_div time_days scale_alpha; p \<leftarrow> py_pow q shape_beta; Some (1 - exp (- p)) }"

definition equation_asw_blade_rate_frequency :: "real \<Rightarrow> int \<Rightarrow> real" where
  "equation_asw_blade_rate_frequency shaft_rpm number_of_blades = (shaft_rpm / 60) * of_int number_of_blades"

definition equation_mine_magnetic_flux :: "real \<Rightarrow> int \<Rightarrow> real \<Rightarrow> real \<Rightarrow> real option" where
  "equation_mine_magnetic_flux permeability coil_turns current_amps length_m =
     py_div (permeability * of_int coil_turns * current_amps) length_m"

definition equation_weather_geostrophic_wind :: "real \<Rightarrow> real \<Rightarrow> real \<Rightarrow> real" where
  "equation_weather_geostrophic_wind pressure_gradient air_density coriolis_parameter =
     (let denom = air_density * coriolis_parameter in
      if \<bar>denom\<bar> < 1 / 10 ^ 6 then 0 else pressure_gradient / denom)"

definition equation_hydrofoil_cavitation_index :: "real \<Rightarrow> real \<Rightarrow> real \<Rightarrow> real" where
  "equation_hydrofoil_cavitation_index static_pressure vapor_pressure velocity_ms =
     (let rho_seawater = 1025; denom = 0.5 * rho_seawater * velocity_ms ^ 2 in
      if denom \<le> 0.1 then 999 else (static_pressure - vapor_pressure) / denom)"

section \<open>Nodes 31 to 40\<close>

definition equation_cbrn_blast_force :: "real \<Rightarrow> real \<Rightarrow> real" where
  "equation_cbrn_blast_force peak_overpressure_psi door_area_m2 =
     (let psi_to_pascal = 6894.76 in peak_overpressure_psi * psi_to_pascal * door_area_m2)"

definition equation_silo_pump_lift_velocity :: "real \<Rightarrow> real \<Rightarrow> real" where
  "equation_silo_pump_lift_velocity pump_pressure_pascal head_height_meters =
     (let rho_seawater = 1025; g = 9.81;
          velocity_squared = (2 * pump_pressure_pascal / rho_seawater) - (2 * g * head_height_meters)
      in sqrt (max 0 velocity_squared))"

definition equation_bunker_power_impedance :: "real \<Rightarrow> real \<Rightarrow> real \<Rightarrow> real" where
  "equation_bunker_power_impedance resistance_ohms inductance_henries frequency_hz =
     (let reactance = 2 * pi * frequency_hz * inductance_henries in
      sqrt (resistance_ohms ^ 2 + reactance ^ 2))"

definition equation_silo_lox_pressure :: "real \<Rightarrow> real \<Rightarrow> real \<Rightarrow> real option" where
  "equation_silo_lox_pressure ambient_temp_k volume_m3 moles_gas =
     (let gas_constant_r = 8.314 in py_div (moles_gas * gas_constant_r * ambient_temp_k) volume_m3)"

definition equation_silo_water_flow_rate :: "real \<Rightarrow> real \<Rightarrow> real" where
  "equation_silo_water_flow_rate rocket_thrust_newtons exhaust_velocity_ms =
     (if exhaust_velocity_ms \<le> 0.1 then 999 else rocket_thrust_newtons / exhaust_velocity_ms)"

definition equation_orbital_velocity :: "real \<Rightarrow> real \<Rightarrow> real option" where
  "equation_orbital_velocity altitude_meters semi_major_axis_meters =
     (let mu_earth = 3.986004418 * 10 ^ 14; r_radius = 6371000 + altitude_meters in
      do { a \<leftarrow> py_div 2 r_radius; b \<leftarrow> py_div 1 semi_major_axis_meters;
           Some (sqrt (max 0 (mu_earth * (a - b)))) })"

definition equation_radar_aurora_attenuation :: "real \<Rightarrow> real \<Rightarrow> real option" where
  "equation_radar_aurora_attenuation electron_density_m3 radar_freq_hz =
     (if radar_freq_hz \<le> 1 then Some 999.0
      else do { d \<leftarrow> py_sqrt electron_density_m3;
                let plasma_freq = 8.98 * d;
                Some (sqrt (max 0 (1 - (plasma_freq / radar_freq_hz) ^ 2))) })"

definition equation_satellite_fence_distance :: "real \<Rightarrow> real \<Rightarrow> real" where
  "equation_satellite_fence_distance baseline_distance_m phase_delta_rad =
     (if \<bar>sin phase_delta_rad\<bar> < 1 / 10 ^ 5 then 999999 else baseline_distance_m / sin phase_delta_rad)"

definition equation_space_habitat_oxygen_partial_pressure :: "real \<Rightarrow> real \<Rightarrow> real" where
  "equation_space_habitat_oxygen_partial_pressure total_pressure_atm oxygen_fraction =
     total_pressure_atm * oxygen_fraction"

definition equation_vlf_helical_resonance :: "real \<Rightarrow> real \<Rightarrow> real option" where
  "equation_vlf_helical_resonance inductance_henries capacitance_farads =
     do { s \<leftarrow> py_sqrt (inductance_henries * capacitance_farads);
          let denom = 2 * pi * s;
          if denom \<le> 0 then Some 0 else Some (1 / denom) }"

section \<open>Nodes 41 to 60\<close>

definition equation_rail_braking_force :: "real \<Rightarrow> real \<Rightarrow> real \<Rightarrow> real" where
  "equation_rail_braking_force train_mass_kg velocity_ms stop_distance_m =
     (if stop_distance_m \<le> 0.1 then 999999 else (0.5 * train_mass_kg * velocity_ms ^ 2) / stop_distance_m)"

definition equation_station_manifest_queue :: "real \<Rightarrow> real \<Rightarrow> real" where
  "equation_station_manifest_queue arrival_rate_per_min average_wait_min = arrival_rate_per_min * average_wait_min"

definition equation_traffic_loop_inductance :: "int \<Rightarrow> real \<Rightarrow> real \<Rightarrow> real \<Rightarrow> real option" where
  "equation_traffic_loop_inductance turns area_m2 permeability length_m =
     py_div (permeability * of_int (turns ^ 2) * area_m2) length_m"

definition equation_dam_spillway_flow :: "real \<Rightarrow> real \<Rightarrow> real \<Rightarrow> real option" where
  "equation_dam_spillway_flow discharge_coef width_m head_height_m =
     do { h \<leftarrow> py_pow head_height_m 1.5; Some (discharge_coef * width_m * h) }"

definition equation_generator_dynamo_power :: "real \<Rightarrow> real \<Rightarrow> real \<Rightarrow> real \<Rightarrow> real" where
  "equation_generator_dynamo_power v_internal v_bus react_ohms delta_rad =
     (if react_ohms \<le> 0.01 then 0 else ((v_internal * v_bus) / react_ohms) * sin delta_rad)"

definition equation_bunker_hvac_pressure :: "real \<Rightarrow> real \<Rightarrow> real" where
  "equation_bunker_hvac_pressure air_density velocity_ms = 0.5 * air_density * velocity_ms ^ 2"

definition equation_school_doppler_frequency :: "real \<Rightarrow> real \<Rightarrow> real" where
  "equation_school_doppler_frequency base_freq_hz target_velocity_ms =
     (let c_speed_of_light = 299792458 in base_freq_hz * (1 + (target_velocity_ms / c_speed_of_light)))"

definition equation_nike_sam_intercept :: "real \<Rightarrow> real \<Rightarrow> real \<Rightarrow> real" where
  "equation_nike_sam_intercept r_target_m v_missile_ms t_flight_sec = r_target_m + (v_missile_ms * t_flight_sec)"

definition equation_science_waveguide_cutoff :: "real \<Rightarrow> real option" where
  "equation_science_waveguide_cutoff width_m = (let c_speed = 299792458 in py_div c_speed (2 * width_m))"

definition equation_security_sensor_voltage :: "real \<Rightarrow> real \<Rightarrow> real \<Rightarrow> real" where
  "equation_security_sensor_voltage input_voltage r_sensor r_fixed =
     (if r_sensor + r_fixed \<le> 0 then 0 else input_voltage * (r_fixed / (r_sensor + r_fixed)))"

definition equation_wind_turbine_power :: "real \<Rightarrow> real \<Rightarrow> real \<Rightarrow> real \<Rightarrow> real" where
  "equation_wind_turbine_power air_density blade_radius_m wind_speed_ms cp_efficiency =
     (let area = pi * blade_radius_m ^ 2 in 0.5 * air_density * area * wind_speed_ms ^ 3 * cp_efficiency)"

definition equation_solar_incidence_power :: "real \<Rightarrow> real \<Rightarrow> real \<Rightarrow> real" where
  "equation_solar_incidence_power base_flux_wm2 sun_angle_rad panel_angle_rad =
     base_flux_wm2 * cos (sun_angle_rad - panel_angle_rad)"

definition equation_cctv_cable_loss :: "real \<Rightarrow> real \<Rightarrow> real" where
  "equation_cctv_cable_loss length_feet attenuation_per_100ft = (length_feet / 100) * attenuation_per_100ft"

definition equation_drill_shaft_shear_stress :: "real \<Rightarrow> real \<Rightarrow> real option" where
  "equation_drill_shaft_shear_stress torque_nm shaft_radius_m =
     (let polar_inertia = (pi * shaft_radius_m ^ 4) / 2 in py_div (torque_nm * shaft_radius_m) polar_inertia)"

definition equation_construction_crane_moment :: "real \<Rightarrow> real \<Rightarrow> real" where
  "equation_construction_crane_moment load_mass_kg radius_arm_m = load_mass_kg * 9.81 * radius_arm_m"

definition equation_seabee_mat_load :: "real \<Rightarrow> real \<Rightarrow> real" where
  "equation_seabee_mat_load aircraft_weight_n contact_area_m2 =
     (if contact_area_m2 \<le> 0.01 then aircraft_weight_n else aircraft_weight_n / contact_area_m2)"

definition equation_ai_tree_complexity :: "int \<Rightarrow> int \<Rightarrow> real option" where
  "equation_ai_tree_complexity branching_factor depth_limit = py_ipow (of_int branching_factor) depth_limit"

definition equation_space_force_radius :: "real \<Rightarrow> real \<Rightarrow> real \<Rightarrow> real option" where
  "equation_space_force_radius semi_major_axis_m eccentricity true_anomaly_rad =
     (let numerator = semi_major_axis_m * (1 - eccentricity ^ 2);
          denominator = 1 + eccentricity * cos true_anomaly_rad
      in py_div numerator denominator)"

definition equation_space_command_radar_range :: "real \<Rightarrow> real" where
  "equation_space_command_radar_range time_of_flight_sec =
     (let c_speed = 299792458 in (c_speed * time_of_flight_sec) / 2)"

definition equation_radio_antenna_impedance :: "real \<Rightarrow> real \<Rightarrow> real option" where
  "equation_radio_antenna_impedance inductance_h capacitance_f =
     do { s \<leftarrow> py_sqrt (inductance_h * capacitance_f);
          let denom = 2 * pi * s;
          if denom \<le> 0 then Some 0 else Some (1 / denom) }"

section \<open>What the formulas compute\<close>

text \<open>The stock-out model of node 1 is a probability distribution over the units used.\<close>

lemma poisson_value:
  "equation_hospital_blood_decay lam (int k) = Some (exp (- lam) * lam ^ k / fact k)"
  by (simp add: equation_hospital_blood_decay_def)

lemma poisson_distribution:
  assumes "0 \<le> lam"
  shows "\<forall>k. \<exists>p. equation_hospital_blood_decay lam (int k) = Some p \<and> 0 \<le> p"
    and "(\<lambda>k. the (equation_hospital_blood_decay lam (int k))) sums 1"
proof -
  show "\<forall>k. \<exists>p. equation_hospital_blood_decay lam (int k) = Some p \<and> 0 \<le> p"
    using assms by (simp add: poisson_value)
  have "(\<lambda>k. exp (- lam) * (lam ^ k /\<^sub>R fact k)) sums (exp (- lam) * exp lam)"
    by (intro sums_mult exp_converges)
  then show "(\<lambda>k. the (equation_hospital_blood_decay lam (int k))) sums 1"
    by (simp add: poisson_value exp_minus divide_inverse mult_ac scaleR_conv_of_real)
qed

text \<open>The abstract specification of node 8: the yearly cost of ordering in lots of \<open>q\<close>.\<close>

definition inventory_cost :: "real \<Rightarrow> real \<Rightarrow> real \<Rightarrow> real \<Rightarrow> real" where
  "inventory_cost demand setup holding q = demand * setup / q + holding * q / 2"

lemma square_root_lot:
  fixes q :: real
  assumes q: "0 < q" "holding * (q * q) = 2 * c" and h: "0 < holding"
  shows "c / q + holding * q / 2 = holding * q"
    and "0 < r \<Longrightarrow> holding * q \<le> c / r + holding * r / 2"
proof -
  have c: "c = holding * q * q / 2" using q(2) by simp
  show "c / q + holding * q / 2 = holding * q" using q(1) by (simp add: c)
  have "0 \<le> holding * (r - q)\<^sup>2" using h by simp
  also have "\<dots> = holding * r * r + 2 * c - 2 * (holding * q) * r"
    by (simp add: c power2_eq_square algebra_simps)
  finally have "holding * q * (2 * r) \<le> holding * r * r + 2 * c" by simp
  then show "holding * q \<le> c / r + holding * r / 2" if "0 < r"
    using that by (simp add: field_simps)
qed

text \<open>The order size of node 8 is optimal: for positive demand, set-up and holding cost the
  function returns a positive lot size, and no other positive lot size costs less per year.\<close>

theorem reorder_size_optimal:
  assumes "0 < demand" and "0 < setup" and "0 < holding"
  shows "\<exists>q. equation_clothing_reorder_size demand setup holding = Some q \<and> 0 < q
    \<and> inventory_cost demand setup holding q = holding * q
    \<and> (\<forall>r>0. inventory_cost demand setup holding q \<le> inventory_cost demand setup holding r)"
proof -
  define q where "q = sqrt (2 * demand * setup / holding)"
  have q: "0 < q" "holding * (q * q) = 2 * (demand * setup)"
    using assms by (simp_all add: q_def)
  have "equation_clothing_reorder_size demand setup holding = Some q"
    using assms by (simp add: equation_clothing_reorder_size_def q_def)
  with q(1) show ?thesis
    using square_root_lot [OF q assms(3)] by (simp add: inventory_cost_def)
qed

theorem reorder_size_optimal_witness:
  "\<exists>q. equation_clothing_reorder_size 800 25 4 = Some q \<and> 0 < q
    \<and> inventory_cost 800 25 4 q = 4 * q
    \<and> (\<forall>r>0. inventory_cost 800 25 4 q \<le> inventory_cost 800 25 4 r)"
  using reorder_size_optimal [of 800 25 4] by simp

text \<open>Node 22 composed with Little's law of node 42 is the mean number of packets in the queue.\<close>

lemma mm1_queue_length:
  assumes "0 < mu" and "arrival < mu"
  shows "equation_station_manifest_queue arrival (equation_comm_packet_latency arrival mu)
    = (arrival / mu) / (1 - arrival / mu)"
  using assms by (simp add: equation_station_manifest_queue_def equation_comm_packet_latency_def field_simps)

text \<open>The wave of node 16 is never faster than its shallow and deep water limits.\<close>

lemma tanh_le_self:
  assumes "0 \<le> (x::real)"
  shows "tanh x \<le> x"
proof -
  have "(\<lambda>x. x - tanh x) 0 \<le> (\<lambda>x. x - tanh x) x"
    using assms
  proof (rule DERIV_nonneg_imp_nondecreasing)
    fix t :: real
    assume "0 \<le> t"
    have "((\<lambda>x. x - tanh x) has_real_derivative (1 - (1 - (tanh t)\<^sup>2))) (at t)"
      by (auto intro!: derivative_eq_intros)
    then show "\<exists>y. ((\<lambda>x. x - tanh x) has_real_derivative y) (at t) \<and> 0 \<le> y" by fastforce
  qed
  then show ?thesis by simp
qed

lemma basin_wave_limits:
  assumes "0 < w" and "0 \<le> d"
  shows "\<exists>c. equation_basin_wave_phase_velocity w d = Some c \<and> 0 \<le> c
    \<and> c\<^sup>2 \<le> 9.81 * d \<and> c\<^sup>2 \<le> 9.81 / w"
proof -
  let ?x = "9.81 / w * tanh (w * d)"
  have t: "0 \<le> tanh (w * d)" using assms by simp
  have x: "0 \<le> ?x" using assms t by simp
  have "?x \<le> 9.81 / w * (w * d)" using assms by (intro mult_left_mono tanh_le_self) simp_all
  also have "\<dots> = 9.81 * d" using assms by simp
  finally have shallow: "?x \<le> 9.81 * d" .
  have "?x \<le> 9.81 / w * 1" using assms less_imp_le [OF tanh_real_lt_1] by (intro mult_left_mono) simp_all
  then have deep: "?x \<le> 9.81 / w" by (simp only: mult_1_right)
  have "equation_basin_wave_phase_velocity w d = Some (sqrt ?x)"
    using assms(1) x unfolding equation_basin_wave_phase_velocity_def Let_def by simp
  moreover have "(sqrt ?x)\<^sup>2 = ?x" using x by (rule real_sqrt_pow2)
  moreover have "0 \<le> sqrt ?x" using x by (rule real_sqrt_ge_zero)
  ultimately show ?thesis using shallow deep by (intro exI [of _ "sqrt ?x"]) (simp only: simp_thms)
qed

text \<open>The latency grows with the load below saturation, and just below it exceeds the value the
  function returns for a saturated queue.\<close>

lemma latency_grows:
  assumes "a \<le> b" and "b < mu"
  shows "0 < equation_comm_packet_latency a mu"
    and "equation_comm_packet_latency a mu \<le> equation_comm_packet_latency b mu"
  using assms by (simp_all add: equation_comm_packet_latency_def frac_le)

lemma latency_exceeds_overflow_limit: "999.9 < equation_comm_packet_latency (mu - 1/2000) mu"
  by (simp add: equation_comm_packet_latency_def)

text \<open>Node 26 is a distribution function in time.\<close>

lemma failure_probability:
  assumes "0 \<le> s" and "s \<le> t" and "0 < alpha" and "0 < beta"
  shows "\<exists>p q. equation_supply_failure_probability s alpha beta = Some p
    \<and> equation_supply_failure_probability t alpha beta = Some q
    \<and> 0 \<le> p \<and> p \<le> q \<and> q < 1"
proof -
  have v: "equation_supply_failure_probability x alpha beta = Some (1 - exp (- ((x / alpha) powr beta)))"
    if "0 \<le> x" for x
    using that assms(3,4) by (cases "x = 0") (simp_all add: equation_supply_failure_probability_def)
  have "(s / alpha) powr beta \<le> (t / alpha) powr beta"
    using assms by (intro powr_mono2 divide_right_mono) simp_all
  then show ?thesis using v [OF assms(1)] v [of t] assms by simp
qed

text \<open>The shield of node 24 attenuates exactly to the target.\<close>

lemma shield_attenuates_to_target:
  assumes "0 < target" and "target < initial" and "0 < mu"
  shows "\<exists>x. equation_shielding_radiation_attenuation initial target mu = Some x \<and> 0 < x
    \<and> initial * exp (- mu * x) = target"
proof -
  have q: "1 < initial / target" using assms by simp
  have "exp (- mu * (ln (initial / target) / mu)) = target / initial"
    using q assms by (simp add: exp_minus)
  moreover have "equation_shielding_radiation_attenuation initial target mu = Some (ln (initial / target) / mu)"
    using q assms by (simp add: equation_shielding_radiation_attenuation_def del: divide_less_eq_1 less_divide_eq_1)
  moreover have "0 < ln (initial / target) / mu" using q assms by (intro divide_pos_pos ln_gt_zero)
  ultimately show ?thesis using assms by (intro exI [of _ "ln (initial / target) / mu"]) (simp del: ln_div)
qed

text \<open>Node 10 cancels the crossing velocity, or has no answer because the projectile is too slow.\<close>

lemma intercept_law_of_sines:
  assumes "0 < v_bullet"
  shows "equation_firing_intercept_angle v_target v_bullet approach = None
      \<longleftrightarrow> v_bullet < \<bar>v_target * sin approach\<bar>"
    and "equation_firing_intercept_angle v_target v_bullet approach = Some lead \<Longrightarrow>
      v_bullet * sin lead = v_target * sin approach \<and> - pi / 2 \<le> lead \<and> lead \<le> pi / 2"
proof -
  let ?q = "v_target * sin approach / v_bullet"
  have e: "equation_firing_intercept_angle v_target v_bullet approach = py_asin ?q"
    using assms by (simp add: equation_firing_intercept_angle_def)
  have q: "1 < \<bar>?q\<bar> \<longleftrightarrow> v_bullet < \<bar>v_target * sin approach\<bar>"
    using assms by (simp add: abs_divide pos_less_divide_eq)
  show "equation_firing_intercept_angle v_target v_bullet approach = None
      \<longleftrightarrow> v_bullet < \<bar>v_target * sin approach\<bar>"
    by (simp only: e py_asin_None q)
  assume "equation_firing_intercept_angle v_target v_bullet approach = Some lead"
  then have le: "\<bar>?q\<bar> \<le> 1" and lead: "lead = arcsin ?q"
    by (simp_all add: e py_asin_def split: if_splits)
  have "sin lead = ?q" unfolding lead using le by (intro sin_arcsin) (simp_all only: abs_le_iff, linarith)
  moreover have "- pi / 2 \<le> lead \<and> lead \<le> pi / 2"
    unfolding lead using arcsin_bounded [of ?q] le by (auto simp only: abs_le_iff minus_le_iff minus_divide_left)
  ultimately show "v_bullet * sin lead = v_target * sin approach \<and> - pi / 2 \<le> lead \<and> lead \<le> pi / 2"
    using assms by simp
qed

text \<open>Nodes 58 and 36: the conic between perigee and apogee, and the energy of the orbit.\<close>

lemma orbit_radius_bounds:
  assumes "0 < a" and "0 \<le> e" and "e < 1"
  shows "\<exists>r. equation_space_force_radius a e anomaly = Some r \<and> a * (1 - e) \<le> r \<and> r \<le> a * (1 + e)"
    and "equation_space_force_radius a e 0 = Some (a * (1 - e))"
    and "equation_space_force_radius a e pi = Some (a * (1 + e))"
proof -
  have num: "a * (1 - e\<^sup>2) = a * (1 - e) * (1 + e)" by (simp add: power2_eq_square algebra_simps)
  let ?d = "1 + e * cos anomaly"
  have ge: "- e \<le> e * cos anomaly" using mult_left_mono [OF cos_ge_minus_one [of anomaly] assms(2)] by simp
  have le: "e * cos anomaly \<le> e" using mult_left_mono [OF cos_le_one [of anomaly] assms(2)] by simp
  have d: "0 < ?d" "1 - e \<le> ?d" "?d \<le> 1 + e" using ge le assms by linarith+
  have "a * (1 - e) * ?d \<le> a * (1 - e) * (1 + e)" "a * (1 + e) * (1 - e) \<le> a * (1 + e) * ?d"
    using d assms by (intro mult_left_mono; simp)+
  then have "a * (1 - e) \<le> a * (1 - e) * (1 + e) / ?d" "a * (1 - e) * (1 + e) / ?d \<le> a * (1 + e)"
    using d(1) by (simp_all only: pos_le_divide_eq pos_divide_le_eq) (simp_all only: mult_ac)
  with d(1) show "\<exists>r. equation_space_force_radius a e anomaly = Some r \<and> a * (1 - e) \<le> r \<and> r \<le> a * (1 + e)"
    by (simp add: equation_space_force_radius_def Let_def num)
  show "equation_space_force_radius a e 0 = Some (a * (1 - e))"
    using assms by (simp add: equation_space_force_radius_def Let_def num)
  show "equation_space_force_radius a e pi = Some (a * (1 + e))"
    using assms by (simp add: equation_space_force_radius_def Let_def num)
qed

lemma orbital_energy:
  assumes "0 < a" and "0 < r" and "r \<le> 2 * a"
  shows "\<exists>v. equation_orbital_velocity (r - 6371000) a = Some v
    \<and> v\<^sup>2 / 2 - 3.986004418 * 10 ^ 14 / r = - (3.986004418 * 10 ^ 14 / (2 * a))"
proof -
  define m where "m = (3.986004418 * 10 ^ 14 :: real)"
  have "1 / a \<le> 2 / r" using assms by (simp add: field_simps)
  then have p: "0 \<le> m * (2 / r - 1 / a)" by (simp add: m_def)
  have "equation_orbital_velocity (r - 6371000) a = Some (sqrt (max 0 (m * (2 / r - 1 / a))))"
    unfolding equation_orbital_velocity_def Let_def m_def [symmetric] using assms by simp
  then have "equation_orbital_velocity (r - 6371000) a = Some (sqrt (m * (2 / r - 1 / a)))"
    using p by (simp only: max_absorb2)
  then show ?thesis
    unfolding m_def [symmetric] using p assms by (simp add: right_diff_distrib diff_divide_distrib)
qed

text \<open>Nodes 40 and 60 are the same formula; nodes 32 and 50 balance pressures and voltages.\<close>

lemma resonance:
  assumes "0 < l" and "0 < c"
  shows "\<exists>f. equation_vlf_helical_resonance l c = Some f \<and> 0 < f \<and> (2 * pi * f)\<^sup>2 * (l * c) = 1"
    and "equation_radio_antenna_impedance l c = equation_vlf_helical_resonance l c"
proof -
  show "equation_radio_antenna_impedance l c = equation_vlf_helical_resonance l c"
    by (simp add: equation_radio_antenna_impedance_def equation_vlf_helical_resonance_def)
  have lc: "0 < l * c" using assms by simp
  have "\<not> 2 * pi * sqrt (l * c) \<le> 0" unfolding not_le by (intro mult_pos_pos real_sqrt_gt_zero lc) simp_all
  then have "equation_vlf_helical_resonance l c = Some (1 / (2 * pi * sqrt (l * c)))"
    by (simp only: equation_vlf_helical_resonance_def py_sqrt_nonneg less_imp_le [OF lc] Option.bind.bind_lunit Let_def if_False)
  moreover have "(2 * pi * (1 / (2 * pi * sqrt (l * c))))\<^sup>2 * (l * c) = 1"
    using lc assms by (simp add: power_divide)
  ultimately show "\<exists>f. equation_vlf_helical_resonance l c = Some f \<and> 0 < f \<and> (2 * pi * f)\<^sup>2 * (l * c) = 1"
    using lc by (intro exI [of _ "1 / (2 * pi * sqrt (l * c))"]) (simp del: real_sqrt_mult)
qed

lemma pump_head_balance:
  assumes "0 < equation_silo_pump_lift_velocity p h"
  shows "p = 1025 * ((equation_silo_pump_lift_velocity p h)\<^sup>2 / 2 + 9.81 * h)"
proof -
  have "0 < 2 * p / 1025 - 2 * 9.81 * h"
    using assms by (simp add: equation_silo_pump_lift_velocity_def max_def split: if_splits)
  then have "(equation_silo_pump_lift_velocity p h)\<^sup>2 = 2 * p / 1025 - 2 * 9.81 * h"
    by (simp add: equation_silo_pump_lift_velocity_def max_def)
  then show ?thesis by (simp only:) (simp add: field_simps)
qed

lemma divider_between:
  assumes "0 \<le> r_sensor" and "0 \<le> r_fixed" and "0 \<le> v"
  shows "0 \<le> equation_security_sensor_voltage v r_sensor r_fixed"
    and "equation_security_sensor_voltage v r_sensor r_fixed \<le> v"
    and "0 < r_sensor + r_fixed \<Longrightarrow>
      equation_security_sensor_voltage v r_sensor r_fixed + equation_security_sensor_voltage v r_fixed r_sensor = v"
proof -
  have "r_fixed / (r_sensor + r_fixed) \<le> 1" using assms by (simp add: divide_le_eq_1) linarith
  then have "v * (r_fixed / (r_sensor + r_fixed)) \<le> v * 1" using assms(3) by (rule mult_left_mono)
  then show "equation_security_sensor_voltage v r_sensor r_fixed \<le> v"
    using assms(3) by (simp add: equation_security_sensor_voltage_def)
  show "0 \<le> equation_security_sensor_voltage v r_sensor r_fixed"
    using assms by (simp add: equation_security_sensor_voltage_def)
  assume "0 < r_sensor + r_fixed"
  then show "equation_security_sensor_voltage v r_sensor r_fixed + equation_security_sensor_voltage v r_fixed r_sensor = v"
    by (simp add: equation_security_sensor_voltage_def add.commute [of r_fixed])
       (simp add: add_divide_distrib [symmetric] distrib_left [symmetric] add.commute [of r_fixed])
qed

section \<open>When the formulas raise\<close>

lemma basin_wave_raises: "equation_basin_wave_phase_velocity w d = None \<longleftrightarrow> w = 0 \<or> d < 0"
proof (cases "w = 0")
  case False
  have "9.81 / w * tanh (w * d) < 0 \<longleftrightarrow> d < 0"
    using False by (cases "0 < w") (auto simp: mult_less_0_iff zero_less_mult_iff divide_less_0_iff zero_less_divide_iff)
  then show ?thesis
    using False unfolding equation_basin_wave_phase_velocity_def Let_def by simp
qed (simp add: equation_basin_wave_phase_velocity_def)

lemma shielding_raises:
  "equation_shielding_radiation_attenuation i t mu = None \<longleftrightarrow>
     t < i \<and> (mu = 0 \<or> t \<le> 0 \<and> 0 \<le> i)"
proof (cases "i \<le> t")
  case False
  have "t = 0 \<or> i / t \<le> 0 \<longleftrightarrow> t \<le> 0 \<and> 0 \<le> i"
    using False by (auto simp: divide_le_0_iff)
  with False show ?thesis
    by (auto simp: equation_shielding_radiation_attenuation_def py_div_def py_log_def not_le)
qed (simp add: equation_shielding_radiation_attenuation_def)

lemma head_power_raises: "py_pow h 1.5 = None \<longleftrightarrow> h < 0"
proof -
  have "\<lfloor>1.5::real\<rfloor> = 1" by (simp add: floor_eq_iff)
  then show ?thesis by (simp add: py_pow_None)
qed

lemma spillway_raises: "equation_dam_spillway_flow c width h = None \<longleftrightarrow> h < 0"
  by (simp only: equation_dam_spillway_flow_def bind_eq_None_conv head_power_raises) simp

lemma poisson_raises: "equation_hospital_blood_decay lam k = None \<longleftrightarrow> k < 0"
  by (cases "k < 0") (auto simp: equation_hospital_blood_decay_def bind_eq_None_conv)

lemma reorder_raises:
  "equation_clothing_reorder_size demand setup holding = None \<longleftrightarrow> holding = 0 \<or> 2 * demand * setup / holding < 0"
  by (cases "holding = 0") (simp_all add: equation_clothing_reorder_size_def)

lemma failure_raises:
  "equation_supply_failure_probability t alpha beta = None \<longleftrightarrow>
     alpha = 0 \<or> (t = 0 \<and> beta < 0) \<or> (t / alpha < 0 \<and> beta \<noteq> of_int \<lfloor>beta\<rfloor>)"
  by (cases "alpha = 0") (simp_all add: equation_supply_failure_probability_def bind_eq_None_conv py_pow_None)

lemma orbit_raises: "equation_orbital_velocity alt a = None \<longleftrightarrow> alt = - 6371000 \<or> a = 0"
  by (auto simp: equation_orbital_velocity_def Let_def bind_eq_None_conv)

lemmas formula_raises =
  poisson_raises reorder_raises failure_raises orbit_raises basin_wave_raises shielding_raises spillway_raises

text \<open>The exact conditions under which the partial formulas of nodes 1 to 60 return no real
  number: negative counts, zero divisors, roots and logarithms outside their domain. The sentinel guards
  of nodes 24, 25 and 37 do not cover them all.\<close>

theorem physics_formulas_raise:
  "(equation_hospital_blood_decay lam k = None \<longleftrightarrow> k < 0)
   \<and> (equation_clothing_reorder_size demand setup holding = None \<longleftrightarrow> holding = 0 \<or> 2 * demand * setup / holding < 0)
   \<and> (equation_basin_wave_phase_velocity w d = None \<longleftrightarrow> w = 0 \<or> d < 0)
   \<and> (equation_shielding_radiation_attenuation i target mu = None \<longleftrightarrow> target < i \<and> (mu = 0 \<or> target \<le> 0 \<and> 0 \<le> i))
   \<and> (equation_turbine_exhaust_velocity cp t1 t2 = None \<longleftrightarrow> t2 < t1 \<and> cp < 0)
   \<and> (equation_supply_failure_probability t alpha beta = None \<longleftrightarrow>
        alpha = 0 \<or> (t = 0 \<and> beta < 0) \<or> (t / alpha < 0 \<and> beta \<noteq> of_int \<lfloor>beta\<rfloor>))
   \<and> (equation_dam_spillway_flow c width h = None \<longleftrightarrow> h < 0)
   \<and> (equation_radar_aurora_attenuation n f = None \<longleftrightarrow> 1 < f \<and> n < 0)
   \<and> (equation_drill_shaft_shear_stress torque r = None \<longleftrightarrow> r = 0)
   \<and> (equation_vlf_helical_resonance l cap = None \<longleftrightarrow> l * cap < 0)
   \<and> (equation_ai_tree_complexity b depth = None \<longleftrightarrow> b = 0 \<and> depth < 0)
   \<and> (equation_orbital_velocity alt a = None \<longleftrightarrow> alt = - 6371000 \<or> a = 0)"
  by (simp add: formula_raises equation_turbine_exhaust_velocity_def
      equation_radar_aurora_attenuation_def equation_drill_shaft_shear_stress_def
      equation_vlf_helical_resonance_def equation_ai_tree_complexity_def
      bind_eq_None_conv Let_def not_le mult_less_0_iff)

end
