(* ===== verification/Museum_Systems.thy ===== *)
theory Museum_Systems
  imports Museum_Physics
begin

unbundle bit_operations_syntax

text \<open>
  Nodes 61 to 140 of the museum catalogue \<open>config/museum_history_matrix.py\<close>: tactical, telecommunication,
  deactivated-facility, astronomical and plant exhibits, in the order of the source. Integers are \<open>int\<close>, so
  the bit operations are those of Python's unbounded two's complement.
\<close>

section \<open>Nodes 61 to 75\<close>

definition equation_aegis_phase_steer :: "real \<Rightarrow> real \<Rightarrow> real \<Rightarrow> real option" where
  "equation_aegis_phase_steer element_spacing_m beam_angle_rad wavelength_m =
     py_div (2 * pi * element_spacing_m * sin beam_angle_rad) wavelength_m"

definition equation_delco_gyro_torque :: "real \<Rightarrow> real \<Rightarrow> real \<Rightarrow> real" where
  "equation_delco_gyro_torque spin_inertia precession_rads spin_rate_rads =
     spin_inertia * precession_rads * spin_rate_rads"

definition equation_delphi_injector_velocity :: "real \<Rightarrow> real \<Rightarrow> real option" where
  "equation_delphi_injector_velocity rail_pressure_pascal air_density =
     (if air_density \<le> 0 then Some 0 else py_sqrt ((2 * rail_pressure_pascal) / air_density))"

definition equation_ge_turbine_energy :: "real \<Rightarrow> real \<Rightarrow> real \<Rightarrow> real" where
  "equation_ge_turbine_energy steam_mass_kg inlet_v_ms outlet_v_ms =
     0.5 * steam_mass_kg * (inlet_v_ms ^ 2 - outlet_v_ms ^ 2)"

definition equation_chevrolet_axle_stress :: "real \<Rightarrow> real \<Rightarrow> int \<Rightarrow> real option" where
  "equation_chevrolet_axle_stress torque_nm wheel_radius_m number_of_axles =
     (if number_of_axles \<le> 0 then Some torque_nm
      else py_div torque_nm (wheel_radius_m * of_int number_of_axles))"

definition equation_ford_mechanical_integrator :: "real \<Rightarrow> real \<Rightarrow> real \<Rightarrow> real" where
  "equation_ford_mechanical_integrator disc_radius_m roller_position_m rotational_input_rad =
     (if disc_radius_m \<le> 0.001 then 0 else (roller_position_m / disc_radius_m) * rotational_input_rad)"

definition equation_honda_prop_thrust :: "real \<Rightarrow> real \<Rightarrow> real \<Rightarrow> real \<Rightarrow> real" where
  "equation_honda_prop_thrust thrust_newtons fluid_density rpm diameter_m =
     (let rps = rpm / 60; denom = fluid_density * rps ^ 2 * diameter_m ^ 4
      in if denom \<le> 0.001 then 0 else thrust_newtons / denom)"

definition equation_airlift_flight_range :: "real \<Rightarrow> real \<Rightarrow> real \<Rightarrow> real \<Rightarrow> real option" where
  "equation_airlift_flight_range lift_to_drag specific_fuel_consumption w_initial w_final =
     (if w_final \<le> 0.1 \<or> specific_fuel_consumption \<le> 0 then Some 0
      else do { l \<leftarrow> py_log (w_initial / w_final); Some ((lift_to_drag / specific_fuel_consumption) * l) })"

definition equation_bus_route_weight :: "real \<Rightarrow> int \<Rightarrow> real \<Rightarrow> real" where
  "equation_bus_route_weight distance_miles stops_count stop_delay_sec =
     distance_miles + ((of_int stops_count * stop_delay_sec) / 3600)"

definition equation_quantum_teleportation_fidelity :: "real \<Rightarrow> real" where
  "equation_quantum_teleportation_fidelity state_vector_dot_product = clamp 0 1 (state_vector_dot_product ^ 2)"

definition equation_antigravity_flux_deflection :: "real \<Rightarrow> real \<Rightarrow> real \<Rightarrow> real" where
  "equation_antigravity_flux_deflection mass_kg charge_coulombs magnetic_field_tesla =
     mass_kg * 9.81 - (charge_coulombs * 10 * magnetic_field_tesla)"

definition equation_gasworks_steam_expansion :: "real \<Rightarrow> real \<Rightarrow> real \<Rightarrow> real" where
  "equation_gasworks_steam_expansion p1_pascal v1_m3 p2_pascal =
     (if p2_pascal \<le> 0.1 then v1_m3 else (p1_pascal * v1_m3) / p2_pascal)"

text \<open>The sum over \<open>range(lines_available + 1)\<close> runs over naturals; a negative number of lines already
  raises in the factorial of the numerator.\<close>

definition equation_pentagon_comm_blocking :: "real \<Rightarrow> int \<Rightarrow> real option" where
  "equation_pentagon_comm_blocking traffic_intensity_erlangs lines_available =
     do { p \<leftarrow> py_ipow traffic_intensity_erlangs lines_available;
          f \<leftarrow> py_factorial lines_available;
          let numerator = p / f;
          let denominator = sum_list (map (\<lambda>k. traffic_intensity_erlangs ^ k / fact k) [0..<nat (lines_available + 1)]);
          py_div numerator denominator }"

definition equation_white_house_crypto_xor :: "int \<Rightarrow> int \<Rightarrow> int" where
  "equation_white_house_crypto_xor input_char_ascii pad_key_ascii = input_char_ascii XOR pad_key_ascii"

definition equation_deep_space_laser_beam :: "real \<Rightarrow> real \<Rightarrow> real \<Rightarrow> real" where
  "equation_deep_space_laser_beam distance_meters initial_diameter_m divergence_rad =
     initial_diameter_m + (distance_meters * divergence_rad)"

section \<open>Nodes 76 to 90\<close>

definition equation_bell_vocoder_sqnr :: "int \<Rightarrow> real" where
  "equation_bell_vocoder_sqnr number_of_bits = 6.02 * of_int number_of_bits + 1.76"

definition equation_lockheed_plate_scattering :: "real \<Rightarrow> real \<Rightarrow> real \<Rightarrow> real" where
  "equation_lockheed_plate_scattering area_m2 aspect_angle_rad wavelength_m =
     (if wavelength_m \<le> 1 / 10 ^ 5 then 0
      else let sinc_term = (if \<bar>aspect_angle_rad\<bar> < 1 / 10 ^ 5 then sin aspect_angle_rad
                            else sin aspect_angle_rad / aspect_angle_rad)
           in ((4 * pi * area_m2 ^ 2) / wavelength_m ^ 2) * sinc_term ^ 2)"

definition equation_battleship_synchro_resolver :: "real \<Rightarrow> real \<Rightarrow> real \<Rightarrow> real" where
  "equation_battleship_synchro_resolver max_voltage rotor_angle_rad phase_shift_rad =
     max_voltage * sin rotor_angle_rad * cos phase_shift_rad"

definition equation_qualcomm_cdma_gain :: "real \<Rightarrow> real \<Rightarrow> real option" where
  "equation_qualcomm_cdma_gain chip_rate_hz data_rate_bps =
     (if data_rate_bps \<le> 0.1 then Some 0
      else do { l \<leftarrow> py_log10 (chip_rate_hz / data_rate_bps); Some (10 * l) })"

definition equation_pi_emulation_drift :: "real \<Rightarrow> real \<Rightarrow> real \<Rightarrow> real" where
  "equation_pi_emulation_drift target_freq_hz actual_freq_hz elapsed_sec =
     \<bar>target_freq_hz - actual_freq_hz\<bar> * elapsed_sec"

definition equation_navspasur_zenith_angle :: "real \<Rightarrow> real \<Rightarrow> real \<Rightarrow> real option" where
  "equation_navspasur_zenith_angle wavelength_m phase_delta_rad baseline_distance_m =
     (let denom = 2 * pi * baseline_distance_m in
      if denom \<le> 1 / 10 ^ 5 then Some 0
      else let val = (wavelength_m * phase_delta_rad) / denom in py_acos (clamp (- 1) 1 val))"

definition equation_mcdonnell_lead_compute :: "real \<Rightarrow> real \<Rightarrow> real" where
  "equation_mcdonnell_lead_compute target_range_m closure_rate_ms = target_range_m / max 0.1 closure_rate_ms"

definition equation_boeing_gyro_precession :: "real \<Rightarrow> real \<Rightarrow> real" where
  "equation_boeing_gyro_precession angular_velocity wheel_momentum = angular_velocity * wheel_momentum"

definition equation_ibm_sage_track_vector :: "real \<Rightarrow> real \<Rightarrow> real" where
  "equation_ibm_sage_track_vector x_pos y_pos = sqrt (x_pos ^ 2 + y_pos ^ 2)"

definition equation_nsa_one_time_pad :: "int \<Rightarrow> int \<Rightarrow> int" where
  "equation_nsa_one_time_pad data_byte key_byte = data_byte XOR key_byte"

definition equation_data_center_heat_flux :: "real \<Rightarrow> real \<Rightarrow> real \<Rightarrow> real \<Rightarrow> real" where
  "equation_data_center_heat_flux mass_flow_air cp_air temp_out temp_in = mass_flow_air * cp_air * (temp_out - temp_in)"

definition equation_serial_baud_transmission_time :: "int \<Rightarrow> real \<Rightarrow> real" where
  "equation_serial_baud_transmission_time total_bits baud_rate =
     (if baud_rate > 0 then of_int total_bits / baud_rate else 999)"

definition equation_telecom_trunk_erlangs :: "real \<Rightarrow> real \<Rightarrow> real" where
  "equation_telecom_trunk_erlangs call_arrival_rate average_call_duration_sec =
     (call_arrival_rate * average_call_duration_sec) / 3600"

definition equation_weapons_interlock_voltage :: "real \<Rightarrow> real \<Rightarrow> real" where
  "equation_weapons_interlock_voltage source_voltage contact_resistance =
     source_voltage / max 0.01 contact_resistance"

definition equation_crossbar_switch_crosstalk :: "real \<Rightarrow> real \<Rightarrow> real" where
  "equation_crossbar_switch_crosstalk frequency_hz coupling_capacitance = 2 * pi * frequency_hz * coupling_capacitance"

section \<open>Nodes 91 to 100\<close>

definition equation_locks_salt_intrusion :: "real \<Rightarrow> real \<Rightarrow> real" where
  "equation_locks_salt_intrusion fresh_height_m salt_density =
     (let g = 9.81; rho_fresh = 1000 in g * fresh_height_m * (salt_density - rho_fresh))"

definition equation_bunker_wire_loss :: "real \<Rightarrow> real \<Rightarrow> real" where
  "equation_bunker_wire_loss distance_meters loss_per_meter_db = distance_meters * loss_per_meter_db"

definition equation_nevada_shock_velocity :: "real \<Rightarrow> real \<Rightarrow> real option" where
  "equation_nevada_shock_velocity yield_kilotons distance_meters =
     (if distance_meters \<le> 1 then Some 0
      else do { s \<leftarrow> py_sqrt yield_kilotons; d \<leftarrow> py_pow distance_meters 1.8; q \<leftarrow> py_div s d; Some (100 * q) })"

definition equation_satellite_dish_gain :: "real \<Rightarrow> real \<Rightarrow> real \<Rightarrow> real" where
  "equation_satellite_dish_gain diameter_meters wavelength_meters efficiency_eta =
     (if wavelength_meters \<le> 1 / 10 ^ 5 then 0
      else ((pi * diameter_meters / wavelength_meters) ^ 2) * efficiency_eta)"

definition equation_y2k_time_delta :: "int \<Rightarrow> int \<Rightarrow> int \<times> bool" where
  "equation_y2k_time_delta year_two_digit_start year_two_digit_end =
     (if year_two_digit_end < year_two_digit_start
      then ((100 + year_two_digit_end) - year_two_digit_start, True)
      else (year_two_digit_end - year_two_digit_start, False))"

definition equation_sand_point_inventory :: "real \<Rightarrow> real \<Rightarrow> real" where
  "equation_sand_point_inventory demand safety_stock = demand + safety_stock"

definition equation_beacon_hill_load_shed :: "real \<Rightarrow> real \<Rightarrow> real" where
  "equation_beacon_hill_load_shed total_load_kw capacity_kw = max 0 (total_load_kw - capacity_kw)"

definition equation_gemini_tracking_range :: "real \<Rightarrow> real" where
  "equation_gemini_tracking_range signal_time_ms = (299792.458 * signal_time_ms) / 2"

definition equation_port_crane_overload :: "real \<Rightarrow> real \<Rightarrow> bool" where
  "equation_port_crane_overload load_mass_kg safe_rating_kg \<longleftrightarrow> load_mass_kg > safe_rating_kg"

definition equation_base_securing_valve_power :: "real \<Rightarrow> real \<Rightarrow> real" where
  "equation_base_securing_valve_power actuator_pressure seal_surface_area = actuator_pressure * seal_surface_area"

section \<open>Nodes 101 to 110\<close>

definition equation_starfleet_warp_stability :: "real \<Rightarrow> real \<Rightarrow> real option" where
  "equation_starfleet_warp_stability warp_factor energy_input_cochranes =
     (if energy_input_cochranes \<le> 0.1 then Some 0
      else do { p \<leftarrow> py_pow warp_factor 3.333; Some (p / energy_input_cochranes) })"

definition equation_andromeda_time_dilation :: "real \<Rightarrow> real" where
  "equation_andromeda_time_dilation v_star_ms =
     (let c_speed = 299792458; val = 1 - v_star_ms ^ 2 / c_speed ^ 2 in 1 / sqrt (max 0.01 val))"

definition equation_lyra_interferometry_delay :: "real \<Rightarrow> real \<Rightarrow> real" where
  "equation_lyra_interferometry_delay baseline_m arrival_angle_rad =
     (let c_speed = 299792458 in (baseline_m * cos arrival_angle_rad) / c_speed)"

definition equation_sirius_accretion_flux :: "real \<Rightarrow> real \<Rightarrow> real \<Rightarrow> real" where
  "equation_sirius_accretion_flux mass_white_dwarf accretion_rate radius_m =
     (let g_constant = 6.67430 / 10 ^ 11 in
      if radius_m \<le> 10 then 0 else (g_constant * mass_white_dwarf * accretion_rate) / (2 * radius_m))"

definition equation_taurus_jeans_mass :: "real \<Rightarrow> real \<Rightarrow> real option" where
  "equation_taurus_jeans_mass sound_speed_ms cloud_density_kg_m3 =
     (let g_constant = 6.67430 / 10 ^ 11 in
      if cloud_density_kg_m3 \<le> 1 / 10 ^ 25 then Some 99999
      else do { s \<leftarrow> py_sqrt (g_constant ^ 3 * cloud_density_kg_m3); py_div (sound_speed_ms ^ 3) s })"

definition equation_medical_triage_index :: "int \<Rightarrow> real \<Rightarrow> real \<Rightarrow> real" where
  "equation_medical_triage_index gcs_score systolic_bp respiratory_rate =
     (let score = (0.2 * of_int gcs_score) + (0.01 * systolic_bp) - (0.05 * respiratory_rate)
      in 1 / (1 + exp (- score)))"

definition equation_air_quality_hepa_efficiency :: "real \<Rightarrow> real \<Rightarrow> real" where
  "equation_air_quality_hepa_efficiency upstream_count_pm25 downstream_count_pm25 =
     (if upstream_count_pm25 \<le> 0 then 100 else (1 - (downstream_count_pm25 / upstream_count_pm25)) * 100)"

definition equation_orion_darknet_nodes :: "int \<Rightarrow> real \<Rightarrow> real" where
  "equation_orion_darknet_nodes channels jitter = of_int channels * sin jitter"

definition equation_hospital_pathogen_spread :: "int \<Rightarrow> real \<Rightarrow> real" where
  "equation_hospital_pathogen_spread contagious_count rate = of_int contagious_count * rate"

definition equation_bunker_co2_scrubber :: "real \<Rightarrow> real \<Rightarrow> real" where
  "equation_bunker_co2_scrubber liters_co2 absorption_efficiency = liters_co2 * (1 - absorption_efficiency)"

section \<open>Nodes 116 to 127\<close>

definition equation_refrigeration_cop :: "real \<Rightarrow> real \<Rightarrow> real" where
  "equation_refrigeration_cop temp_evap_k temp_cond_k =
     (let temp_delta = temp_cond_k - temp_evap_k in
      if temp_delta \<le> 0.05 then 99.9 else temp_evap_k / temp_delta)"

definition equation_vent_fan_power :: "real \<Rightarrow> real \<Rightarrow> real \<Rightarrow> real" where
  "equation_vent_fan_power flow_rate_m3s pressure_delta_pa efficiency =
     (if efficiency \<le> 0.01 then flow_rate_m3s * pressure_delta_pa
      else (flow_rate_m3s * pressure_delta_pa) / efficiency)"

definition equation_septic_oxygen_transfer :: "real \<Rightarrow> real \<Rightarrow> real \<Rightarrow> real" where
  "equation_septic_oxygen_transfer kla_coef sat_concentration current_concentration =
     kla_coef * (sat_concentration - current_concentration)"

definition equation_ladder_sensor_voltage :: "real \<Rightarrow> real \<Rightarrow> real \<Rightarrow> real option" where
  "equation_ladder_sensor_voltage r_fixed coil_inductance_h frequency_hz =
     (let xl_reactance = 2 * pi * frequency_hz * coil_inductance_h in
      do { q \<leftarrow> py_div r_fixed (sqrt (r_fixed ^ 2 + xl_reactance ^ 2)); Some (12 * q) })"

definition equation_tbm_face_thrust :: "real \<Rightarrow> real \<Rightarrow> real" where
  "equation_tbm_face_thrust tunnel_radius_m ground_pressure_pa =
     (let area = pi * tunnel_radius_m ^ 2 in area * ground_pressure_pa)"

definition equation_infiltration_route_weight :: "real \<Rightarrow> real \<Rightarrow> real" where
  "equation_infiltration_route_weight base_risk proximity_to_guard_m =
     (if proximity_to_guard_m \<le> 1 then 100 else base_risk + (50 / proximity_to_guard_m ^ 2))"

definition equation_macmillan_ordnance_decay :: "real \<Rightarrow> real \<Rightarrow> real" where
  "equation_macmillan_ordnance_decay days_stored activation_constant = exp (- activation_constant * days_stored)"

definition equation_oxidation_corrosion_rate :: "real \<Rightarrow> real \<Rightarrow> int \<Rightarrow> real" where
  "equation_oxidation_corrosion_rate current_amps molar_mass valence =
     (let faraday_constant = 96485.33 in
      if valence \<le> 0 then 0 else (current_amps * molar_mass) / (of_int valence * faraday_constant))"

definition equation_scope_sine_voltage :: "real \<Rightarrow> real \<Rightarrow> real \<Rightarrow> real \<Rightarrow> real" where
  "equation_scope_sine_voltage amplitude_v frequency_hz time_sec phase_rad =
     amplitude_v * sin (2 * pi * frequency_hz * time_sec + phase_rad)"

definition equation_surveillance_luminance :: "int \<Rightarrow> int \<Rightarrow> int \<Rightarrow> real" where
  "equation_surveillance_luminance red green blue =
     0.299 * of_int red + 0.587 * of_int green + 0.114 * of_int blue"

definition equation_behavior_attention_level :: "real \<Rightarrow> int \<Rightarrow> real" where
  "equation_behavior_attention_level hours_on_watch targets_count =
     (let base = 1 / (1 + exp (0.4 * (hours_on_watch - 4)))
      in max 0.05 (base - 0.02 * of_int targets_count))"

text \<open>The \<open>while bits > 0\<close> loop of node 127, shifting the masked word to zero.\<close>

function parity_loop :: "int \<Rightarrow> int \<Rightarrow> int" where
  "parity_loop bits parity =
     (if bits > 0 then parity_loop (drop_bit 1 bits) (parity XOR (bits AND 1)) else parity)"
  by pat_completeness auto
termination by (relation "measure (\<lambda>(bits, parity). nat bits)") (auto simp: drop_bit_eq_div)

declare parity_loop.simps [simp del]

definition equation_crisp_parity_check :: "int \<Rightarrow> int \<Rightarrow> int" where
  "equation_crisp_parity_check data_word_30bit check_mask = parity_loop (data_word_30bit AND check_mask) 0"

section \<open>Nodes 128 to 140\<close>

definition equation_shower_mix_temp :: "real \<Rightarrow> real \<Rightarrow> real \<Rightarrow> real \<Rightarrow> real" where
  "equation_shower_mix_temp vol_hot temp_hot vol_cold temp_cold =
     (let total_vol = vol_hot + vol_cold in
      if total_vol \<le> 0.01 then temp_cold else ((vol_hot * temp_hot) + (vol_cold * temp_cold)) / total_vol)"

definition equation_scent_chromatography_peak :: "real \<Rightarrow> real \<Rightarrow> real \<Rightarrow> real" where
  "equation_scent_chromatography_peak amplitude retention_time current_time =
     (let variance = 2.5 in
      if variance \<le> 0.1 then 0 else amplitude * exp (- ((current_time - retention_time) ^ 2) / (2 * variance)))"

definition equation_compost_heat_generation :: "real \<Rightarrow> real \<Rightarrow> real" where
  "equation_compost_heat_generation moisture_fraction carbon_nitrogen_ratio =
     (if carbon_nitrogen_ratio \<le> 1 then 0
      else 45 * sin (pi * moisture_fraction) * (30 / carbon_nitrogen_ratio))"

definition equation_exercise_metabolic_vo2 :: "real \<Rightarrow> real \<Rightarrow> real" where
  "equation_exercise_metabolic_vo2 work_watts body_mass_kg =
     (if body_mass_kg \<le> 1 then 0 else ((10.8 * work_watts) / body_mass_kg) + 7)"

definition equation_pycnogonida_leg_displacement :: "real \<Rightarrow> real \<Rightarrow> real" where
  "equation_pycnogonida_leg_displacement base_angle_rad leg_length_m = leg_length_m * cos base_angle_rad"

definition equation_physics_collision_velocity :: "real \<Rightarrow> real \<Rightarrow> real \<Rightarrow> real \<Rightarrow> real" where
  "equation_physics_collision_velocity mass_a vel_a mass_b vel_b =
     (let total_mass = mass_a + mass_b in
      if total_mass \<le> 0.1 then 0 else ((mass_a * vel_a) + (mass_b * vel_b)) / total_mass)"

definition equation_planet_rotation_coriolis :: "real \<Rightarrow> real \<Rightarrow> real" where
  "equation_planet_rotation_coriolis velocity_ms latitude_deg =
     (let omega_earth = 7.292115 / 10 ^ 5 in 2 * omega_earth * velocity_ms * sin (radians latitude_deg))"

definition equation_egyptian_sled_friction :: "real \<Rightarrow> real \<Rightarrow> real option" where
  "equation_egyptian_sled_friction block_mass_kg lubricant_factor =
     (let normal_force = block_mass_kg * 9.81 in
      do { coefficient \<leftarrow> py_div 0.35 (1 + lubricant_factor); Some (normal_force * coefficient) })"

definition equation_sewer_gas_ppm :: "real \<Rightarrow> real \<Rightarrow> real" where
  "equation_sewer_gas_ppm source_generation_rate fan_airflow_m3s =
     (if fan_airflow_m3s \<le> 0.05 then source_generation_rate * 20 else source_generation_rate / fan_airflow_m3s)"

definition equation_drain_field_flux :: "real \<Rightarrow> real \<Rightarrow> real" where
  "equation_drain_field_flux head_height_m hydraulic_conductivity = hydraulic_conductivity * head_height_m"

definition equation_recalibration_trim :: "real \<Rightarrow> real \<Rightarrow> real \<Rightarrow> real" where
  "equation_recalibration_trim raw_voltage baseline_ref drift_slope = (raw_voltage - baseline_ref) - drift_slope"

definition equation_galley_ration_demand :: "int \<Rightarrow> real \<Rightarrow> real" where
  "equation_galley_ration_demand crew_count baseline_ounce_per_man = (of_int crew_count * baseline_ounce_per_man) / 16"

definition equation_hygiene_spray_flow :: "real \<Rightarrow> real \<Rightarrow> real option" where
  "equation_hygiene_spray_flow nozzle_area_m2 line_pressure_pa =
     (let rho_water = 1000; discharge_coefficient = 0.62 in
      do { s \<leftarrow> py_sqrt (2 * line_pressure_pa / rho_water);
           Some (discharge_coefficient * nozzle_area_m2 * s) })"

section \<open>Trunk lines\<close>

text \<open>Node 73: the Erlang B formula of the source against its recursion in the number of lines.\<close>

definition erlang_sum :: "real \<Rightarrow> nat \<Rightarrow> real" where
  "erlang_sum a n = sum_list (map (\<lambda>k. a ^ k / fact k) [0..<Suc n])"

definition erlang_b :: "real \<Rightarrow> nat \<Rightarrow> real" where
  "erlang_b a n = (a ^ n / fact n) / erlang_sum a n"

lemma erlang_sum_Suc: "erlang_sum a (Suc n) = erlang_sum a n + a ^ Suc n / fact (Suc n)"
  by (simp add: erlang_sum_def)

lemma erlang_sum_pos: "0 < a \<Longrightarrow> 0 < erlang_sum a n"
proof (induction n)
  case 0 then show ?case by (simp add: erlang_sum_def)
next
  case (Suc n) then show ?case unfolding erlang_sum_Suc by (intro add_pos_pos) (simp_all del: fact_Suc)
qed

lemma blocking_value: "0 < a \<Longrightarrow> equation_pentagon_comm_blocking a (int n) = Some (erlang_b a n)"
  using erlang_sum_pos [of a n]
  by (simp add: equation_pentagon_comm_blocking_def erlang_b_def erlang_sum_def nat_add_distrib)

lemma erlang_b_0: "erlang_b a 0 = 1"
  by (simp add: erlang_b_def erlang_sum_def)

lemma erlang_b_Suc:
  assumes "0 < a"
  shows "erlang_b a (Suc n) = a * erlang_b a n / (real (Suc n) + a * erlang_b a n)"
proof -
  define t where "t = a ^ n / fact n"
  have S: "0 < erlang_sum a n" using assms by (rule erlang_sum_pos)
  have t: "a ^ Suc n / fact (Suc n) = a * t / real (Suc n)" by (simp add: t_def)
  have "erlang_b a (Suc n) = (a * t / real (Suc n)) / (erlang_sum a n + a * t / real (Suc n))"
    by (simp only: erlang_b_def erlang_sum_Suc t)
  also have "\<dots> = a * t / (real (Suc n) * erlang_sum a n + a * t)"
    by (simp only: divide_divide_eq_left distrib_left times_divide_eq_right) simp
  also have "\<dots> = (a * (t / erlang_sum a n)) / (real (Suc n) + a * (t / erlang_sum a n))"
  proof -
    have e: "real (Suc n) + a * (t / S) = (real (Suc n) * S + a * t) / S" if "S \<noteq> 0" for S
      using that by (simp add: add_divide_distrib)
    show ?thesis using S by (simp only: e) simp
  qed
  finally show ?thesis by (simp only: erlang_b_def t_def)
qed

lemma erlang_b_range: "0 < a \<Longrightarrow> 0 < erlang_b a n \<and> erlang_b a n \<le> 1"
proof (induction n)
  case (Suc n)
  then have "0 < a * erlang_b a n" by simp
  then show ?case by (simp add: erlang_b_Suc Suc.prems)
qed (simp add: erlang_b_0)

lemma carried_load: "0 < a \<Longrightarrow> a * (1 - erlang_b a n) \<le> real n"
proof (induction n)
  case (Suc n)
  let ?d = "real (Suc n) + a * erlang_b a n"
  have d: "0 < ?d" using Suc.prems erlang_b_range [of a n] by (simp add: add_pos_pos)
  have "a * (1 - erlang_b a (Suc n)) = a * real (Suc n) / ?d"
    using d by (simp add: erlang_b_Suc Suc.prems field_simps)
  also have "\<dots> \<le> real (Suc n)"
  proof -
    have "a \<le> ?d" using Suc by (simp add: algebra_simps)
    then have "real (Suc n) * a \<le> real (Suc n) * ?d" by (intro mult_left_mono) simp_all
    then show ?thesis using d by (simp only: pos_divide_le_eq mult.commute [of a])
  qed
  finally show ?case .
qed (simp add: erlang_b_0)

text \<open>The blocking probability of node 73 for a positive load: with \<open>n\<close> lines the function returns
  a number in the unit interval, one more line follows the recursion
  \<open>B(n+1) = a B(n) / (n + 1 + a B(n))\<close> and never blocks more, and the carried load does not exceed the lines.\<close>

theorem more_lines_block_less:
  assumes "0 < a"
  shows "\<exists>b c. equation_pentagon_comm_blocking a (int n) = Some b
    \<and> equation_pentagon_comm_blocking a (int (Suc n)) = Some c
    \<and> 0 < c \<and> c \<le> b \<and> b \<le> 1
    \<and> c = a * b / (real (Suc n) + a * b) \<and> a * (1 - b) \<le> real n"
proof -
  let ?b = "erlang_b a n"
  have b: "0 < ?b" "?b \<le> 1" using erlang_b_range [OF assms] by simp_all
  have "a \<le> real (Suc n) + a * ?b" using carried_load [OF assms, of n] by (simp add: algebra_simps)
  then have "?b * a \<le> ?b * (real (Suc n) + a * ?b)" using b by (intro mult_left_mono) simp_all
  moreover have "0 < real (Suc n) + a * ?b" using assms b by (simp add: add_pos_pos)
  ultimately have "erlang_b a (Suc n) \<le> ?b"
    by (simp only: erlang_b_Suc [OF assms] pos_divide_le_eq) (simp only: mult_ac)
  with blocking_value [OF assms] erlang_b_range [OF assms] b carried_load [OF assms] erlang_b_Suc [OF assms]
  show ?thesis by blast
qed

theorem more_lines_block_less_witness:
  "\<exists>b c. equation_pentagon_comm_blocking 3 (int 4) = Some b
    \<and> equation_pentagon_comm_blocking 3 (int (Suc 4)) = Some c
    \<and> 0 < c \<and> c \<le> b \<and> b \<le> 1
    \<and> c = 3 * b / (real (Suc 4) + 3 * b) \<and> 3 * (1 - b) \<le> real 4"
  by (rule more_lines_block_less) simp

section \<open>Parity\<close>

text \<open>The reference of node 127: the number of ones of the word under the check mask.\<close>

definition covered_ones :: "int \<Rightarrow> int \<Rightarrow> nat" where
  "covered_ones w m = card {i. bit w i \<and> bit m i}"

lemma finite_bits: "0 \<le> (x::int) \<Longrightarrow> finite {i. bit x i}"
proof -
  assume x: "0 \<le> x"
  obtain n where "x < 2 ^ n" using of_nat_less_two_power [of "nat x", where 'a = int] x by (metis nat_0_le)
  then have "take_bit n x = x" using x by (simp add: take_bit_int_eq_self_iff)
  then have "{i. bit x i} \<subseteq> {..<n}" by (metis bit_take_bit_iff lessThan_iff mem_Collect_eq subsetI)
  then show ?thesis by (rule finite_subset) simp
qed

lemma ones_shift:
  assumes "0 \<le> (x::int)"
  shows "card {i. bit x i} = of_bool (odd x) + card {i. bit (drop_bit 1 x) i}"
proof -
  have split: "{i. bit x i} = (if odd x then {0} else {}) \<union> Suc ` {i. bit (drop_bit 1 x) i}"
    by (auto simp: bit_drop_bit_eq bit_0 image_iff) (metis bit_0 not0_implies_Suc)+
  have "finite {i. bit (drop_bit 1 x) i}" using assms by (intro finite_bits) simp
  then show ?thesis unfolding split by (auto simp: card_image card_insert_if)
qed

lemma parity_loop_counts:
  assumes "0 \<le> bits" and "p = 0 \<or> p = 1"
  shows "parity_loop bits p = (p + int (card {i. bit bits i})) mod 2"
  using assms
proof (induction bits p rule: parity_loop.induct)
  case (1 bits p)
  show ?case
  proof (cases "bits > 0")
    case True
    have one: "bits AND 1 = of_bool (odd bits)" by (simp add: and_one_eq mod_2_eq_odd)
    have xor: "p XOR of_bool b = (p + of_bool b) mod 2" for b using 1(3) by (cases b) (auto simp del: parity_loop.simps)
    have "parity_loop bits p = parity_loop (drop_bit 1 bits) ((p + of_bool (odd bits)) mod 2)"
      using True by (simp only: parity_loop.simps [of bits p] if_True one xor)
    also have "\<dots> = ((p + of_bool (odd bits)) mod 2 + int (card {i. bit (drop_bit 1 bits) i})) mod 2"
      by (rule 1(1) [OF True, unfolded one xor]) (use True in simp, presburger)
    also have "\<dots> = (p + int (card {i. bit bits i})) mod 2"
      using True by (subst ones_shift [of bits]) (simp_all only: of_nat_add of_nat_of_bool mod_add_left_eq add.assoc less_imp_le)
    finally show ?thesis .
  next
    case False
    then have "bits = 0" using 1(2) by simp
    then show ?thesis using 1(3) by (auto simp: parity_loop.simps)
  qed
qed

lemma crisp_parity:
  assumes "0 \<le> w \<or> 0 \<le> m"
  shows "equation_crisp_parity_check w m = int (covered_ones w m) mod 2"
  using assms parity_loop_counts [of "w AND m" 0]
  by (simp add: equation_crisp_parity_check_def covered_ones_def bit_and_iff)

text \<open>Rounds of the loop.\<close>

definition parity_round :: "int \<times> int \<Rightarrow> int \<times> int" where
  "parity_round s = (case s of (bits, parity) \<Rightarrow> (drop_bit 1 bits, parity XOR (bits AND 1)))"

lemma parity_rounds_end:
  assumes "0 \<le> bits" and "bits < 2 ^ n"
  shows "(parity_round ^^ n) (bits, p) = (0, parity_loop bits p)"
  using assms
proof (induction n arbitrary: bits p)
  case (Suc n)
  show ?case
  proof (cases "bits = 0")
    case False
    with Suc.prems have "parity_loop bits p = parity_loop (drop_bit 1 bits) (p XOR (bits AND 1))"
      by (subst parity_loop.simps) simp
    with Suc show ?thesis
      by (simp only: funpow_Suc_right o_apply parity_round_def prod.case) (simp add: drop_bit_eq_div)
  next
    case True
    have "(parity_round ^^ n) (0, p) = (0, p)" by (induction n) (simp_all add: parity_round_def)
    then show ?thesis unfolding True funpow_Suc_right o_apply by (simp add: parity_round_def parity_loop.simps)
  qed
qed (simp add: parity_loop.simps)

lemma parity_flips:
  assumes "0 \<le> w" and "0 \<le> m"
  shows "equation_crisp_parity_check (flip_bit i w) m
    = (if bit m i then 1 - equation_crisp_parity_check w m else equation_crisp_parity_check w m)"
proof -
  have fin: "finite {j. bit w j \<and> bit m j}" using finite_bits [OF assms(2)] by (rule rev_finite_subset) auto
  let ?A = "{j. bit w j \<and> bit m j}"
  have flip: "{j. bit (flip_bit i w) j \<and> bit m j} = (if bit m i then if i \<in> ?A then ?A - {i} else insert i ?A else ?A)"
    by (auto simp: bit_flip_bit_iff)
  have "covered_ones (flip_bit i w) m
    = (if bit m i then if i \<in> ?A then covered_ones w m - 1 else covered_ones w m + 1 else covered_ones w m)"
    unfolding covered_ones_def flip using fin by simp
  moreover have "i \<in> ?A \<Longrightarrow> 1 \<le> covered_ones w m"
    unfolding covered_ones_def using fin by (metis One_nat_def Suc_leI card_gt_0_iff empty_iff)
  ultimately have "int (covered_ones (flip_bit i w) m) mod 2
    = (if bit m i then 1 - int (covered_ones w m) mod 2 else int (covered_ones w m) mod 2)"
    by (auto simp: of_nat_diff) presburger+
  with assms show ?thesis by (simp add: crisp_parity)
qed

text \<open>The parity loop of node 127 terminates with the right answer: for a check mask of \<open>n\<close> bits and any
  word, \<open>n\<close> rounds of the loop body shift the masked word to zero, and the parity register then holds
  the number of covered one bits modulo 2.\<close>

theorem parity_loop_terminates:
  assumes "0 \<le> m" and "m < 2 ^ n"
  shows "(parity_round ^^ n) (w AND m, 0) = (0, equation_crisp_parity_check w m)
    \<and> equation_crisp_parity_check w m = int (covered_ones w m) mod 2"
proof -
  have "0 \<le> w AND m" using assms(1) by simp
  moreover have "w AND m < 2 ^ n" using AND_upper2 [OF assms(1), of w] assms(2) by (rule le_less_trans)
  ultimately show ?thesis
    using parity_rounds_end [of "w AND m" n 0] crisp_parity [of w m] assms(1)
    by (simp add: equation_crisp_parity_check_def)
qed

theorem parity_loop_terminates_witness:
  "(parity_round ^^ 30) (0x155 AND 0x3FFFFFFF, 0) = (0, equation_crisp_parity_check 0x155 0x3FFFFFFF)
    \<and> equation_crisp_parity_check 0x155 0x3FFFFFFF = int (covered_ones 0x155 0x3FFFFFFF) mod 2"
  by (rule parity_loop_terminates) simp_all

section \<open>What the formulas compute\<close>

lemma int_xor_byte: "0 \<le> (x::int) \<Longrightarrow> x < 256 \<Longrightarrow> 0 \<le> k \<Longrightarrow> k < 256 \<Longrightarrow> x XOR k < 256"
  using XOR_upper [of x 8 k] by simp

text \<open>The two one-time pad functions of nodes 74 and 89 invert each other under the same key, give the key
  back from a text and its cipher, keep bytes bytes, and two ciphers under one key reveal the difference of the texts.\<close>

theorem pad_roundtrip:
  "equation_nsa_one_time_pad (equation_white_house_crypto_xor c key) key = c
   \<and> equation_white_house_crypto_xor c (equation_nsa_one_time_pad c d) = d
   \<and> equation_nsa_one_time_pad (equation_white_house_crypto_xor c key) (equation_white_house_crypto_xor d key)
      = equation_white_house_crypto_xor c d
   \<and> (c \<in> {0..<256} \<and> key \<in> {0..<256} \<longrightarrow> equation_white_house_crypto_xor c key \<in> {0..<256})"
  using int_xor_byte [of c key]
  by (auto simp: equation_nsa_one_time_pad_def equation_white_house_crypto_xor_def ac_simps)

theorem pad_roundtrip_witness:
  "equation_white_house_crypto_xor 65 42 \<in> {0..<256}"
  using pad_roundtrip [of 65 42 0] by simp

text \<open>Node 99 computes the elapsed years of any two dates less than a century apart from their last two
  digits, and its fault flag is raised exactly when the dates lie in different centuries.\<close>

theorem y2k_elapsed_years:
  assumes "y1 \<le> y2" and "y2 < y1 + 100"
  shows "equation_y2k_time_delta (y1 mod 100) (y2 mod 100) = (y2 - y1, y2 div 100 \<noteq> y1 div 100)"
proof -
  have split: "\<exists>q r. y = 100 * q + r \<and> 0 \<le> r \<and> r < 100" for y :: int
    by (rule exI [of _ "y div 100"], rule exI [of _ "y mod 100"]) simp
  obtain q1 r1 where 1: "y1 = 100 * q1 + r1" "0 \<le> r1" "r1 < 100" using split by blast
  obtain q2 r2 where 2: "y2 = 100 * q2 + r2" "0 \<le> r2" "r2 < 100" using split by blast
  have m: "y1 mod 100 = r1" "y2 mod 100 = r2" "y1 div 100 = q1" "y2 div 100 = q2"
    using 1 2 by simp_all
  have "q2 = (if r2 < r1 then q1 + 1 else q1)" using assms 1 2 by auto
  then show ?thesis by (simp add: equation_y2k_time_delta_def m) (simp add: 1 2)
qed

theorem y2k_elapsed_years_witness:
  "equation_y2k_time_delta (1999 mod 100) (2004 mod 100) = (2004 - 1999, (2004::int) div 100 \<noteq> 1999 div 100)"
  by (rule y2k_elapsed_years) simp_all

text \<open>Nodes 107 and 126 are logistic.\<close>

lemma logistic_range: "0 < 1 / (1 + exp (- x)) \<and> 1 / (1 + exp (- x)) < (1::real)"
  by (simp add: add_pos_pos)

lemma logistic_mono: "x \<le> y \<Longrightarrow> 1 / (1 + exp (- x)) \<le> 1 / (1 + exp (- y :: real))"
  by (intro frac_le) (simp_all add: add_pos_pos)

lemma triage_index:
  shows "0 < equation_medical_triage_index g bp rr \<and> equation_medical_triage_index g bp rr < 1"
    and "g \<le> g' \<Longrightarrow> bp \<le> bp' \<Longrightarrow> rr' \<le> rr \<Longrightarrow>
      equation_medical_triage_index g bp rr \<le> equation_medical_triage_index g' bp' rr'"
  unfolding equation_medical_triage_index_def Let_def
  by (rule logistic_range, rule logistic_mono) simp

lemma attention_level:
  shows "0.05 \<le> equation_behavior_attention_level h n"
    and "0 \<le> n \<Longrightarrow> equation_behavior_attention_level h n < 1"
    and "h \<le> h' \<Longrightarrow> n \<le> n' \<Longrightarrow>
      equation_behavior_attention_level h' n' \<le> equation_behavior_attention_level h n"
proof -
  show "0.05 \<le> equation_behavior_attention_level h n" by (simp add: equation_behavior_attention_level_def)
  have e: "1 / (1 + exp (0.4 * (x - 4))) = 1 / (1 + exp (- (0.4 * (4 - x))))" for x :: real
    by (simp add: field_simps)
  show "0 \<le> n \<Longrightarrow> equation_behavior_attention_level h n < 1"
    using logistic_range [of "0.4 * (4 - h)"] unfolding equation_behavior_attention_level_def Let_def e by auto
  assume "h \<le> h'" and "n \<le> n'"
  moreover from this have "1 / (1 + exp (- (0.4 * (4 - h')))) \<le> 1 / (1 + exp (- (0.4 * (4 - h))))"
    by (intro logistic_mono) simp
  ultimately show "equation_behavior_attention_level h' n' \<le> equation_behavior_attention_level h n"
    unfolding equation_behavior_attention_level_def Let_def e by (intro max.mono order_refl) simp
qed

text \<open>Nodes 128 and 133 are the same weighted mean: a mixture lies between its parts, a collision keeps the momentum.\<close>

lemma weighted_mean:
  fixes a b x y :: real
  assumes "0 \<le> a" and "0 \<le> b" and "0 < a + b"
  shows "min x y \<le> (a * x + b * y) / (a + b) \<and> (a * x + b * y) / (a + b) \<le> max x y"
proof -
  have "a * min x y + b * min x y \<le> a * x + b * y" "a * x + b * y \<le> a * max x y + b * max x y"
    using assms by (intro add_mono mult_left_mono; simp)+
  then have "min x y * (a + b) \<le> a * x + b * y" "a * x + b * y \<le> max x y * (a + b)"
    by (simp_all add: algebra_simps)
  then show ?thesis using assms(3) by (simp only: pos_le_divide_eq pos_divide_le_eq simp_thms)
qed

lemma mixing_and_collision:
  assumes "0 \<le> a" and "0 \<le> b" and "0.1 < a + b"
  shows "min x y \<le> equation_shower_mix_temp a x b y \<and> equation_shower_mix_temp a x b y \<le> max x y"
    and "equation_physics_collision_velocity a x b y = equation_shower_mix_temp a x b y"
    and "(a + b) * equation_physics_collision_velocity a x b y = a * x + b * y"
proof -
  have p: "equation_shower_mix_temp a x b y = (a * x + b * y) / (a + b)"
    "equation_physics_collision_velocity a x b y = (a * x + b * y) / (a + b)"
    using assms by (simp_all add: equation_shower_mix_temp_def equation_physics_collision_velocity_def)
  show "min x y \<le> equation_shower_mix_temp a x b y \<and> equation_shower_mix_temp a x b y \<le> max x y"
    unfolding p using assms by (intro weighted_mean) simp_all
  show "equation_physics_collision_velocity a x b y = equation_shower_mix_temp a x b y" unfolding p ..
  show "(a + b) * equation_physics_collision_velocity a x b y = a * x + b * y" unfolding p using assms by simp
qed

text \<open>Node 77 treats a plate seen broadside as \<open>sin 0\<close> where the limit of \<open>sin x / x\<close> is one: the brightest
  aspect has no echo at all, while every tilt in between has one.\<close>

lemma plate_broadside_vanishes:
  assumes "1 / 10 ^ 5 < wavelength" and "area \<noteq> 0" and "1 / 10 ^ 5 \<le> tilt" and "tilt < pi"
  shows "equation_lockheed_plate_scattering area 0 wavelength = 0"
    and "0 < equation_lockheed_plate_scattering area tilt wavelength"
proof -
  show "equation_lockheed_plate_scattering area 0 wavelength = 0"
    by (simp add: equation_lockheed_plate_scattering_def)
  have t: "0 < tilt" using assms(3) by (rule less_le_trans [rotated]) simp
  have w: "0 < wavelength" using assms(1) by (rule less_trans [rotated]) simp
  have st: "0 < sin tilt / tilt" using t assms(4) by (simp add: sin_gt_zero)
  have "0 < 4 * pi * area\<^sup>2 / wavelength\<^sup>2 * (sin tilt / tilt)\<^sup>2"
    by (intro mult_pos_pos divide_pos_pos zero_less_power [OF st] zero_less_power [OF w] zero_less_power2 [THEN iffD2])
       (simp_all add: assms(2))
  moreover have "\<not> wavelength \<le> 1 / 10 ^ 5" "\<not> \<bar>tilt\<bar> < 1 / 10 ^ 5"
    using assms(1,3) t by (simp_all only: not_le not_less abs_of_pos)
  ultimately show "0 < equation_lockheed_plate_scattering area tilt wavelength"
    by (simp only: equation_lockheed_plate_scattering_def Let_def if_False)
qed

text \<open>Nodes 90, 82, 125, 109 and 72.\<close>

lemma zenith_angle:
  assumes "1 / 10 ^ 5 < 2 * pi * baseline"
  shows "\<exists>z. equation_navspasur_zenith_angle wavelength delta baseline = Some z \<and> 0 \<le> z \<and> z \<le> pi
    \<and> (\<bar>wavelength * delta\<bar> \<le> 2 * pi * baseline \<longrightarrow> 2 * pi * baseline * cos z = wavelength * delta)"
proof -
  let ?d = "2 * pi * baseline" and ?v = "clamp (- 1) 1 (wavelength * delta / (2 * pi * baseline))"
  have d: "0 < ?d" using assms by (rule less_trans [rotated]) simp
  have v: "- 1 \<le> ?v" "?v \<le> 1" by simp_all
  have "equation_navspasur_zenith_angle wavelength delta baseline = Some (arccos ?v)"
    using assms by (simp only: equation_navspasur_zenith_angle_def Let_def not_le [symmetric] if_False py_acos_clamped)
  moreover have "?d * cos (arccos ?v) = wavelength * delta" if "\<bar>wavelength * delta\<bar> \<le> ?d"
  proof -
    have "- 1 \<le> wavelength * delta / ?d" "wavelength * delta / ?d \<le> 1"
      using that d by (simp_all only: pos_le_divide_eq pos_divide_le_eq abs_le_iff) linarith+
    then show ?thesis using v d by (simp add: cos_arccos del: mult_eq_0_iff)
  qed
  ultimately show ?thesis using arccos_lbound [OF v] arccos_ubound [OF v] by blast
qed

lemma cdma_gain_inverse:
  assumes "0.1 < rate" and "0 < chip"
  shows "\<exists>g. equation_qualcomm_cdma_gain chip rate = Some g \<and> rate * 10 powr (g / 10) = chip"
  using assms by (simp add: equation_qualcomm_cdma_gain_def)

lemma luminance_range:
  assumes "r \<in> {0..255}" and "g \<in> {0..255}" and "b \<in> {0..255}"
  shows "0 \<le> equation_surveillance_luminance r g b \<and> equation_surveillance_luminance r g b \<le> 255"
proof -
  have "real_of_int x \<le> 255 \<and> 0 \<le> real_of_int x" if "x \<in> {0..255}" for x using that by simp
  from this [OF assms(1)] this [OF assms(2)] this [OF assms(3)] show ?thesis
    unfolding equation_surveillance_luminance_def by simp
qed

lemma hepa_percentage:
  assumes "0 \<le> down" and "down \<le> up"
  shows "0 \<le> equation_air_quality_hepa_efficiency up down \<and> equation_air_quality_hepa_efficiency up down \<le> 100"
  using assms by (auto simp: equation_air_quality_hepa_efficiency_def pos_divide_le_eq not_le)

lemma boyle:
  assumes "0.1 < p2"
  shows "p2 * equation_gasworks_steam_expansion p1 v1 p2 = p1 * v1"
  using assms by (simp add: equation_gasworks_steam_expansion_def)

section \<open>When the formulas raise\<close>

lemma injector_raises: "equation_delphi_injector_velocity p rho = None \<longleftrightarrow> 0 < rho \<and> p < 0"
  by (simp add: equation_delphi_injector_velocity_def divide_less_0_iff not_le)

lemma zenith_returns: "equation_navspasur_zenith_angle wl delta baseline \<noteq> None"
  by (simp add: equation_navspasur_zenith_angle_def Let_def)

lemma shock_raises: "equation_nevada_shock_velocity y r_m = None \<longleftrightarrow> 1 < r_m \<and> y < 0"
  by (auto simp: equation_nevada_shock_velocity_def bind_eq_None_conv not_le)

lemma jeans_returns: "equation_taurus_jeans_mass c rho \<noteq> None"
proof (cases "rho \<le> 1 / 10 ^ 25")
  case False
  define g where "g = (6.67430 / 10 ^ 11 :: real)"
  have "0 < rho" using False by (rule_tac less_trans [of 0 "1 / 10 ^ 25"]) (simp, simp only: not_le)
  moreover have "0 < g" by (simp add: g_def)
  ultimately show ?thesis
    using False unfolding equation_taurus_jeans_mass_def Let_def g_def [symmetric] by (simp add: bind_eq_None_conv)
qed (simp add: equation_taurus_jeans_mass_def)

lemma ladder_raises: "equation_ladder_sensor_voltage rf l f = None \<longleftrightarrow> rf = 0 \<and> (f = 0 \<or> l = 0)"
  by (auto simp: equation_ladder_sensor_voltage_def bind_eq_None_conv Let_def sum_power2_eq_zero_iff)

lemma spray_raises: "equation_hygiene_spray_flow nozzle p = None \<longleftrightarrow> p < 0"
  by (simp add: equation_hygiene_spray_flow_def bind_eq_None_conv Let_def)

lemmas systems_raises =
  injector_raises zenith_returns shock_raises jeans_returns ladder_raises spray_raises

lemma systems_formulas_raise:
  "(equation_aegis_phase_steer d beam wl = None \<longleftrightarrow> wl = 0)
   \<and> (equation_delphi_injector_velocity p rho = None \<longleftrightarrow> 0 < rho \<and> p < 0)
   \<and> (equation_chevrolet_axle_stress torque r axles = None \<longleftrightarrow> 0 < axles \<and> r = 0)
   \<and> (equation_airlift_flight_range ld sfc w_i w_f = None \<longleftrightarrow> 0.1 < w_f \<and> 0 < sfc \<and> w_i \<le> 0)
   \<and> (equation_qualcomm_cdma_gain chip rate = None \<longleftrightarrow> 0.1 < rate \<and> chip \<le> 0)
   \<and> (equation_navspasur_zenith_angle wl delta baseline \<noteq> None)
   \<and> (equation_nevada_shock_velocity y r_m = None \<longleftrightarrow> 1 < r_m \<and> y < 0)
   \<and> (equation_taurus_jeans_mass c rho \<noteq> None)
   \<and> (equation_egyptian_sled_friction m lub = None \<longleftrightarrow> lub = - 1)
   \<and> (equation_ladder_sensor_voltage rf l f = None \<longleftrightarrow> rf = 0 \<and> (f = 0 \<or> l = 0))
   \<and> (equation_hygiene_spray_flow nozzle p = None \<longleftrightarrow> p < 0)"
  by (auto simp: systems_raises equation_aegis_phase_steer_def equation_chevrolet_axle_stress_def
      equation_airlift_flight_range_def equation_qualcomm_cdma_gain_def equation_egyptian_sled_friction_def
      bind_eq_None_conv not_le divide_le_0_iff)

end
