(* ===== verification/Museum_Final.thy ===== *)
theory Museum_Final
  imports Museum_Systems Audit_Ledger
begin

text \<open>
  Nodes 158 to 313 of the museum catalogue \<open>config/museum_history_matrix.py\<close>: transport, finance, diagnostics,
  supercomputing and robotics exhibits, and the row signature of node 274, which the ledgers of
  \<open>Audit_Ledger\<close> compute on their own.
\<close>

section \<open>Nodes 158 to 200\<close>

definition equation_crane_tipping_threshold :: "real \<Rightarrow> real \<Rightarrow> real \<Rightarrow> real \<Rightarrow> real" where
  "equation_crane_tipping_threshold base_weight_n track_width_m counterweight_n cw_arm_m =
     (base_weight_n * (track_width_m / 2)) + (counterweight_n * cw_arm_m)"

definition equation_mountain_wind_shear :: "real \<Rightarrow> real \<Rightarrow> real \<Rightarrow> real option" where
  "equation_mountain_wind_shear velocity_baseline altitude_m roughness_length =
     (if roughness_length \<le> 0 \<or> altitude_m \<le> roughness_length then Some velocity_baseline
      else do { a \<leftarrow> py_log (altitude_m / roughness_length); b \<leftarrow> py_log (10 / roughness_length);
                q \<leftarrow> py_div a b; Some (velocity_baseline * q) })"

definition equation_apache_target_lead :: "real \<Rightarrow> real \<Rightarrow> real \<Rightarrow> real" where
  "equation_apache_target_lead range_to_tgt_m tgt_cross_velocity_ms muzzle_velocity_ms =
     (let time_of_flight = range_to_tgt_m / max 1 muzzle_velocity_ms;
          lead_distance = tgt_cross_velocity_ms * time_of_flight
      in py_atan2 lead_distance range_to_tgt_m)"

definition equation_saiya_capacitor_energy :: "real \<Rightarrow> real \<Rightarrow> real" where
  "equation_saiya_capacitor_energy capacitance_farads charging_voltage = 0.5 * capacitance_farads * charging_voltage ^ 2"

definition equation_pinion_gear_stress :: "real \<Rightarrow> real \<Rightarrow> real \<Rightarrow> real \<Rightarrow> real" where
  "equation_pinion_gear_stress tangential_force_n diametral_pitch face_width_m form_factor_y =
     (let denom = face_width_m * form_factor_y * (1 / max 1 diametral_pitch)
      in if denom \<le> 0.001 then tangential_force_n else tangential_force_n / denom)"

definition equation_radiation_transport_attenuation :: "real \<Rightarrow> real \<Rightarrow> real \<Rightarrow> real" where
  "equation_radiation_transport_attenuation initial_intensity shielding_thickness_m linear_atten_coef =
     (if initial_intensity \<le> 0 \<or> shielding_thickness_m \<le> 0 then initial_intensity
      else initial_intensity * exp (- linear_atten_coef * shielding_thickness_m))"

section \<open>Nodes 231 to 250\<close>

definition equation_mortgage_amortization :: "real \<Rightarrow> real \<Rightarrow> int \<Rightarrow> real option" where
  "equation_mortgage_amortization loan_principal annual_rate total_months =
     (let monthly_rate = annual_rate / 12 in
      if monthly_rate \<le> 0 then Some (loan_principal / of_int (max 1 total_months))
      else do { growth \<leftarrow> py_ipow (1 + monthly_rate) total_months;
                let denom = growth - 1;
                if denom \<le> 0.001 then Some loan_principal
                else Some (loan_principal * (monthly_rate * growth) / denom) })"

definition equation_actuarial_life_expectancy :: "real \<Rightarrow> real \<Rightarrow> real \<Rightarrow> real" where
  "equation_actuarial_life_expectancy current_age baseline_hazard_a age_slope_b =
     (let aging_coefficient_c = 0.085 in baseline_hazard_a + age_slope_b * exp (aging_coefficient_c * current_age))"

definition equation_time_series_forecast_trend :: "real \<Rightarrow> real \<Rightarrow> real \<Rightarrow> real \<Rightarrow> real \<Rightarrow> real" where
  "equation_time_series_forecast_trend alpha beta current_val prev_level prev_trend =
     (let current_level = alpha * current_val + (1 - alpha) * (prev_level + prev_trend)
      in beta * (current_level - prev_level) + (1 - beta) * prev_trend)"

definition equation_tactical_risk_index :: "real \<Rightarrow> real \<Rightarrow> real \<Rightarrow> real" where
  "equation_tactical_risk_index range_m closing_speed_ms jamming_intensity_db =
     (let time_to_impact = range_m / max 0.1 closing_speed_ms in
      if time_to_impact \<le> 0.01 then 100
      else let raw_score = (50 / time_to_impact) + (1.5 * jamming_intensity_db)
           in 1 / (1 + exp (- 0.05 * raw_score)))"

definition equation_astral_particle_energy :: "real \<Rightarrow> real \<Rightarrow> real option" where
  "equation_astral_particle_energy rest_mass_kg velocity_ms =
     (let c_speed = 299792458 in
      if velocity_ms \<ge> c_speed then Some (rest_mass_kg * c_speed ^ 2)
      else do { s \<leftarrow> py_sqrt (1 - velocity_ms ^ 2 / c_speed ^ 2); gamma \<leftarrow> py_div 1 s;
                Some (gamma * rest_mass_kg * c_speed ^ 2) })"

definition equation_hydrofoil_air_ingress_lift :: "real \<Rightarrow> real \<Rightarrow> real \<Rightarrow> real" where
  "equation_hydrofoil_air_ingress_lift base_lift_n submerged_depth_m strut_length_m =
     (if strut_length_m \<le> 0.01 then 0
      else let submergence_ratio = clamp 0 1 (submerged_depth_m / strut_length_m)
           in base_lift_n * submergence_ratio ^ 2)"

definition equation_cable_tension_stretch :: "real \<Rightarrow> real \<Rightarrow> real \<Rightarrow> real \<Rightarrow> real" where
  "equation_cable_tension_stretch tension_newtons length_m area_m2 modulus_pa =
     (let denom = area_m2 * modulus_pa in
      if denom \<le> 0.1 then length_m * 0.05 else (tension_newtons * length_m) / denom)"

definition equation_bracket_bolt_stress :: "real \<Rightarrow> real \<Rightarrow> real \<Rightarrow> real" where
  "equation_bracket_bolt_stress applied_force_n torque_nm thread_diameter_m =
     (let preload_force = torque_nm / (0.2 * max 0.001 thread_diameter_m);
          total_tensile_force = applied_force_n + preload_force;
          bolt_area = pi * (thread_diameter_m / 2) ^ 2
      in total_tensile_force / max (1 / 10 ^ 6) bolt_area)"

section \<open>Diagnostics\<close>

definition equation_detective_pattern_correlation :: "real list \<Rightarrow> real list \<Rightarrow> real" where
  "equation_detective_pattern_correlation vector_a vector_b =
     (if length vector_a \<noteq> length vector_b \<or> length vector_a = 0 then 0
      else let dot_product = sum_list (map2 (*) vector_a vector_b);
               norm_a = sqrt (sum_list (map (\<lambda>p. p ^ 2) vector_a));
               norm_b = sqrt (sum_list (map (\<lambda>q. q ^ 2) vector_b));
               denom = norm_a * norm_b
           in if denom \<le> 0.001 then 0 else dot_product / denom)"

definition equation_body_vibration_resonance :: "real \<Rightarrow> real \<Rightarrow> real" where
  "equation_body_vibration_resonance stiffness_n_m structural_mass_kg =
     (if structural_mass_kg \<le> 0.1 \<or> stiffness_n_m \<le> 0 then 0
      else (1 / (2 * pi)) * sqrt (stiffness_n_m / structural_mass_kg))"

definition equation_adaptive_frequency_cancellation :: "real \<Rightarrow> real \<Rightarrow> real \<Rightarrow> real \<Rightarrow> real" where
  "equation_adaptive_frequency_cancellation amplitude_m phase_rad frequency_hz elapsed_time =
     (let cancellation_phase = phase_rad + pi
      in amplitude_m * sin (2 * pi * frequency_hz * elapsed_time + cancellation_phase))"

section \<open>Nodes 256 to 287\<close>

definition equation_cray_hull_friction :: "real \<Rightarrow> real option" where
  "equation_cray_hull_friction reynolds_number =
     (if reynolds_number \<le> 10 then Some 0
      else do { l \<leftarrow> py_log10 reynolds_number; p \<leftarrow> py_pow l 2.58; py_div 0.455 p })"

definition equation_nvidia_tensor_accumulate :: "real \<Rightarrow> real \<Rightarrow> real \<Rightarrow> real" where
  "equation_nvidia_tensor_accumulate matrix_a_val matrix_b_val bias_val = (matrix_a_val * matrix_b_val) + bias_val"

definition equation_blimp_buoyant_lift :: "real \<Rightarrow> real \<Rightarrow> real \<Rightarrow> real" where
  "equation_blimp_buoyant_lift envelope_volume_m3 density_air density_gas =
     (if density_air \<le> density_gas then 0
      else let g_accel = 9.81 in envelope_volume_m3 * (density_air - density_gas) * g_accel)"

text \<open>Node 274; \<open>hashlib.sha256(...).hexdigest()\<close> is a parameter.\<close>

definition equation_anti_corruption_hash_verify :: "(string \<Rightarrow> string) \<Rightarrow> string \<Rightarrow> string \<Rightarrow> string" where
  "equation_anti_corruption_hash_verify sha256 data_payload_string previous_hash =
     sha256 (data_payload_string @ '','' @ previous_hash)"

definition equation_decon_nozzle_velocity :: "real \<Rightarrow> real \<Rightarrow> real" where
  "equation_decon_nozzle_velocity line_pressure_pascal fluid_density_kg_m3 =
     (let discharge_coefficient = 0.62 in
      if line_pressure_pascal \<le> 0 \<or> fluid_density_kg_m3 \<le> 0.1 then 0
      else discharge_coefficient * sqrt ((2 * line_pressure_pascal) / fluid_density_kg_m3))"

definition equation_tow_tug_tractive_limit :: "real \<Rightarrow> real \<Rightarrow> real" where
  "equation_tow_tug_tractive_limit tractor_weight_newtons friction_coefficient_mu =
     max 0 (tractor_weight_newtons * friction_coefficient_mu)"

definition equation_plc_scan_time :: "int \<Rightarrow> int \<Rightarrow> real \<Rightarrow> real" where
  "equation_plc_scan_time number_of_logic_rungs instructions_per_rung processor_speed_mhz =
     (let total_instructions = number_of_logic_rungs * instructions_per_rung in
      if processor_speed_mhz \<le> 0.001 then 999
      else (of_int total_instructions / (processor_speed_mhz * 1000000)) * 1000)"

definition equation_fighter_intercept_time :: "real \<Rightarrow> real \<Rightarrow> real \<Rightarrow> real" where
  "equation_fighter_intercept_time range_meters target_speed_ms missile_speed_ms =
     (let closure_rate = missile_speed_ms + target_speed_ms in
      if closure_rate \<le> 0.1 then 999 else range_meters / closure_rate)"

section \<open>Nodes 291 to 313\<close>

definition equation_robot_arm_extension :: "real \<Rightarrow> real \<Rightarrow> real \<Rightarrow> real \<Rightarrow> real" where
  "equation_robot_arm_extension shoulder_angle_rad elbow_angle_rad link_1_m link_2_m =
     (let x_pos = (link_1_m * cos shoulder_angle_rad) + (link_2_m * cos (shoulder_angle_rad + elbow_angle_rad))
      in x_pos)"

definition equation_titanium_hull_collapse :: "real \<Rightarrow> real \<Rightarrow> real \<Rightarrow> real option" where
  "equation_titanium_hull_collapse yield_strength_pa outer_radius_m inner_radius_m =
     (if outer_radius_m \<le> inner_radius_m then Some 0
      else do { q \<leftarrow> py_div inner_radius_m outer_radius_m;
                let radius_ratio_squared = q ^ 2;
                Some ((yield_strength_pa / sqrt 3) * (1 - radius_ratio_squared)) })"

definition equation_map_mercator_projection :: "real \<Rightarrow> int \<Rightarrow> real option" where
  "equation_map_mercator_projection latitude_deg map_height_pixels =
     (let lat_rad = radians (clamp (- 85) 85 latitude_deg) in
      do { l \<leftarrow> py_log (tan (pi / 4 + lat_rad / 2)); Some ((of_int map_height_pixels / (2 * pi)) * l) })"

definition equation_ocean_harmonic_tide :: "real \<Rightarrow> real \<Rightarrow> real \<Rightarrow> real" where
  "equation_ocean_harmonic_tide time_hours amp_m2 amp_s2 =
     (let freq_m2 = 2 * pi / 12.42; freq_s2 = 2 * pi / 12
      in (amp_m2 * cos (freq_m2 * time_hours)) + (amp_s2 * cos (freq_s2 * time_hours)))"

definition equation_lake_seiche_period :: "real \<Rightarrow> real \<Rightarrow> real" where
  "equation_lake_seiche_period basin_length_meters average_depth_meters =
     (let g_accel = 9.81 in
      if average_depth_meters \<le> 0.1 then 0 else (2 * basin_length_meters) / sqrt (g_accel * average_depth_meters))"

definition equation_alchemy_decay_cross_section :: "real \<Rightarrow> real \<Rightarrow> real" where
  "equation_alchemy_decay_cross_section flux_density target_area = flux_density * target_area"

definition equation_coral_drag_amplification :: "real \<Rightarrow> real \<Rightarrow> real \<Rightarrow> real option" where
  "equation_coral_drag_amplification base_friction_coef growth_thickness_mm velocity_ms =
     (if growth_thickness_mm \<le> 0.01 then Some base_friction_coef
      else do { v \<leftarrow> py_pow velocity_ms 0.5;
                let roughness_factor = 0.05 * ln (1 + growth_thickness_mm) * v;
                Some (base_friction_coef + roughness_factor) })"

definition equation_radar_crosseye_phase :: "real \<Rightarrow> real \<Rightarrow> real \<Rightarrow> real" where
  "equation_radar_crosseye_phase jammer_baseline_m target_range_m frequency_hz =
     (let c_speed = 299792458 in
      if target_range_m \<le> 1 \<or> frequency_hz \<le> 1 then 0
      else let wavelength = c_speed / frequency_hz
           in (2 * pi * jammer_baseline_m) / (wavelength * target_range_m))"

definition equation_inductive_levitation_force :: "real \<Rightarrow> int \<Rightarrow> real \<Rightarrow> real \<Rightarrow> real" where
  "equation_inductive_levitation_force current_amps coil_turns gap_distance_m area_m2 =
     (let mu_0 = 4 * pi * (1 / 10 ^ 7) in
      if gap_distance_m \<le> 0.001 then 0
      else let numerator = mu_0 * of_int (coil_turns ^ 2) * current_amps ^ 2 * area_m2;
               denominator = 4 * gap_distance_m ^ 2
           in numerator / denominator)"

definition equation_pyramid_pivot_torque :: "real \<Rightarrow> real \<Rightarrow> real \<Rightarrow> real \<Rightarrow> real" where
  "equation_pyramid_pivot_torque block_mass_kg width_m height_m tilt_angle_rad =
     (let g_accel = 9.81;
          r_arm = sqrt ((width_m / 2) ^ 2 + (height_m / 2) ^ 2);
          alpha_base_angle = py_atan2 height_m width_m
      in block_mass_kg * g_accel * r_arm * cos (tilt_angle_rad + alpha_base_angle))"

definition equation_subterranean_agv_power :: "real \<Rightarrow> real \<Rightarrow> real" where
  "equation_subterranean_agv_power mass_kg friction_coef = mass_kg * 9.81 * friction_coef"

section \<open>Loans\<close>

text \<open>The specification of node 231: the balance after \<open>n\<close> months of interest and payment.\<close>

definition balance_after :: "real \<Rightarrow> real \<Rightarrow> real \<Rightarrow> nat \<Rightarrow> real" where
  "balance_after loan monthly_rate payment n = ((\<lambda>b. b * (1 + monthly_rate) - payment) ^^ n) loan"

lemma balance_closed_form:
  assumes "r \<noteq> 0"
  shows "balance_after loan r payment n = loan * (1 + r) ^ n - payment * (((1 + r) ^ n - 1) / r)"
proof (induction n)
  case (Suc n)
  have "balance_after loan r payment (Suc n) = balance_after loan r payment n * (1 + r) - payment"
    by (simp add: balance_after_def)
  also have "\<dots> = loan * (1 + r) ^ Suc n - payment * (((1 + r) ^ Suc n - 1) / r)"
    unfolding Suc.IH using assms by (simp add: field_simps)
  finally show ?case .
qed (simp add: balance_after_def)

lemma balance_without_interest: "balance_after loan 0 payment n = loan - real n * payment"
  by (induction n) (simp_all add: balance_after_def algebra_simps)

text \<open>The payment of node 231 pays the loan off: after \<open>n\<close> months of interest and payment the balance is
  exactly zero, with and without interest. Only a loan whose whole growth is at most one per mille is
  excluded, which the function answers with the principal.\<close>

theorem mortgage_pays_off:
  assumes "0 < n" and "0 \<le> annual_rate"
    and "annual_rate = 0 \<or> 0.001 < (1 + annual_rate / 12) ^ n - 1"
  shows "\<exists>m. equation_mortgage_amortization loan annual_rate (int n) = Some m
    \<and> balance_after loan (annual_rate / 12) m n = 0"
proof (cases "annual_rate = 0")
  case True
  with assms(1) show ?thesis
    by (simp add: equation_mortgage_amortization_def balance_without_interest max_def)
next
  case False
  define r where "r = annual_rate / 12"
  have r: "0 < r" "0.001 < (1 + r) ^ n - 1" using False assms by (simp_all add: r_def)
  have d: "0 < (1 + r) ^ n - 1" by (rule less_trans [OF _ r(2)]) simp
  let ?m = "loan * (r * (1 + r) ^ n) / ((1 + r) ^ n - 1)"
  have "equation_mortgage_amortization loan annual_rate (int n) = Some ?m"
    unfolding equation_mortgage_amortization_def Let_def r_def [symmetric] using r by simp
  moreover have "balance_after loan r ?m n = 0"
    using r d by (simp add: balance_closed_form)
  ultimately show ?thesis by (simp add: r_def)
qed

theorem mortgage_pays_off_witness:
  "\<exists>m. equation_mortgage_amortization 1000 0.12 (int 12) = Some m \<and> balance_after 1000 (0.12 / 12) m 12 = 0"
  by (rule mortgage_pays_off) (simp_all add: power_divide)

lemma short_loan_payment:
  assumes "0 < annual_rate" and "(1 + annual_rate / 12) ^ n - 1 \<le> 0.001"
  shows "equation_mortgage_amortization loan annual_rate (int n) = Some loan"
  using assms by (simp add: equation_mortgage_amortization_def)

section \<open>Pattern correlation\<close>

lemma sum_squares_nonneg: "0 \<le> sum_list (map (\<lambda>p. p\<^sup>2) (a :: real list))"
  by (rule sum_list_nonneg) auto

lemma cauchy_schwarz:
  "length a = length b \<Longrightarrow>
    (sum_list (map2 (*) a b))\<^sup>2 \<le> sum_list (map (\<lambda>p. p\<^sup>2) a) * sum_list (map (\<lambda>q. q\<^sup>2) (b :: real list))"
proof (induction a b rule: list_induct2)
  case (Cons x a y b)
  let ?d = "sum_list (map2 (*) a b)"
    and ?A = "sum_list (map (\<lambda>p. p\<^sup>2) a)" and ?B = "sum_list (map (\<lambda>q. q\<^sup>2) b)"
  have A: "0 \<le> ?A" and B: "0 \<le> ?B" by (rule sum_squares_nonneg)+
  have "\<bar>?d\<bar> \<le> sqrt (?A * ?B)" using Cons.IH by (metis real_sqrt_abs real_sqrt_le_mono)
  then have "\<bar>x * y\<bar> * \<bar>?d\<bar> \<le> \<bar>x * y\<bar> * sqrt (?A * ?B)" by (rule mult_left_mono) simp
  moreover have "x * y * ?d \<le> \<bar>x * y\<bar> * \<bar>?d\<bar>" by (metis abs_ge_self abs_mult)
  ultimately have "2 * (x * y) * ?d \<le> 2 * \<bar>x * y\<bar> * sqrt (?A * ?B)" by (simp only: mult.assoc)
  also have "\<dots> = 2 * (\<bar>x\<bar> * sqrt ?B) * (\<bar>y\<bar> * sqrt ?A)" by (simp add: abs_mult real_sqrt_mult)
  also have "\<dots> \<le> (\<bar>x\<bar> * sqrt ?B)\<^sup>2 + (\<bar>y\<bar> * sqrt ?A)\<^sup>2" by (rule sum_squares_bound)
  also have "\<dots> = x\<^sup>2 * ?B + y\<^sup>2 * ?A" using A B by (simp add: power_mult_distrib)
  finally have "(x * y + ?d)\<^sup>2 \<le> x\<^sup>2 * y\<^sup>2 + x\<^sup>2 * ?B + y\<^sup>2 * ?A + ?A * ?B"
    using Cons.IH by (simp add: power2_sum power_mult_distrib)
  then show ?case by (simp add: algebra_simps)
qed simp

text \<open>The pattern correlation of the diagnostics node is symmetric and lies between -1 and 1 for any two
  vectors, of equal length or not.\<close>

theorem correlation_is_cosine:
  "\<bar>equation_detective_pattern_correlation a b\<bar> \<le> 1
   \<and> equation_detective_pattern_correlation a b = equation_detective_pattern_correlation b a"
proof
  show "\<bar>equation_detective_pattern_correlation a b\<bar> \<le> 1"
  proof (cases "length a = length b")
    case True
    let ?n = "sqrt (sum_list (map (\<lambda>p. p\<^sup>2) a)) * sqrt (sum_list (map (\<lambda>q. q\<^sup>2) b))"
    have "\<bar>sum_list (map2 (*) a b)\<bar> \<le> ?n"
      using real_sqrt_le_mono [OF cauchy_schwarz [OF True]] by (simp add: real_sqrt_mult)
    then show ?thesis
      by (auto simp: equation_detective_pattern_correlation_def Let_def abs_divide divide_le_eq_1)
  qed (simp add: equation_detective_pattern_correlation_def)
  have "sum_list (map2 (*) a b) = sum_list (map2 (*) b a)" if "length a = length b"
    using that by (induction a b rule: list_induct2) (simp_all add: mult.commute)
  then show "equation_detective_pattern_correlation a b = equation_detective_pattern_correlation b a"
    by (simp add: equation_detective_pattern_correlation_def Let_def mult.commute)
qed

text \<open>A repeated pattern, scaled by a gain, is recognised with correlation one.\<close>

lemma sum_squares_scale: "sum_list (map (\<lambda>q. q\<^sup>2) (map ((*) c) a)) = c\<^sup>2 * sum_list (map (\<lambda>p. p\<^sup>2) (a :: real list))"
  by (induction a) (simp_all add: power_mult_distrib distrib_left)

lemma dot_scale: "sum_list (map2 (*) a (map ((*) c) a)) = c * sum_list (map (\<lambda>p. p\<^sup>2) (a :: real list))"
  by (induction a) (simp_all add: power2_eq_square distrib_left)

lemma repeat_detected:
  assumes "0 < c" and "0.001 < c * sum_list (map (\<lambda>p. p\<^sup>2) a)"
  shows "equation_detective_pattern_correlation a (map ((*) c) a) = 1"
proof -
  let ?A = "sum_list (map (\<lambda>p. p\<^sup>2) a)"
  have A: "0 \<le> ?A" by (rule sum_squares_nonneg)
  then have "sqrt ?A * sqrt (c\<^sup>2 * ?A) = c * ?A" using assms(1) by (simp add: real_sqrt_mult)
  moreover have "a \<noteq> []" "?A \<noteq> 0" using assms(2) by auto
  ultimately show ?thesis using assms
    by (simp add: equation_detective_pattern_correlation_def Let_def sum_squares_scale dot_scale del: map_map)
qed

section \<open>Agreement between components\<close>

lemma catalogue_signs_ledger_rows:
  "equation_anti_corruption_hash_verify sha (csv_line metrics) prev = link_hash sha metrics prev"
  by (simp add: equation_anti_corruption_hash_verify_def link_hash_def)

text \<open>The row signature of node 274 is the one the ledgers use: the boot inspection accepts a row of given
  metrics in a chain iff its last two fields are the signature node 274 computes and the previous one.\<close>

theorem catalogue_verifies_ledgers:
  "check_rows sha (length metrics) (Suc (length metrics)) i prev [row] = Secure \<and> take (length metrics) row = metrics
      \<and> length row = length metrics + 2
    \<longleftrightarrow> row = metrics @ [equation_anti_corruption_hash_verify sha (csv_line metrics) prev, prev]"
    (is "?lhs \<longleftrightarrow> ?rhs")
proof
  let ?n = "length metrics"
  assume ?rhs
  then show ?lhs by (simp add: catalogue_signs_ledger_rows nth_append Let_def)
next
  let ?n = "length metrics"
  assume l: ?lhs
  then have row: "row \<noteq> []" "length row = ?n + 2" "take ?n row = metrics" by auto
  with l have h: "row ! ?n = link_hash sha metrics prev" "row ! Suc ?n = prev"
    by (auto simp: Let_def split: if_splits)
  have "row = take ?n row @ drop ?n row" by simp
  also have "drop ?n row = [row ! ?n, row ! Suc ?n]"
    using row(2) by (simp add: Cons_nth_drop_Suc [symmetric])
  finally show ?rhs by (simp add: row(3) h catalogue_signs_ledger_rows)
qed

text \<open>The two shielding exhibits agree: the thickness node 24 asks for attenuates the radiation of node 200
  exactly to the target.\<close>

theorem shield_and_transport_agree:
  assumes "0 < target" and "target < initial" and "0 < mu"
  shows "\<exists>x. equation_shielding_radiation_attenuation initial target mu = Some x
    \<and> equation_radiation_transport_attenuation initial x mu = target"
proof -
  obtain x where x: "equation_shielding_radiation_attenuation initial target mu = Some x" "0 < x"
    "initial * exp (- mu * x) = target"
    using shield_attenuates_to_target [OF assms] by blast
  then show ?thesis using assms by (simp add: equation_radiation_transport_attenuation_def)
qed

theorem shield_and_transport_agree_witness:
  "\<exists>x. equation_shielding_radiation_attenuation 500 2 0.7 = Some x
    \<and> equation_radiation_transport_attenuation 500 x 0.7 = 2"
  by (rule shield_and_transport_agree) simp_all

section \<open>Single nodes\<close>

lemma cancellation_is_exact:
  "equation_scope_sine_voltage a f t phase + equation_adaptive_frequency_cancellation a phase f t = 0"
  by (simp add: equation_scope_sine_voltage_def equation_adaptive_frequency_cancellation_def add.assoc [symmetric])

lemma vibration_period:
  assumes "0 < k" and "0.1 < m"
  shows "(2 * pi * equation_body_vibration_resonance k m)\<^sup>2 * m = k"
proof -
  have "0 \<le> k / m" using assms by simp
  then have "(sqrt (k / m))\<^sup>2 = k / m" by (rule real_sqrt_pow2)
  moreover have "2 * pi * equation_body_vibration_resonance k m = sqrt (k / m)"
    using assms by (simp add: equation_body_vibration_resonance_def)
  ultimately show ?thesis using assms by simp
qed

text \<open>Node 238 is documented as normalised to the unit interval; at point blank it returns 100.\<close>

lemma risk_index_range:
  shows "\<not> r / max 0.1 v \<le> 0.01 \<Longrightarrow>
      0 < equation_tactical_risk_index r v j \<and> equation_tactical_risk_index r v j < 1"
    and "r / max 0.1 v \<le> 0.01 \<Longrightarrow> equation_tactical_risk_index r v j = 100"
proof -
  show "r / max 0.1 v \<le> 0.01 \<Longrightarrow> equation_tactical_risk_index r v j = 100"
    by (simp only: equation_tactical_risk_index_def Let_def if_True)
  have e: "- 0.05 * x = - (0.05 * x)" for x :: real by simp
  assume "\<not> r / max 0.1 v \<le> 0.01"
  then show "0 < equation_tactical_risk_index r v j \<and> equation_tactical_risk_index r v j < 1"
    by (simp only: equation_tactical_risk_index_def Let_def if_False e logistic_range)
qed

lemma trend_tracks_ramp:
  "equation_time_series_forecast_trend alpha beta (level + slope) level slope = slope"
  by (simp add: equation_time_series_forecast_trend_def algebra_simps)

text \<open>Node 241 grows without bound towards the speed of light and falls back to the rest energy at it.\<close>

lemma particle_energy:
  assumes "0 < m" and "\<bar>v\<bar> < 299792458"
  shows "\<exists>e. equation_astral_particle_energy m v = Some e \<and> m * 299792458\<^sup>2 \<le> e
    \<and> (e / (m * 299792458\<^sup>2))\<^sup>2 * (1 - v\<^sup>2 / 299792458\<^sup>2) = 1"
    and "equation_astral_particle_energy m 299792458 = Some (m * 299792458\<^sup>2)"
proof -
  define c where "c = (299792458 :: real)"
  have c: "0 < c" "\<bar>v\<bar> < c" "v < c" using assms(2) by (simp_all add: c_def)
  have "\<bar>v\<bar>\<^sup>2 < c\<^sup>2" using c by (intro power_strict_mono) simp_all
  then have q: "0 < 1 - v\<^sup>2 / c\<^sup>2" "1 - v\<^sup>2 / c\<^sup>2 \<le> 1" using c by simp_all
  have s: "0 < sqrt (1 - v\<^sup>2 / c\<^sup>2)" "sqrt (1 - v\<^sup>2 / c\<^sup>2) \<le> 1"
    using q by (simp_all only: real_sqrt_gt_0_iff real_sqrt_le_1_iff)
  have e: "equation_astral_particle_energy m v = Some (1 / sqrt (1 - v\<^sup>2 / c\<^sup>2) * m * c\<^sup>2)"
    unfolding equation_astral_particle_energy_def Let_def c_def [symmetric] using c q s by (simp add: not_le)
  have "1 \<le> 1 / sqrt (1 - v\<^sup>2 / c\<^sup>2)" using s by (simp only: le_divide_eq_1_pos)
  then have "1 * (m * c\<^sup>2) \<le> 1 / sqrt (1 - v\<^sup>2 / c\<^sup>2) * (m * c\<^sup>2)"
    using assms(1) by (intro mult_right_mono) simp_all
  moreover have "(1 / sqrt (1 - v\<^sup>2 / c\<^sup>2) * m * c\<^sup>2 / (m * c\<^sup>2))\<^sup>2 * (1 - v\<^sup>2 / c\<^sup>2) = 1"
    using assms(1) c q s by (simp add: power_divide)
  ultimately show "\<exists>e. equation_astral_particle_energy m v = Some e \<and> m * 299792458\<^sup>2 \<le> e
    \<and> (e / (m * 299792458\<^sup>2))\<^sup>2 * (1 - v\<^sup>2 / 299792458\<^sup>2) = 1"
    unfolding c_def [symmetric] e by (simp only: mult.assoc mult_1) blast
  show "equation_astral_particle_energy m 299792458 = Some (m * 299792458\<^sup>2)"
    by (simp add: equation_astral_particle_energy_def)
qed

text \<open>A roughness of exactly ten metres divides by \<open>ln 1\<close>.\<close>

lemma mountain_wind_raises:
  "equation_mountain_wind_shear v alt rough = None \<longleftrightarrow> rough = 10 \<and> 10 < alt"
proof (cases "rough \<le> 0 \<or> alt \<le> rough")
  case False
  then have "0 < alt / rough" "0 < 10 / rough" by auto
  moreover have "ln (10 / rough) = 0 \<longleftrightarrow> rough = 10" using False by (subst ln_eq_zero_iff) auto
  ultimately have "equation_mountain_wind_shear v alt rough = None \<longleftrightarrow> rough = 10"
    using False by (simp add: equation_mountain_wind_shear_def bind_eq_None_conv del: ln_div)
  then show ?thesis using False by auto
qed (auto simp: equation_mountain_wind_shear_def)

lemma clamp_minus: "clamp (- 85) 85 (- x) = - clamp (- 85) 85 (x :: real)"
  by (auto simp: clamp_def min_def max_def)

lemma mercator_odd:
  "\<exists>y. equation_map_mercator_projection lat h = Some y \<and> equation_map_mercator_projection (- lat) h = Some (- y)"
proof -
  define x where "x = radians (clamp (- 85) 85 lat) / 2"
  have "\<bar>clamp (- 85) 85 lat\<bar> \<le> 85" by (rule clamp_abs_le) simp
  then have "\<bar>clamp (- 85) 85 lat\<bar> * pi / 360 \<le> 85 * pi / 360" by (intro divide_right_mono mult_right_mono) simp_all
  then have "\<bar>x\<bar> < pi / 4" using pi_gt_zero by (simp add: x_def radians_def abs_mult)
  then have x: "- pi / 4 < x" "x < pi / 4" by (simp_all add: abs_less_iff)
  have p: "0 < tan (pi / 4 + x)" and n: "0 < tan (pi / 4 - x)" using x by (intro tan_gt_zero; simp)+
  have "tan (pi / 4 - x) = inverse (tan (pi / 4 + x))"
    using tan_cot [of "pi / 4 + x"] by (simp add: algebra_simps)
  then have "ln (tan (pi / 4 - x)) = - ln (tan (pi / 4 + x))" using p by (simp add: ln_inverse)
  moreover have "radians (clamp (- 85) 85 (- lat)) / 2 = - x"
    by (simp add: x_def radians_def clamp_minus)
  ultimately show ?thesis
    using p n unfolding equation_map_mercator_projection_def Let_def x_def [symmetric] by simp
qed

lemma hull_collapse_bounds:
  assumes "0 \<le> inner" and "inner < outer" and "0 \<le> strength"
  shows "\<exists>p. equation_titanium_hull_collapse strength outer inner = Some p \<and> 0 \<le> p \<and> p \<le> strength / sqrt 3"
proof -
  have q: "0 \<le> inner / outer" "inner / outer \<le> 1" using assms by simp_all
  then have "0 \<le> 1 - (inner / outer)\<^sup>2" "1 - (inner / outer)\<^sup>2 \<le> 1" by (simp_all add: power_le_one del: divide_le_eq_1)
  then have "strength / sqrt 3 * (1 - (inner / outer)\<^sup>2) \<le> strength / sqrt 3 * 1"
    "0 \<le> strength / sqrt 3 * (1 - (inner / outer)\<^sup>2)"
    using assms(3) by (intro mult_left_mono mult_nonneg_nonneg; simp)+
  then show ?thesis using assms by (simp add: equation_titanium_hull_collapse_def)
qed

lemma friction_falls: "equation_cray_hull_friction re \<noteq> None"
proof (cases "re \<le> 10")
  case False
  then have l: "0 < log 10 re" by simp
  from less_imp_neq [OF l] have "log 10 re \<noteq> 0" by (rule not_sym)
  with l have "log 10 re powr 2.58 \<noteq> 0" by (simp only: powr_eq_0_iff simp_thms)
  moreover have "equation_cray_hull_friction re = py_div 0.455 (log 10 re powr 2.58)"
    using False l unfolding equation_cray_hull_friction_def by simp
  ultimately show ?thesis by (simp only: py_div_None simp_thms)
qed (simp add: equation_cray_hull_friction_def)

end
