(* ===== verification/Tcp_Server.thy ===== *)
theory Tcp_Server
  imports Config_Tcp
begin

text \<open>
  The life cycle of the TCP command server (\<open>network_layer/tcp_command_listener.py\<close>): start, the
  accept loop with its socket, one handler per client, hang-ups and stop. The operating system
  decides whether a bind succeeds, which clients connect and what they send; these are the events.
  A handler or the accept loop notices \<open>is_running\<close> at the top of its loop; \<open>stop_server\<close> joins the
  accept loop for two seconds, longer than its one second time-out, so the loop is over when
  the sockets are closed. A status frame that cannot be sent ends the handler like a hang-up.
\<close>

section \<open>State and operations\<close>

datatype accept_thread = No_Thread | Booting | Accepting | Ended
datatype socket_state = Unbound | Listening | Closed

record tcp_server =
  is_running :: bool
  listen_thread :: accept_thread
  server_socket :: socket_state
  active_connections :: "nat list"
  handlers :: "nat \<Rightarrow> connection"
  target_setpoints :: setpoints

definition tcp_server_init :: tcp_server where
  "tcp_server_init = \<lparr>is_running = False, listen_thread = No_Thread, server_socket = Unbound,
     active_connections = [], handlers = \<lambda>_. connection_init, target_setpoints = setpoints_init\<rparr>"

definition start_server :: "tcp_server \<Rightarrow> tcp_server" where
  "start_server s = (if is_running s then s else s\<lparr>is_running := True, listen_thread := Booting\<rparr>)"

text \<open>\<open>bind\<close> and \<open>listen\<close> stand outside the \<open>try\<close>: on a closed socket, or when the system refuses
  the address, the thread ends while \<open>is_running\<close> stays set.\<close>

definition accept_loop_boot :: "bool \<Rightarrow> tcp_server \<Rightarrow> tcp_server" where
  "accept_loop_boot bind_ok s =
     (if listen_thread s \<noteq> Booting then s
      else if server_socket s = Unbound \<and> bind_ok
      then s\<lparr>server_socket := Listening, listen_thread := Accepting\<rparr>
      else s\<lparr>listen_thread := Ended\<rparr>)"

text \<open>A client socket is a fresh object.\<close>

definition accept_client :: "nat \<Rightarrow> tcp_server \<Rightarrow> tcp_server" where
  "accept_client i s =
     (if listen_thread s = Accepting \<and> is_running s \<and> i \<notin> set (active_connections s)
      then s\<lparr>active_connections := active_connections s @ [i], handlers := (handlers s)(i := connection_init)\<rparr>
      else s)"

definition accept_fault :: "tcp_server \<Rightarrow> tcp_server" where
  "accept_fault s = (if listen_thread s = Accepting then s\<lparr>listen_thread := Ended\<rparr> else s)"

definition close_client :: "nat \<Rightarrow> tcp_server \<Rightarrow> tcp_server" where
  "close_client i s = s\<lparr>handlers := (handlers s)(i := (handlers s i)\<lparr>open_link := False\<rparr>),
     active_connections := remove1 i (active_connections s)\<rparr>"

definition client_chunk :: "(string \<Rightarrow> json option) \<Rightarrow> nat \<Rightarrow> string \<Rightarrow> tcp_server \<Rightarrow> tcp_server" where
  "client_chunk loads i data s =
     (if i \<notin> set (active_connections s) \<or> \<not> is_running s then s
      else let (t, c) = receive_chunk loads (target_setpoints s, handlers s i) data;
               s = s\<lparr>target_setpoints := t, handlers := (handlers s)(i := c)\<rparr>
           in if open_link c then s else close_client i s)"

definition client_hang_up :: "nat \<Rightarrow> tcp_server \<Rightarrow> tcp_server" where
  "client_hang_up i s = (if i \<in> set (active_connections s) \<and> is_running s then close_client i s else s)"

definition stop_server :: "tcp_server \<Rightarrow> tcp_server" where
  "stop_server s =
     s\<lparr>is_running := False,
       listen_thread := (if listen_thread s = No_Thread then No_Thread else Ended),
       handlers := (\<lambda>i. if i \<in> set (active_connections s) then (handlers s i)\<lparr>open_link := False\<rparr> else handlers s i),
       active_connections := [],
       server_socket := Closed\<rparr>"

datatype tcp_event = Start | Bind bool | Accept nat | Accept_Fault | Chunk nat string | Hang_Up nat | Stop

fun tcp_step :: "(string \<Rightarrow> json option) \<Rightarrow> tcp_server \<Rightarrow> tcp_event \<Rightarrow> tcp_server" where
  "tcp_step loads s Start = start_server s"
| "tcp_step loads s (Bind ok) = accept_loop_boot ok s"
| "tcp_step loads s (Accept i) = accept_client i s"
| "tcp_step loads s Accept_Fault = accept_fault s"
| "tcp_step loads s (Chunk i data) = client_chunk loads i data s"
| "tcp_step loads s (Hang_Up i) = client_hang_up i s"
| "tcp_step loads s Stop = stop_server s"

definition tcp_run :: "(string \<Rightarrow> json option) \<Rightarrow> tcp_event list \<Rightarrow> tcp_server" where
  "tcp_run loads = foldl (tcp_step loads) tcp_server_init"

lemmas tcp_ops = start_server_def accept_loop_boot_def accept_client_def accept_fault_def close_client_def
  client_chunk_def client_hang_up_def stop_server_def

section \<open>Invariant\<close>

text \<open>The connection list is the set of the open handlers, without duplicates; there are none without a
  listening socket and a running server.\<close>

definition server_sound :: "tcp_server \<Rightarrow> bool" where
  "server_sound s \<longleftrightarrow> distinct (active_connections s)
     \<and> (\<forall>i \<in> set (active_connections s). open_link (handlers s i))
     \<and> (active_connections s \<noteq> [] \<or> listen_thread s = Accepting \<longrightarrow> is_running s \<and> server_socket s = Listening)
     \<and> (listen_thread s = Booting \<longrightarrow> is_running s)
     \<and> targets_safe (target_setpoints s)"

lemma server_sound_step: "server_sound s \<Longrightarrow> server_sound (tcp_step loads s e)"
proof (cases e)
  case (Chunk i data)
  assume s: "server_sound s"
  obtain t c where r: "receive_chunk loads (target_setpoints s, handlers s i) data = (t, c)" by fastforce
  have "targets_safe t"
    using receive_chunk_safe [of "(target_setpoints s, handlers s i)" loads data] s by (simp add: r server_sound_def)
  then show ?thesis using s Chunk
    by (auto simp: server_sound_def client_chunk_def close_client_def r Let_def dest: in_set_remove1 [THEN iffD1, rotated])
qed (auto simp: server_sound_def tcp_ops connection_init_def)

lemma server_sound_run: "server_sound (tcp_run loads es)"
proof (induction es rule: rev_induct)
  case Nil
  show ?case by (simp add: tcp_run_def server_sound_def tcp_server_init_def targets_safe_def setpoints_init_def)
next
  case (snoc e es)
  then show ?case using server_sound_step by (simp add: tcp_run_def)
qed

lemma tcp_run_append: "tcp_run loads (es @ es') = foldl (tcp_step loads) (tcp_run loads es) es'"
  by (simp add: tcp_run_def)

text \<open>Over every life of the server the connection list holds exactly open handlers, once each, handlers exist
  only while the server runs on a listening socket, and the targets stay in their limits.\<close>

theorem tcp_server_sound:
  "let s = tcp_run loads es in
     distinct (active_connections s) \<and> list_all (\<lambda>i. open_link (handlers s i)) (active_connections s)
     \<and> (active_connections s = [] \<or> is_running s \<and> server_socket s = Listening)
     \<and> targets_safe (target_setpoints s)"
  using server_sound_run [of loads es] by (auto simp: Let_def server_sound_def list_all_iff)

text \<open>A refused address leaves the server marked as running with no accept loop, and starting it again does nothing.\<close>

lemma refused_bind_sticks:
  "is_running (tcp_run loads [Start, Bind False, Start]) \<and> listen_thread (tcp_run loads [Start, Bind False, Start]) = Ended"
  by (simp add: tcp_run_def tcp_server_init_def start_server_def accept_loop_boot_def)

text \<open>A stopped server.\<close>

definition deaf :: "tcp_server \<Rightarrow> bool" where
  "deaf s \<longleftrightarrow> server_socket s = Closed \<and> active_connections s = [] \<and> listen_thread s \<noteq> Accepting"

lemma deaf_step: "deaf s \<Longrightarrow> deaf (tcp_step loads s e) \<and> target_setpoints (tcp_step loads s e) = target_setpoints s"
  by (cases e) (auto simp: deaf_def tcp_ops)

lemma deaf_run: "deaf s \<Longrightarrow> deaf (foldl (tcp_step loads) s es)
    \<and> target_setpoints (foldl (tcp_step loads) s es) = target_setpoints s"
proof (induction es arbitrary: s)
  case (Cons e es)
  then show ?case using deaf_step [of s loads e] by simp
qed simp

text \<open>A stopped server never hears again: whatever follows the first stop, restarts included, no client is
  accepted and the targets stay what they were, because the constructor's only listening socket is closed
  and \<open>start_server\<close> opens no other.\<close>

theorem tcp_deaf_after_stop:
  "active_connections (tcp_run loads (es @ Stop # es')) = []
   \<and> listen_thread (tcp_run loads (es @ Stop # es')) \<noteq> Accepting
   \<and> target_setpoints (tcp_run loads (es @ Stop # es')) = target_setpoints (tcp_run loads es)"
proof -
  have "deaf (stop_server (tcp_run loads es))" by (simp add: deaf_def stop_server_def)
  from deaf_run [OF this, of loads es'] show ?thesis
    by (simp add: tcp_run_append deaf_def) (simp add: stop_server_def)
qed

section \<open>Refinement of a register\<close>

text \<open>What the server promises, without bytes, lines, clients or threads: a register of targets that
  holds the last order. An order is a packet within both limits.\<close>

definition order :: "json \<Rightarrow> setpoints option" where
  "order v =
     (case (json_get v ''rpm'', json_get v ''target_yaw_rate'') of
        (Ret r, Ret y) \<Rightarrow>
          if json_between (- 200) 1200 r = Some True \<and> json_between (- 0.8) 0.8 y = Some True
          then Some \<lparr>sp_rpm = json_real r, sp_yaw = json_real y\<rparr> else None
      | _ \<Rightarrow> None)"

definition register :: "setpoints \<Rightarrow> setpoints list \<Rightarrow> setpoints" where
  "register s orders = last (s # orders)"

lemma register_append: "register s (os @ os') = register (register s os) os'"
  by (cases os' rule: rev_cases) (simp_all add: register_def)

definition fatal :: "json \<Rightarrow> bool" where
  "fatal v \<longleftrightarrow> (\<forall>kvs. v \<noteq> JObj kvs)"

lemma validate_order:
  "fatal v \<Longrightarrow> validate_and_update_targets s v = Exn ''AttributeError''"
  "\<not> fatal v \<Longrightarrow> \<exists>msg. validate_and_update_targets s v =
     Ret (case order v of None \<Rightarrow> s | Some t \<Rightarrow> t, order v \<noteq> None, msg)"
proof -
  define b1 b2 where "b1 = json_between (- 200) 1200" and "b2 = json_between (- 0.8) 0.8"
  have null: "b1 JNull = None" "b2 JNull = None" by (simp_all add: b1_def b2_def)
  show "fatal v \<Longrightarrow> validate_and_update_targets s v = Exn ''AttributeError''"
    by (cases v) (simp_all add: fatal_def validate_and_update_targets_def)
  show "\<not> fatal v \<Longrightarrow> \<exists>msg. validate_and_update_targets s v =
     Ret (case order v of None \<Rightarrow> s | Some t \<Rightarrow> t, order v \<noteq> None, msg)"
    unfolding validate_and_update_targets_def order_def fatal_def b1_def [symmetric] b2_def [symmetric]
    by (auto simp: null split: option.splits bool.splits)
qed

text \<open>The orders in a list of lines, up to the line whose packet is no object, which ends the handler.\<close>

fun line_orders :: "(string \<Rightarrow> json option) \<Rightarrow> string list \<Rightarrow> setpoints list" where
  "line_orders loads [] = []"
| "line_orders loads (l # ls) =
     (if py_strip l = [] then line_orders loads ls
      else case loads l of
        None \<Rightarrow> line_orders loads ls
      | Some v \<Rightarrow> if fatal v then [] else (case order v of None \<Rightarrow> [] | Some t \<Rightarrow> [t]) @ line_orders loads ls)"

lemma handle_lines_register:
  "open_link c \<Longrightarrow> fst (foldl (handle_line loads) (s, c) ls) = register s (line_orders loads ls)"
proof (induction ls arbitrary: s c)
  case (Cons l ls)
  show ?case
  proof (cases "py_strip l = [] \<or> loads l = None")
    case True
    with Cons show ?thesis by (auto simp: handle_line_def)
  next
    case False
    then obtain v where v: "loads l = Some v" "py_strip l \<noteq> []" by auto
    show ?thesis
    proof (cases "fatal v")
      case True
      then have "handle_line loads (s, c) l = (s, c\<lparr>open_link := False\<rparr>)"
        using Cons.prems v by (simp add: handle_line_def validate_order(1))
      then show ?thesis using v True by (simp add: handle_lines_dead register_def)
    next
      case False
      then obtain c' where "handle_line loads (s, c) l = (case order v of None \<Rightarrow> s | Some t \<Rightarrow> t, c')" "open_link c'"
        using Cons.prems v validate_order(2) [of v s] by (fastforce simp: handle_line_def)
      then show ?thesis using Cons.IH v False by (auto simp: register_def split: option.split)
    qed
  qed
qed (simp add: register_def)

text \<open>The orders one event of the server delivers, and those of a whole run.\<close>

definition event_orders :: "(string \<Rightarrow> json option) \<Rightarrow> tcp_server \<Rightarrow> tcp_event \<Rightarrow> setpoints list" where
  "event_orders loads s e =
     (case e of
        Chunk i data \<Rightarrow>
          if i \<in> set (active_connections s) \<and> is_running s
          then line_orders loads (butlast (py_split (CHR 0x0A) (buffer (handlers s i) @ data))) else []
      | _ \<Rightarrow> [])"

fun order_log :: "(string \<Rightarrow> json option) \<Rightarrow> tcp_server \<Rightarrow> tcp_event list \<Rightarrow> setpoints list" where
  "order_log loads s [] = []"
| "order_log loads s (e # es) = event_orders loads s e @ order_log loads (tcp_step loads s e) es"

lemma receive_chunk_register:
  assumes "open_link c"
  shows "fst (receive_chunk loads (s, c) data)
    = register s (line_orders loads (butlast (py_split (CHR 0x0A) (buffer c @ data))))"
  using handle_lines_register [of "c\<lparr>buffer := b\<rparr>" loads s for b] assms
  by (auto simp: receive_chunk_def Let_def py_split_notin register_def)

lemma step_refines:
  assumes "server_sound s"
  shows "target_setpoints (tcp_step loads s e) = register (target_setpoints s) (event_orders loads s e)"
proof (cases e)
  case (Chunk i data)
  obtain t c where r: "receive_chunk loads (target_setpoints s, handlers s i) data = (t, c)" by fastforce
  have "t = register (target_setpoints s) (line_orders loads (butlast (py_split (CHR 0x0A) (buffer (handlers s i) @ data))))"
    if "i \<in> set (active_connections s)"
    using receive_chunk_register [of "handlers s i" loads "target_setpoints s" data] assms that
    by (simp add: r server_sound_def)
  then show ?thesis
    using Chunk by (auto simp: client_chunk_def close_client_def event_orders_def r register_def Let_def)
qed (simp_all add: tcp_ops event_orders_def register_def)

lemma run_refines:
  "server_sound s \<Longrightarrow> target_setpoints (foldl (tcp_step loads) s es) = register (target_setpoints s) (order_log loads s es)"
proof (induction es arbitrary: s)
  case (Cons e es)
  then show ?case using server_sound_step by (simp add: register_append step_refines)
qed (simp add: register_def)

lemma order_safe: "order v = Some t \<Longrightarrow> targets_safe t"
  using json_between_real [of "- 200" 1200] json_between_real [of "- 0.8" "0.8"]
  by (auto simp: order_def targets_safe_def split: outcome.splits if_splits)

lemma line_orders_safe: "t \<in> set (line_orders loads ls) \<Longrightarrow> targets_safe t"
  by (induction ls) (auto split: option.splits if_splits dest: order_safe)

lemma order_log_safe: "t \<in> set (order_log loads s es) \<Longrightarrow> targets_safe t"
  by (induction es arbitrary: s) (auto simp: event_orders_def line_orders_safe split: tcp_event.splits if_splits)


end
