(* ===== verification/Boot_Manifest.thy ===== *)
theory Boot_Manifest
  imports Museum_Final Config_Tcp Loopback Hal "HOL-Library.AList"
begin

text \<open>
  The boot diagnostics that read \<open>config/manifest.json\<close>: the port table of the serial validator
  (\<open>hardware_serial_validator.py\<close>), the master manifest of the network validator
  (\<open>hardware_network_validator.py\<close>), and of the boot suite (\<open>boot_verification_suite.py\<close>) the
  constructor's assertions and stage 6. The file is the \<open>config_file\<close> of \<open>Config_Tcp\<close>. Where the code
  catches every exception the model keeps only that one was raised, as \<open>None\<close>.
\<close>

section \<open>Reading JSON\<close>

definition json_field :: "json \<Rightarrow> string \<Rightarrow> json option" where
  "json_field v k = (case json_item v k of Ret x \<Rightarrow> Some x | Exn e \<Rightarrow> None)"

text \<open>\<open>v.get(k, {})\<close>\<close>

definition json_get_dict :: "json \<Rightarrow> string \<Rightarrow> json option" where
  "json_get_dict v k =
     (case v of JObj kvs \<Rightarrow> Some (case map_of kvs k of None \<Rightarrow> JObj [] | Some x \<Rightarrow> x) | _ \<Rightarrow> None)"

text \<open>\<open>int(s)\<close> and \<open>int\<close> of a JSON value, which truncates.\<close>

definition py_int10 :: "string \<Rightarrow> int option" where
  "py_int10 s =
     (case drop_underscores (CHR 0x00) (py_strip s) of None \<Rightarrow> None
      | Some t \<Rightarrow> let (neg, d) = split_sign t
                 in if d \<noteq> [] \<and> list_all is_digit d
                    then Some (if neg then - int (nat_of_digits d) else int (nat_of_digits d)) else None)"

fun json_int :: "json \<Rightarrow> int option" where
  "json_int (JBool b) = Some (if b then 1 else 0)"
| "json_int (JInt i) = Some i"
| "json_int (JNum (Fin x)) = Some (if 0 \<le> x then \<lfloor>x\<rfloor> else \<lceil>x\<rceil>)"
| "json_int (JStr s) = py_int10 s"
| "json_int v = None"

text \<open>\<open>s.split()[0]\<close>\<close>

definition first_word :: "string \<Rightarrow> string option" where
  "first_word s = (let w = takeWhile (\<lambda>c. \<not> is_space c) (dropWhile is_space s) in if w = [] then None else Some w)"

section \<open>The port table of the serial validator\<close>

record port_config =
  baud :: int
  port_id :: string

fun hashable :: "json \<Rightarrow> bool" where
  "hashable (JArr xs) = False"
| "hashable (JObj kvs) = False"
| "hashable v = True"

definition port_entry :: "bool \<Rightarrow> json \<Rightarrow> (json \<times> port_config) option" where
  "port_entry nt config =
     do { port_handle \<leftarrow> json_field config (if nt then ''windows_handle'' else ''linux_handle'');
          b \<leftarrow> json_field config ''baud_rate'';
          n \<leftarrow> json_int b;
          p \<leftarrow> json_field config ''protocol_standard'';
          w \<leftarrow> (case p of JStr s \<Rightarrow> first_word s | _ \<Rightarrow> None);
          if hashable port_handle then Some (port_handle, \<lparr>baud = n, port_id = w\<rparr>) else None }"

text \<open>The loop over the serial map; a handle seen again keeps its place and takes the later entry.\<close>

fun collect_ports :: "bool \<Rightarrow> (string \<times> json) list \<Rightarrow> (json \<times> port_config) list \<Rightarrow> (json \<times> port_config) list option" where
  "collect_ports nt [] extracted = Some extracted"
| "collect_ports nt ((key, config) # entries) extracted =
     (case port_entry nt config of None \<Rightarrow> None
      | Some (h, c) \<Rightarrow> collect_ports nt entries (AList.update h c extracted))"

definition fallback_ports :: "(json \<times> port_config) list" where
  "fallback_ports = [(JStr ''COM3'', \<lparr>baud = 4800, port_id = ''COMPASS_FALLBACK''\<rparr>),
                     (JStr ''COM4'', \<lparr>baud = 4800, port_id = ''DEPTH_FALLBACK''\<rparr>)]"

definition serial_map :: "json \<Rightarrow> (string \<times> json) list option" where
  "serial_map data =
     do { h \<leftarrow> json_get_dict data ''hardware_abstraction_layer'';
          m \<leftarrow> json_get_dict h ''serial_ports'';
          (case m of JObj kvs \<Rightarrow> Some kvs | _ \<Rightarrow> None) }"

definition load_frozen_ports_from_manifest :: "bool \<Rightarrow> config_file \<Rightarrow> (json \<times> port_config) list" where
  "load_frozen_ports_from_manifest nt f =
     (case f of
        Missing \<Rightarrow> fallback_ports
      | Document data \<Rightarrow>
          (case do { kvs \<leftarrow> serial_map data; collect_ports nt kvs [] } of None \<Rightarrow> [] | Some ps \<Rightarrow> ps)
      | _ \<Rightarrow> [])"

text \<open>The suite on the loaded table; \<open>hw\<close> is what each opened port does.\<close>

definition hardware_verification :: "bool \<Rightarrow> config_file \<Rightarrow> (json \<Rightarrow> string + (nat \<Rightarrow> string \<Rightarrow> string)) \<Rightarrow> nat
    \<Rightarrow> (json \<times> port_results \<times> integrity_status) list" where
  "hardware_verification nt f hw frames_per_port =
     execute_complete_hardware_verification
       (map (\<lambda>(h, c). (h, port_id c, hw h)) (load_frozen_ports_from_manifest nt f)) frames_per_port"

section \<open>The master manifest of the network validator\<close>

text \<open>\<open>None\<close> is \<open>sys.exit(1)\<close>.\<close>

definition load_master_manifest :: "config_file \<Rightarrow> json option" where
  "load_master_manifest f = (case f of Document data \<Rightarrow> Some data | _ \<Rightarrow> None)"

definition class_registry :: "json \<Rightarrow> json option" where
  "class_registry data =
     do { identity_matrix \<leftarrow> json_get_dict data ''tactical_network_identity_matrix'';
          json_get_dict identity_matrix ''class_specific_oui_registry'' }"

section \<open>Stage 6 of the boot suite\<close>

text \<open>The pattern \<open>^([0-9A-Fa-f]{2}:){2}[0-9A-Fa-f]{2}$\<close>; the dollar also matches before a final newline.\<close>

definition oui_shape :: "string \<Rightarrow> bool" where
  "oui_shape t \<longleftrightarrow> (case t of
       [a, b, c, d, e, f, g, h] \<Rightarrow> c = CHR '':'' \<and> f = CHR '':'' \<and> list_all is_hex [a, b, d, e, g, h]
     | _ \<Rightarrow> False)"

definition matches_oui :: "string \<Rightarrow> bool" where
  "matches_oui s \<longleftrightarrow> oui_shape s \<or> (s \<noteq> [] \<and> last s = CHR 0x0A \<and> oui_shape (butlast s))"

definition required_classes :: "string list" where
  "required_classes = [''early_aegis_cruiser'', ''early_aegis_destroyer'', ''enterprise_carrier'']"

text \<open>One round of the loop; every exception ends in \<open>False\<close>.\<close>

definition class_passes :: "bool \<Rightarrow> json \<Rightarrow> string \<Rightarrow> bool" where
  "class_passes re_bound registry cls \<longleftrightarrow>
     contains_key registry cls = Some True
     \<and> (case do { e \<leftarrow> json_field registry cls; json_field e ''oui_prefix'' } of
          Some (JStr prefix) \<Rightarrow> re_bound \<and> matches_oui prefix
        | _ \<Rightarrow> False)"

text \<open>The method needs the attribute \<open>manifest_path\<close> and the module \<open>re\<close>; the file as shipped has neither.\<close>

definition run_stage_6 :: "bool \<Rightarrow> bool \<Rightarrow> config_file \<Rightarrow> bool" where
  "run_stage_6 has_path re_bound f \<longleftrightarrow>
     has_path \<and>
     (case f of
        Document data \<Rightarrow>
          (case class_registry data of None \<Rightarrow> False
           | Some registry \<Rightarrow> list_all (class_passes re_bound registry) required_classes)
      | _ \<Rightarrow> False)"

definition shipped_stage_6 :: "config_file \<Rightarrow> bool" where
  "shipped_stage_6 f \<longleftrightarrow> run_stage_6 False False f"

section \<open>The constructor of the boot suite\<close>

datatype boot_error = Attribute_Error string | Assertion_Error nat

text \<open>The assertions in order: the method each calls on the suite, and whether the comparison holds for the
  catalogue's function of that name.\<close>

definition constructor_asserts :: "(string \<times> bool) list" where
  "constructor_asserts =
     [(''equation_propellant_mixer_torque'', equation_propellant_mixer_torque 1.2 5 0.4 > 0),
      (''equation_comm_packet_latency'', equation_comm_packet_latency 10 15 = 0.2),
      (''equation_rail_braking_force'', equation_rail_braking_force 50000 10 50 = 50000),
      (''equation_space_command_radar_range'', equation_space_command_radar_range 0.002 = 299792.458 * 1000 / 2),
      (''equation_y2k_time_delta'', snd (equation_y2k_time_delta 99 0) = True),
      (''equation_aegis_phase_steer'', (case equation_aegis_phase_steer 0.15 0.5 0.03 of Some x \<Rightarrow> x > 0 | None \<Rightarrow> False)),
      (''equation_white_house_crypto_xor'', equation_white_house_crypto_xor 65 12 = 73),
      (''equation_battleship_synchro_resolver'',
         equation_battleship_synchro_resolver 90 (radians 45) 0 = 90 * sin (radians 45)),
      (''equation_qualcomm_cdma_gain'', equation_qualcomm_cdma_gain 1228800 9600 = Some (10 * log 10 128))]"

text \<open>\<open>attrs\<close> says which names are attributes of the suite; \<open>None\<close>: the constructor returns.\<close>

fun run_asserts :: "(string \<Rightarrow> bool) \<Rightarrow> nat \<Rightarrow> (string \<times> bool) list \<Rightarrow> boot_error option" where
  "run_asserts attrs i [] = None"
| "run_asserts attrs i ((name, holds) # rest) =
     (if \<not> attrs name then Some (Attribute_Error name)
      else if \<not> holds then Some (Assertion_Error i)
      else run_asserts attrs (Suc i) rest)"

definition boot_suite_init :: "(string \<Rightarrow> bool) \<Rightarrow> boot_error option" where
  "boot_suite_init attrs = run_asserts attrs 0 constructor_asserts"

definition shipped_attrs :: "string \<Rightarrow> bool" where
  "shipped_attrs name \<longleftrightarrow> name \<in> {''log_dir'', ''compliance_ledgers'', ''verify_cryptographic_ledger_integrity'',
     ''execute_full_suite'', ''run_stage_6_network_identity_manifest_test''}"

section \<open>The port table is all or nothing\<close>

lemma collect_ports_None: "collect_ports nt kvs acc = None \<longleftrightarrow> (\<exists>e \<in> set kvs. port_entry nt (snd e) = None)"
proof (induction kvs arbitrary: acc)
  case (Cons e kvs)
  obtain k c where e: "e = (k, c)" by fastforce
  show ?case
  proof (cases "port_entry nt c")
    case (Some hg)
    then show ?thesis using Cons.IH by (cases hg) (simp add: e del: not_None_eq)
  qed (simp add: e)
qed simp

lemma collect_ports_map:
  "collect_ports nt kvs acc = Some ps \<Longrightarrow>
     map_of ps = map_of acc ++ map_of (rev (map (the \<circ> port_entry nt \<circ> snd) kvs))
     \<and> (distinct (map fst acc) \<longrightarrow> distinct (map fst ps))"
proof (induction kvs arbitrary: acc)
  case (Cons e kvs)
  obtain k c where e: "e = (k, c)" by fastforce
  with Cons.prems obtain h g where p: "port_entry nt c = Some (h, g)"
    "collect_ports nt kvs (AList.update h g acc) = Some ps" by (auto split: option.splits)
  from Cons.IH [OF p(2)] show ?case
    by (auto simp: e p(1) update_conv' distinct_update map_add_assoc [symmetric] intro: ext)
       (auto simp: map_add_def fun_eq_iff split: option.splits)
qed (simp add: map_add_def fun_eq_iff split: option.split)

text \<open>The serial validator's port table is all or nothing: one entry of the manifest it cannot read empties the
  whole table; otherwise every entry is in it, under distinct handles, the later of two entries
  with the same handle winning.\<close>

theorem port_table_all_or_nothing:
  assumes "serial_map data = Some kvs"
  shows "load_frozen_ports_from_manifest nt (Document data) = [] \<and> (\<exists>e \<in> set kvs. port_entry nt (snd e) = None)
    \<or> map_of (load_frozen_ports_from_manifest nt (Document data)) = map_of (rev (map (the \<circ> port_entry nt \<circ> snd) kvs))
      \<and> distinct (map fst (load_frozen_ports_from_manifest nt (Document data)))
      \<and> list_all (\<lambda>e. port_entry nt (snd e) \<noteq> None) kvs"
proof (cases "collect_ports nt kvs []")
  case None
  then show ?thesis using assms collect_ports_None [of nt kvs "[]"] by (simp add: load_frozen_ports_from_manifest_def)
next
  case (Some ps)
  then show ?thesis
    using assms collect_ports_None [of nt kvs "[]"] collect_ports_map [OF Some]
    by (auto simp: load_frozen_ports_from_manifest_def list_all_iff)
qed

definition one_port_manifest :: json where
  "one_port_manifest = JObj [(''hardware_abstraction_layer'', JObj [(''serial_ports'', JObj [(''true_heading_compass'',
     JObj [(''linux_handle'', JStr ''/dev/ttyUSB0''), (''baud_rate'', JInt 4800), (''protocol_standard'', JStr ''NMEA-0183'')])])])]"

theorem port_table_all_or_nothing_witness:
  "map_of (load_frozen_ports_from_manifest False (Document one_port_manifest)) (JStr ''/dev/ttyUSB0'')
    = Some \<lparr>baud = 4800, port_id = ''NMEA-0183''\<rparr>"
proof -
  let ?e = "JObj [(''linux_handle'', JStr ''/dev/ttyUSB0''), (''baud_rate'', JInt 4800), (''protocol_standard'', JStr ''NMEA-0183'')]"
  have m: "serial_map one_port_manifest = Some [(''true_heading_compass'', ?e)]"
    by (simp add: serial_map_def one_port_manifest_def json_get_dict_def)
  have e: "port_entry False ?e = Some (JStr ''/dev/ttyUSB0'', \<lparr>baud = 4800, port_id = ''NMEA-0183''\<rparr>)"
    by (simp add: port_entry_def json_field_def first_word_def is_space_def Let_def)
  show ?thesis using port_table_all_or_nothing [OF m, of False] by (simp add: e)
qed

text \<open>A manifest that cannot be read makes the verification suite report no port at all, rather than a failure.\<close>

lemma corrupt_manifest_reports_nothing:
  assumes "serial_map data = None \<or> (\<exists>kvs. serial_map data = Some kvs \<and> (\<exists>e \<in> set kvs. port_entry nt (snd e) = None))"
  shows "hardware_verification nt (Document data) hw n = []"
proof -
  have "(do { kvs \<leftarrow> serial_map data; collect_ports nt kvs [] }) = None"
    using assms by (auto simp: bind_eq_None_conv collect_ports_None simp del: not_None_eq)
  then have "load_frozen_ports_from_manifest nt (Document data) = []"
    by (simp add: load_frozen_ports_from_manifest_def del: bind_eq_None_conv)
  then show ?thesis by (simp add: hardware_verification_def execute_complete_hardware_verification_def)
qed

section \<open>Stage 6\<close>

lemma oui_shape_bytes:
  assumes "oui_shape t"
  shows "\<exists>x y z. fromhex (filter (\<lambda>c. c \<noteq> CHR '':'') t) = Some [x, y, z]"
    and "\<exists>x y z. fromhex (filter (\<lambda>c. c \<noteq> CHR '':'') (t @ [CHR 0x0A])) = Some [x, y, z]"
proof -
  have hex: "is_hex c \<Longrightarrow> c \<noteq> CHR '':'' \<and> \<not> is_space c" for c by (auto simp: is_hex_def is_digit_def is_space_def Let_def)
  from assms obtain a b d e g h where t: "t = [a, b, CHR '':'', d, e, CHR '':'', g, h]"
    and l: "list_all is_hex [a, b, d, e, g, h]"
    by (auto simp: oui_shape_def split: list.splits)
  have n: "is_space (CHR 0x0A)" by (simp add: is_space_def)
  show "\<exists>x y z. fromhex (filter (\<lambda>c. c \<noteq> CHR '':'') t) = Some [x, y, z]"
    "\<exists>x y z. fromhex (filter (\<lambda>c. c \<noteq> CHR '':'') (t @ [CHR 0x0A])) = Some [x, y, z]"
    using l hex n by (simp_all add: t)
qed

lemma matching_prefix_bytes:
  assumes "matches_oui s"
  shows "\<exists>x y z. fromhex (filter (\<lambda>c. c \<noteq> CHR '':'') s) = Some [x, y, z]"
proof (cases "oui_shape s")
  case False
  with assms have "s = butlast s @ [CHR 0x0A]" "oui_shape (butlast s)"
    by (auto simp: matches_oui_def) (metis append_butlast_last_id)
  then show ?thesis using oui_shape_bytes(2) by metis
qed (rule oui_shape_bytes(1))

lemma stage_6_verdict:
  "\<not> shipped_stage_6 f
   \<and> (run_stage_6 True True f \<longleftrightarrow>
        (\<exists>data registry. f = Document data \<and> class_registry data = Some registry
          \<and> list_all (class_passes True registry) required_classes))"
  by (auto simp: shipped_stage_6_def run_stage_6_def split: config_file.splits option.splits)

lemma passing_class_has_address:
  assumes "class_passes re_bound registry cls"
  shows "\<exists>kvs e prefix mac. registry = JObj kvs \<and> map_of kvs cls = Some e \<and> json_field e ''oui_prefix'' = Some (JStr prefix)
    \<and> handshake_mac prefix dv mf = Some mac \<and> length mac = 6"
proof -
  obtain e p where e: "json_field registry cls = Some e" "json_field e ''oui_prefix'' = Some (JStr p)" "matches_oui p"
    using assms by (auto simp: class_passes_def bind_eq_Some_conv split: option.splits json.splits)
  obtain kvs where kvs: "registry = JObj kvs" "map_of kvs cls = Some e"
    using e(1) by (cases registry) (auto simp: json_field_def split: option.splits)
  then show ?thesis using e matching_prefix_bytes [OF e(3)] by (auto simp: handshake_mac_def)
qed

text \<open>A pass of stage 6 needs the attribute and the module the shipped file lacks, so the shipped suite never passes
  it; where it does pass, every required hull class has a prefix from which the network validator builds a
  six byte handshake address, so the check guards what the handshake relies on.\<close>

theorem stage_6_guards_handshake:
  assumes "run_stage_6 has_path re_bound f" and "cls \<in> set required_classes"
  shows "has_path \<and> re_bound \<and> \<not> shipped_stage_6 f
    \<and> (\<exists>data kvs e prefix mac. f = Document data \<and> class_registry data = Some (JObj kvs) \<and> map_of kvs cls = Some e
        \<and> json_field e ''oui_prefix'' = Some (JStr prefix) \<and> handshake_mac prefix dv mf = Some mac \<and> length mac = 6)"
proof -
  from assms(1) obtain data registry where f: "has_path" "f = Document data" "class_registry data = Some registry"
    "list_all (class_passes re_bound registry) required_classes"
    by (auto simp: run_stage_6_def split: config_file.splits option.splits)
  with assms(2) have c: "class_passes re_bound registry cls" by (auto simp: list_all_iff)
  then have "re_bound" by (auto simp: class_passes_def split: option.splits json.splits)
  with f passing_class_has_address [OF c, of dv mf] show ?thesis by (auto simp: stage_6_verdict)
qed

definition aegis_manifest :: json where
  "aegis_manifest = JObj [(''tactical_network_identity_matrix'', JObj [(''class_specific_oui_registry'', JObj
     [(''early_aegis_cruiser'', JObj [(''oui_prefix'', JStr ''00:00:A3'')]),
      (''early_aegis_destroyer'', JObj [(''oui_prefix'', JStr ''00:01:4A'')]),
      (''enterprise_carrier'', JObj [(''oui_prefix'', JStr ''00:1D:6E'')])])])]"

lemma aegis_manifest_passes: "run_stage_6 True True (Document aegis_manifest)"
  by (simp add: run_stage_6_def aegis_manifest_def class_registry_def json_get_dict_def required_classes_def
      class_passes_def json_field_def matches_oui_def oui_shape_def is_hex_def is_digit_def)

theorem stage_6_guards_handshake_witness:
  "\<not> shipped_stage_6 (Document aegis_manifest)
   \<and> (\<exists>kvs e prefix mac. class_registry aegis_manifest = Some (JObj kvs) \<and> map_of kvs ''enterprise_carrier'' = Some e
        \<and> json_field e ''oui_prefix'' = Some (JStr prefix) \<and> handshake_mac prefix 1 0 = Some mac \<and> length mac = 6)"
  using stage_6_guards_handshake [OF aegis_manifest_passes, of "''enterprise_carrier''" 1 0]
  by (auto simp: required_classes_def)

section \<open>The constructor\<close>

lemma assert_values: "map snd constructor_asserts = [True, True, True, False, True, True, False, True, True]"
proof -
  have aegis: "0 < 2 * pi * 0.15 * sin 0.5 / (0.03 :: real)"
  proof -
    have "0 < sin (0.5 :: real)" using pi_ge_two by (intro sin_gt_zero) simp_all
    then show ?thesis by simp
  qed
  have xor: "equation_white_house_crypto_xor 65 12 = 77" by (simp add: equation_white_house_crypto_xor_def)
  show ?thesis
    using aegis
    by (simp add: constructor_asserts_def xor equation_propellant_mixer_torque_def equation_comm_packet_latency_def
        equation_rail_braking_force_def equation_space_command_radar_range_def equation_y2k_time_delta_def
        equation_aegis_phase_steer_def equation_battleship_synchro_resolver_def equation_qualcomm_cdma_gain_def)
qed

text \<open>The boot suite cannot be constructed: as shipped its first assertion calls a method the class does not have;
  with any other set of attributes the constructor still raises, because even with the whole catalogue mixed
  in, two of its assertions, on the radar range and on the exclusive or, are false.\<close>

theorem boot_suite_never_constructed:
  "boot_suite_init shipped_attrs = Some (Attribute_Error ''equation_propellant_mixer_torque'')
   \<and> boot_suite_init attrs \<noteq> None
   \<and> boot_suite_init (\<lambda>_. True) = Some (Assertion_Error 3)
   \<and> map fst (filter (Not \<circ> snd) constructor_asserts)
      = [''equation_space_command_radar_range'', ''equation_white_house_crypto_xor'']"
proof -
  obtain b1 b2 b3 b4 b5 b6 b7 b8 b9 where l: "constructor_asserts =
     [(''equation_propellant_mixer_torque'', b1), (''equation_comm_packet_latency'', b2),
      (''equation_rail_braking_force'', b3), (''equation_space_command_radar_range'', b4),
      (''equation_y2k_time_delta'', b5), (''equation_aegis_phase_steer'', b6),
      (''equation_white_house_crypto_xor'', b7), (''equation_battleship_synchro_resolver'', b8),
      (''equation_qualcomm_cdma_gain'', b9)]" by (simp add: constructor_asserts_def)
  have b: "b1" "b2" "b3" "\<not> b4" "b5" "b6" "\<not> b7" "b8" "b9" using assert_values by (simp_all add: l)
  show ?thesis by (simp add: boot_suite_init_def l b shipped_attrs_def)
qed

end
