(* ===== verification/Consoles.thy ===== *)
theory Consoles
  imports Bridge_Router Authority
begin

text \<open>
  The two operator consoles that parse, \<open>bilge_monitor_dashboard.py\<close> and \<open>flag_alert_console.py\<close>:
  their registers, one refresh tick of each (the window toolkit calls it every 50 ms), the pixels
  it paints as the list of \<open>put\<close> calls on the blanked image, and the text it writes. The clock
  readings and the random choices of a tick are its arguments; widgets, fonts and layout are not modelled.
\<close>

section \<open>Numbers of a feed, painting and text\<close>

type_synonym rect = "int \<times> int \<times> int \<times> int"
type_synonym draw = "string \<times> rect"

fun pn_map :: "(real \<Rightarrow> real) \<Rightarrow> pynum \<Rightarrow> pynum" where
  "pn_map f (Fin v) = Fin (f v)"
| "pn_map f v = v"

text \<open>\<open>max(lo, min(hi, x))\<close>: every comparison with \<open>nan\<close> is false, so \<open>min\<close> keeps its first argument.\<close>

fun pn_clamp :: "real \<Rightarrow> real \<Rightarrow> pynum \<Rightarrow> real" where
  "pn_clamp lo hi (Fin v) = clamp lo hi v"
| "pn_clamp lo hi NegInf = lo"
| "pn_clamp lo hi PosInf = max lo hi"
| "pn_clamp lo hi NaN = max lo hi"

fun at_least :: "real \<Rightarrow> pynum \<Rightarrow> bool" where
  "at_least b (Fin v) \<longleftrightarrow> b \<le> v"
| "at_least b PosInf \<longleftrightarrow> True"
| "at_least b NegInf \<longleftrightarrow> False"
| "at_least b NaN \<longleftrightarrow> False"

lemma pn_clamp_range: "lo \<le> hi \<Longrightarrow> lo \<le> pn_clamp lo hi v \<and> pn_clamp lo hi v \<le> hi"
  by (cases v) auto

definition text_line :: "string \<Rightarrow> string" where
  "text_line s = s @ [CHR 0x0A]"

text \<open>\<open>f"{x:w.nf}"\<close>\<close>

definition fmt_width :: "nat \<Rightarrow> nat \<Rightarrow> pynum \<Rightarrow> string" where
  "fmt_width w n v =
     (let s = (case v of Fin x \<Rightarrow> fmt_fixed n x | PosInf \<Rightarrow> ''inf'' | NegInf \<Rightarrow> ''-inf'' | NaN \<Rightarrow> ''nan'')
      in replicate (w - length s) CHR '' '' @ s)"

text \<open>\<open>int(t * k) % 2 == 0\<close>\<close>

definition even_phase :: "real \<Rightarrow> real \<Rightarrow> bool" where
  "even_phase k t \<longleftrightarrow> py_int (t * k) mod 2 = 0"

lemma even_phase_step: "0 < k \<Longrightarrow> 0 \<le> t \<Longrightarrow> even_phase k (t + 1 / k) \<longleftrightarrow> \<not> even_phase k t"
proof -
  assume k: "0 < k" and t: "0 \<le> t"
  then have "(t + 1 / k) * k = t * k + 1" by (simp add: distrib_right)
  then have "py_int ((t + 1 / k) * k) = py_int (t * k) + 1" using k t by (simp add: py_int_def)
  then show ?thesis by (simp add: even_phase_def) presburger
qed

fun inside :: "int \<Rightarrow> draw \<Rightarrow> bool" where
  "inside n (c, x0, y0, x1, y1) \<longleftrightarrow> 0 \<le> x0 \<and> x0 \<le> x1 \<and> x1 \<le> n \<and> 0 \<le> y0 \<and> y0 \<le> y1 \<and> y1 \<le> n"

section \<open>BilgeMonitorDashboard\<close>

record dashboard =
  shown_authority :: string
  oil_ppm :: pynum
  discharged_shown :: real
  overboard_shown :: int
  recirc_shown :: int
  shown_source :: string
  dash_screen :: "draw list"
  dash_text :: string

definition dashboard_init :: dashboard where
  "dashboard_init = \<lparr>shown_authority = ''UNIVAC'', oil_ppm = Fin 2.4, discharged_shown = 142.5,
     overboard_shown = 1, recirc_shown = 0, shown_source = ''UNIVAC_MAINFRAME_PASS_THROUGH'',
     dash_screen = [], dash_text = []\<rparr>"

definition ppm_bar_height :: "pynum \<Rightarrow> int" where
  "ppm_bar_height v = py_int (pn_clamp 0 250 (pn_map (\<lambda>x. (x / 20) * 250) v))"

definition gauge_color :: "real \<Rightarrow> pynum \<Rightarrow> string" where
  "gauge_color now v = (if at_least 14.8 v then if even_phase 2 now then ''#ff0000'' else ''#330000'' else ''#00ff00'')"

definition ceiling_y :: int where
  "ceiling_y = 350 - py_int ((15 / 20) * 250)"

definition render_environmental_graphics_buffer :: "real \<Rightarrow> dashboard \<Rightarrow> draw list" where
  "render_environmental_graphics_buffer now d =
     (let cy = 400 div 2
      in [(gauge_color now (oil_ppm d), 40, 350 - ppm_bar_height (oil_ppm d), 90, 350),
          (''#ff3333'', 30, ceiling_y, 100, ceiling_y + 2),
          (if overboard_shown d = 1 then ''#00ff00'' else ''#003300'', 150, cy - 15, 350, cy + 15),
          (if recirc_shown d = 1 then ''#ffcc00'' else ''#003300'', 220, cy + 15, 250, 350)])"

definition gating_text :: "pynum \<Rightarrow> string" where
  "gating_text v = (if at_least 14.8 v then ''[ INTERLOCK BLOCKED ]'' else ''[ CLEAR / SECURE ]'')"

definition dashboard_report :: "real \<Rightarrow> dashboard \<Rightarrow> string" where
  "dashboard_report now d =
     concat (map text_line
       [replicate 44 CHR ''='',
        ''SYSTEM TIME METRIC:     '' @ fmt_fixed 3 now,
        ''ACTIVE CONTROL MODE:    '' @ shown_authority d,
        ''BUS ROUTING SOURCE:     '' @ shown_source d,
        replicate 44 CHR ''='',
        ''OIL CONCENTRATION:      '' @ fmt_width 8 2 (oil_ppm d) @ '' PPM'',
        ''LEGAL DISCHARGE LIMIT:      15.00 PPM'',
        ''SAFETY SYSTEM GATING:   '' @ gating_text (oil_ppm d),
        replicate 44 CHR ''-'',
        ''OVERBOARD ACCUMULATOR:  '' @ int_str (overboard_shown d),
        ''RECIRCULATION RE-ROUTE: '' @ int_str (recirc_shown d),
        ''TOTAL AUDITED DISCHARGE: '' @ fmt_width 8 1 (Fin (discharged_shown d)) @ '' L'',
        replicate 44 CHR ''='',
        ''STATUS: Environmental audit logging stream'',
        ''active. Capturing multi-source parameters''])
     @ ''independently of active command node choices.''"

text \<open>
  The part of the synchronized telemetry the dashboard reads: the oil content, and below
  \<open>upstream_autonomy_telemetry\<close> the report of the discharge gate and that of the authority router.
\<close>

record sync_feed =
  feed_oil :: "pynum option"
  feed_bilge :: "bilge_report option"
  feed_authority :: "resolved_valves option"

definition ingest_feed :: "sync_feed \<Rightarrow> dashboard \<Rightarrow> dashboard" where
  "ingest_feed f d =
     d\<lparr>oil_ppm := (case feed_oil f of None \<Rightarrow> Fin 2.4 | Some v \<Rightarrow> v),
       shown_authority := (case feed_authority f of None \<Rightarrow> ''UNIVAC'' | Some a \<Rightarrow> resolved_mode a),
       shown_source := (case feed_authority f of None \<Rightarrow> ''UNIVAC_MAINFRAME_PASS_THROUGH'' | Some a \<Rightarrow> routing_source_string a),
       overboard_shown := (case feed_authority f of None \<Rightarrow> 0 | Some a \<Rightarrow> py_int (resolved_overboard_valve_open a)),
       recirc_shown := (case feed_authority f of None \<Rightarrow> 0 | Some a \<Rightarrow> py_int (resolved_recirculation_valve_open a)),
       discharged_shown := (case feed_bilge f of None \<Rightarrow> 0 | Some b \<Rightarrow> total_clean_water_discharged_liters b)\<rparr>"

text \<open>Without a router the tick walks the oil content and invents the source.\<close>

definition simulate_feed :: "real \<Rightarrow> string \<Rightarrow> dashboard \<Rightarrow> dashboard" where
  "simulate_feed oil_choice mode_choice d =
     (let oil = pn_clamp 0.5 19 (pn_map (\<lambda>x. x + oil_choice) (oil_ppm d));
          d = d\<lparr>oil_ppm := Fin oil\<rparr>;
          d = (if oil \<ge> 14.8
               then d\<lparr>shown_authority := ''REPLACEMENT'', shown_source := ''OUR_CORE_PHYSICS_LOOP'',
                      overboard_shown := 0, recirc_shown := 1\<rparr>
               else d\<lparr>shown_authority := mode_choice, shown_source := mode_choice @ ''_ACTIVE_BUS_LINK'',
                      overboard_shown := 1, recirc_shown := 0\<rparr>)
      in d\<lparr>discharged_shown := discharged_shown d + (if overboard_shown d = 1 then 5 * 0.05 else 0)\<rparr>)"

text \<open>
  What a tick reads: a telemetry feed, or the random choices of the simulation. The second and
  third arguments of the tick are the clock readings of the painting and of the text.
\<close>

datatype dash_input = Routed sync_feed | Simulated real string

fun dash_ingest :: "dash_input \<Rightarrow> dashboard \<Rightarrow> dashboard" where
  "dash_ingest (Routed f) d = ingest_feed f d"
| "dash_ingest (Simulated c m) d = simulate_feed c m d"

definition blit_refresh_tick :: "dash_input \<Rightarrow> real \<Rightarrow> real \<Rightarrow> dashboard \<Rightarrow> dashboard" where
  "blit_refresh_tick i now now' d =
     (let d = dash_ingest i d
      in d\<lparr>dash_screen := render_environmental_graphics_buffer now d, dash_text := dashboard_report now' d\<rparr>)"

text \<open>
  The router's own cache as a feed. Its values are numbers, so a value under the nested key
  would have no method \<open>get\<close> and the tick would raise.
\<close>

definition router_feed :: "cache \<Rightarrow> sync_feed option" where
  "router_feed c =
     (case c ''upstream_autonomy_telemetry'' of
        Some v \<Rightarrow> None
      | None \<Rightarrow> Some \<lparr>feed_oil = c ''oil_content_ppm'', feed_bilge = None, feed_authority = None\<rparr>)"

definition router_tick :: "router \<Rightarrow> real \<Rightarrow> real \<Rightarrow> dashboard \<Rightarrow> dashboard option" where
  "router_tick r now now' d =
     (case router_feed (get_synchronized_telemetry r) of
        None \<Rightarrow> None | Some f \<Rightarrow> Some (blit_refresh_tick (Routed f) now now' d))"

section \<open>What the router publishes\<close>

definition sensor_keys :: "string set" where
  "sensor_keys = {''rpm'', ''depth'', ''speed_ms'', ''bow_sensor_meters'', ''yaw_rate_rads'', ''roll_angle_rad'',
     ''roll_rate_rads'', ''distance_to_bank_meters'', ''rudder_deg''}"

definition feedback_keys :: "string set" where
  "feedback_keys = {''rudder_deg'', ''hardware_fault_triggered''}"

definition cache_shape :: "router \<Rightarrow> bool" where
  "cache_shape r \<longleftrightarrow> sensor_keys \<subseteq> dom (telemetry_cache (r_parser r))
     \<and> dom (telemetry_cache (r_parser r)) \<subseteq> insert ''hardware_fault_triggered'' sensor_keys
     \<and> dom (own_cache r) \<subseteq> feedback_keys"

lemma dom_set_cache [simp]: "dom (telemetry_cache (set_cache k v p)) = insert k (dom (telemetry_cache p))"
  by (auto simp: set_cache_def)

lemma dom_heading_update:
  "dom (telemetry_cache p) \<subseteq> dom (telemetry_cache (heading_update p d t))"
  "dom (telemetry_cache (heading_update p d t)) \<subseteq> insert ''yaw_rate_rads'' (dom (telemetry_cache p))"
  by (auto simp: heading_update_def set_cache_def Let_def split: option.split if_splits)

lemma dom_parse_fields:
  "parse_fields p parts t = Some p' \<Longrightarrow> dom (telemetry_cache p) \<subseteq> dom (telemetry_cache p')
     \<and> dom (telemetry_cache p') \<subseteq> {''yaw_rate_rads'', ''depth'', ''speed_ms''} \<union> dom (telemetry_cache p)"
  using dom_heading_update [of p _ t]
  by (drule_tac parse_fields_cases) (elim disjE exE conjE; simp only: dom_set_cache; blast)

lemma dom_parse_sentence:
  "dom (telemetry_cache p) \<subseteq> dom (telemetry_cache (parse_sentence p l t))"
  "dom (telemetry_cache (parse_sentence p l t)) \<subseteq> {''yaw_rate_rads'', ''depth'', ''speed_ms''} \<union> dom (telemetry_cache p)"
  using dom_parse_fields [of p "sentence_fields (py_strip l)" t]
  by (simp_all add: parse_sentence_def Let_def split: option.split) blast+

lemma sensor_keys_mem [simp]: "''yaw_rate_rads'' \<in> sensor_keys" "''depth'' \<in> sensor_keys" "''speed_ms'' \<in> sensor_keys"
    "''rudder_deg'' \<in> sensor_keys" "''hardware_fault_triggered'' \<in> feedback_keys" "''rudder_deg'' \<in> feedback_keys"
  by (simp_all add: sensor_keys_def feedback_keys_def)

lemma cache_shape_write:
  "cache_shape r \<Longrightarrow> k \<in> feedback_keys \<Longrightarrow> cache_shape (write_live k v r)"
  by (auto simp: cache_shape_def write_live_def feedback_keys_def)

lemma cache_shape_step: "cache_shape r \<Longrightarrow> cache_shape (router_step r e)"
proof (cases e)
  case (Serial_Line l t)
  assume "cache_shape r"
  then show ?thesis
    using dom_parse_sentence [of "r_parser r" l t] sensor_keys_mem(1-3)
    unfolding Serial_Line cache_shape_def router_step.simps ingest_raw_serial_line_def by (simp del: sensor_keys_mem) blast
next
  case (Feedback_Line l dt)
  assume "cache_shape r"
  then have "cache_shape (r\<lparr>r_receiver := rc\<rparr>)" for rc by (simp add: cache_shape_def)
  then show ?thesis
    by (simp add: Feedback_Line ingest_hardware_feedback_line_def Let_def cache_shape_write)
qed (simp_all add: cache_shape_def route_calculated_loop_outputs_def start_router_services_def stop_router_services_def)

lemma cache_shape_run: "cache_shape (router_run (router_init code) es)"
proof (induction es rule: rev_induct)
  case Nil
  then show ?case by (auto simp: cache_shape_def router_init_def nmea_parser_init_def sensor_keys_def)
qed (simp add: cache_shape_step)

text \<open>Property C25. The synchronized telemetry has a fixed shape: from the first sensor line on all nine
  sensor quantities are present, so a consumer that indexes them never meets a missing key, and
  nothing but the fault flag is ever added; before that line only what the rudder feedback wrote is there.
\<close>

theorem telemetry_shape:
  "let c = get_synchronized_telemetry (router_run (router_init code) es)
   in if \<exists>e \<in> set es. is_serial e
      then sensor_keys \<subseteq> dom c \<and> dom c \<subseteq> insert ''hardware_fault_triggered'' sensor_keys
      else dom c \<subseteq> feedback_keys"
proof -
  have "aliased (router_run (router_init code) es) \<longleftrightarrow> (\<exists>e \<in> set es. is_serial e)"
    using aliased_run [of "router_init code" es] by (simp add: router_init_def)
  then show ?thesis
    using cache_shape_run [of code es]
    by (simp add: cache_shape_def get_synchronized_telemetry_def live_telemetry_cache_def Let_def)
qed

lemma router_feed_empty:
  "router_feed (get_synchronized_telemetry (router_run (router_init code) es)) =
     Some \<lparr>feed_oil = None, feed_bilge = None, feed_authority = None\<rparr>"
proof -
  let ?r = "router_run (router_init code) es"
  have "dom (get_synchronized_telemetry ?r) \<subseteq> insert ''hardware_fault_triggered'' sensor_keys"
    using cache_shape_run [of code es] sensor_keys_mem(4)
    unfolding cache_shape_def get_synchronized_telemetry_def live_telemetry_cache_def feedback_keys_def by auto
  then have "k \<notin> insert ''hardware_fault_triggered'' sensor_keys \<Longrightarrow> get_synchronized_telemetry ?r k = None" for k
    by blast
  then show ?thesis by (simp add: router_feed_def sensor_keys_def)
qed

text \<open>A dashboard attached to the network router is blind to the ship: whatever sensor lines,
  engine outputs and feedback reports the router has seen, every tick shows 2.40 ppm, both valves
  closed, no litre discharged and the mainframe in command, and its gating line reads clear,
  because nothing in the router writes the keys the dashboard asks for.
\<close>

theorem dashboard_blind_to_router:
  "\<exists>d'. router_tick (router_run (router_init code) es) now now' d = Some d'
     \<and> oil_ppm d' = Fin 2.4 \<and> overboard_shown d' = 0 \<and> recirc_shown d' = 0 \<and> discharged_shown d' = 0
     \<and> shown_authority d' = ''UNIVAC'' \<and> gating_text (oil_ppm d') = ''[ CLEAR / SECURE ]''
     \<and> gauge_color now (oil_ppm d') = ''#00ff00''"
  by (auto simp: router_tick_def router_feed_empty blit_refresh_tick_def ingest_feed_def gating_text_def
      render_environmental_graphics_buffer_def gauge_color_def Let_def)

section \<open>The gauge\<close>

lemma ceiling_y_val: "ceiling_y = 163"
proof -
  have "\<lfloor>(15 / 20) * 250 :: real\<rfloor> = 187" by (simp add: floor_eq_iff)
  then show ?thesis by (simp add: ceiling_y_def py_int_def)
qed

lemma py_int_range: "of_int a \<le> x \<Longrightarrow> x \<le> of_int b \<Longrightarrow> 0 \<le> x \<Longrightarrow> a \<le> py_int x \<and> py_int x \<le> b"
  by (simp add: py_int_def le_floor_iff) linarith

lemma ppm_bar_range: "0 \<le> ppm_bar_height v \<and> ppm_bar_height v \<le> 250"
  using pn_clamp_range [of 0 250 "pn_map (\<lambda>x. (x / 20) * 250) v"]
  by (simp add: ppm_bar_height_def py_int_range [of 0 _ 250])

lemma ppm_bar_at_limit: "15 \<le> x \<Longrightarrow> x \<le> 20 \<Longrightarrow> 187 \<le> ppm_bar_height (Fin x)"
  by (simp add: ppm_bar_height_def py_int_def le_floor_iff)

text \<open>Whatever number the oil sensor delivers, infinities and \<open>nan\<close> included, the dashboard
  paints inside its 400 by 400 image, and a finite reading at or above the legal 15 ppm fills
  the bar up to the limit line; the gauge leaves its green exactly when the text says blocked.
\<close>

theorem dashboard_paints_inside:
  "(\<forall>p \<in> set (dash_screen (blit_refresh_tick i now now' d)). inside 400 p)
   \<and> (15 \<le> x \<longrightarrow> 350 - ppm_bar_height (Fin x) \<le> ceiling_y)
   \<and> (gauge_color now v = ''#00ff00'' \<longleftrightarrow> gating_text v = ''[ CLEAR / SECURE ]'')"
proof -
  have "187 \<le> ppm_bar_height (Fin x)" if "15 \<le> x"
    using that by (simp add: ppm_bar_height_def py_int_def le_floor_iff clamp_def)
  moreover have "inside 400 (c, 40, 350 - ppm_bar_height u, 90, 350)" for c u
    using ppm_bar_range [of u] by simp
  ultimately show ?thesis
    by (auto simp: blit_refresh_tick_def render_environmental_graphics_buffer_def gauge_color_def gating_text_def
        ceiling_y_val Let_def simp del: inside.simps) (simp_all add: ceiling_y_val)
qed

theorem dashboard_paints_inside_witness: "350 - ppm_bar_height (Fin 18) \<le> ceiling_y"
  using dashboard_paints_inside [of "Simulated 0 ''UNIVAC''" 0 0 dashboard_init 18 NaN] by simp

section \<open>The simulation\<close>

definition sim_tick :: "dashboard \<Rightarrow> real \<times> string \<times> real \<times> real \<Rightarrow> dashboard" where
  "sim_tick d q = (case q of (c, m, now, now') \<Rightarrow> blit_refresh_tick (Simulated c m) now now' d)"

definition sim_consistent :: "dashboard \<Rightarrow> bool" where
  "sim_consistent d \<longleftrightarrow> 0.5 \<le> pn_clamp 0 100 (oil_ppm d) \<and> pn_clamp 0 100 (oil_ppm d) \<le> 19
     \<and> (overboard_shown d, recirc_shown d) = (if at_least 14.8 (oil_ppm d) then (0, 1) else (1, 0))"

lemma sim_tick_fields:
  defines "v \<equiv> \<lambda>c d. pn_clamp 0.5 19 (pn_map (\<lambda>x. x + c) (oil_ppm d))"
  shows "oil_ppm (sim_tick d (c, m, q)) = Fin (v c d)"
    "overboard_shown (sim_tick d (c, m, q)) = (if 14.8 \<le> v c d then 0 else 1)"
    "recirc_shown (sim_tick d (c, m, q)) = (if 14.8 \<le> v c d then 1 else 0)"
    "discharged_shown (sim_tick d (c, m, q)) = discharged_shown d + (if 14.8 \<le> v c d then 0 else 0.25)"
  by (simp_all add: v_def sim_tick_def blit_refresh_tick_def simulate_feed_def Let_def split: prod.split)

lemma sim_tick_consistent: "sim_consistent (sim_tick d q)"
proof (cases q)
  case (fields c m now now')
  have "0.5 \<le> pn_clamp 0.5 19 (pn_map (\<lambda>x. x + c) (oil_ppm d)) \<and> pn_clamp 0.5 19 (pn_map (\<lambda>x. x + c) (oil_ppm d)) \<le> 19"
    by (rule pn_clamp_range) simp
  then show ?thesis
    unfolding sim_consistent_def fields sim_tick_fields by (simp add: clamp_def)
qed

text \<open>Run without a router the dashboard never shows a forbidden discharge: whatever the
  random choices, the oil content stays within 0.5 and 19 ppm, exactly one valve is open and the
  overboard valve only below 14.8 ppm, and the shown total is 142.5 litres plus a quarter litre
  for each tick whose overboard valve was shown open.
\<close>

theorem dashboard_simulation_consistent:
  "sim_consistent (foldl sim_tick dashboard_init qs)
   \<and> discharged_shown (foldl sim_tick dashboard_init qs) =
       142.5 + 0.25 * card {k. k < length qs \<and> overboard_shown (foldl sim_tick dashboard_init (take (Suc k) qs)) = 1}"
proof (induction qs rule: rev_induct)
  case Nil
  then show ?case by (simp add: sim_consistent_def dashboard_init_def clamp_def)
next
  case (snoc q qs)
  let ?open = "\<lambda>xs k. overboard_shown (foldl sim_tick dashboard_init (take (Suc k) xs)) = 1"
  let ?d = "foldl sim_tick dashboard_init qs"
  have "{k. k < length (qs @ [q]) \<and> ?open (qs @ [q]) k} =
      {k. k < length qs \<and> ?open qs k} \<union> (if overboard_shown (sim_tick ?d q) = 1 then {length qs} else {})"
    by (auto simp: less_Suc_eq)
  moreover have "discharged_shown (sim_tick ?d q) =
      discharged_shown ?d + (if overboard_shown (sim_tick ?d q) = 1 then 0.25 else 0)"
    by (cases q) (simp add: sim_tick_fields)
  ultimately show ?case using snoc.IH sim_tick_consistent [of ?d q] by (simp add: card_insert_if)
qed

section \<open>FlagFaultTacticalConsole\<close>

record flag_console =
  active_flag_state :: string
  halyard_position_pct :: real
  flag_winch_fault_active :: bool
  last_sensor_update :: real
  flag_screen :: "draw list"
  flag_text :: string

definition flag_console_init :: "real \<Rightarrow> flag_console" where
  "flag_console_init now = \<lparr>active_flag_state = ''ENSIGN'', halyard_position_pct = 0, flag_winch_fault_active = False,
     last_sensor_update = now, flag_screen = [], flag_text = []\<rparr>"

definition fault_banner :: "real \<Rightarrow> draw list" where
  "fault_banner now =
     (let flash_state = even_phase 4 now;
          alert_color = (if flash_state then ''#ff0000'' else ''#220000'');
          border_color = (if flash_state then ''#ffffff'' else ''#ff0000'')
      in [(alert_color, 40, 40, 400 - 40, 100),
          (border_color, 38, 38, 400 - 38, 41),
          (border_color, 38, 99, 400 - 38, 102),
          (border_color, 38, 38, 41, 102),
          (border_color, 400 - 41, 38, 400 - 38, 102)])"

definition render_image_buffer_pixels :: "real \<Rightarrow> flag_console \<Rightarrow> draw list" where
  "render_image_buffer_pixels now f =
     (let cx = 400 div 2; cy = 400 div 2;
          halyard_height_px = py_int ((halyard_position_pct f / 100) * 200)
      in [(''#002200'', cx - 80, cy, cx + 80, cy + 1),
          (''#002200'', cx, cy - 80, cx, cy + 80),
          (''#00ff00'', cx - 10, cy + 100 - halyard_height_px, cx + 10, cy + 105 - halyard_height_px)]
         @ (if flag_winch_fault_active f then fault_banner now else []))"

definition trigger_mock_winch_fault :: "flag_console \<Rightarrow> flag_console" where
  "trigger_mock_winch_fault f = f\<lparr>flag_winch_fault_active := True, active_flag_state := ''FAULT_JAM''\<rparr>"

definition clear_mock_winch_fault :: "flag_console \<Rightarrow> flag_console" where
  "clear_mock_winch_fault f = f\<lparr>flag_winch_fault_active := False, active_flag_state := ''ENSIGN''\<rparr>"

definition flag_console_report :: "flag_console \<Rightarrow> string" where
  "flag_console_report f =
     concat (map text_line
       [''=== HALYARD SIGNAL REGISTRY SNAPSHOT ==='',
        ''TIMESTAMP CLOCK WHEEL: '' @ fmt_fixed 4 (last_sensor_update f),
        ''CURRENT HALYARD HEIGHT: '' @ fmt_fixed 1 (halyard_position_pct f) @ '' %'',
        ''SIGNAL ENVELOPE MODE:  '' @ active_flag_state f,
        replicate 40 CHR ''='',
        ''WINCH MOTOR INTEGRITY:  '' @ (if flag_winch_fault_active f then ''[ MECHANICAL_JAM_ALERT ]'' else ''[ NOMINAL HEALTHY ]''),
        ''HARDWARE CONTROL LOCK:  '' @ (if flag_winch_fault_active f then ''[ BRAKE OVERRIDE PIN ENGAGED ]'' else ''[ AUTOMATIC TRACKING ]''),
        replicate 40 CHR ''='',
        ''ALERT STATUS: High-visibility flash matrix'',
        ''runs embedded inside back-buffer pixels,'',
        ''guaranteeing alarm visibility during''])
     @ ''downstream communication link failures.''"

text \<open>One tick; \<open>now\<close> and \<open>now'\<close> are the clock readings of the halyard model and of the painting.\<close>

definition visual_blit_tick :: "real \<Rightarrow> real \<Rightarrow> flag_console \<Rightarrow> flag_console" where
  "visual_blit_tick now now' f =
     (let f = (if \<not> flag_winch_fault_active f
               then f\<lparr>halyard_position_pct := 50 + 5 * sin (now * 2)\<rparr>
               else f\<lparr>halyard_position_pct := 32.4\<rparr>);
          f = f\<lparr>flag_screen := render_image_buffer_pixels now' f\<rparr>
      in f\<lparr>flag_text := flag_console_report f\<rparr>)"

datatype console_event = Trigger_Fault | Clear_Fault | Blit_Tick real real

fun console_step :: "flag_console \<Rightarrow> console_event \<Rightarrow> flag_console" where
  "console_step f Trigger_Fault = trigger_mock_winch_fault f"
| "console_step f Clear_Fault = clear_mock_winch_fault f"
| "console_step f (Blit_Tick now now') = visual_blit_tick now now' f"

fun is_button :: "console_event \<Rightarrow> bool" where
  "is_button (Blit_Tick now now') \<longleftrightarrow> False"
| "is_button e \<longleftrightarrow> True"

text \<open>The specification: jammed exactly if the last button pressed was the trigger.\<close>

definition jam_pending :: "console_event list \<Rightarrow> bool" where
  "jam_pending es \<longleftrightarrow> filter is_button es \<noteq> [] \<and> last (filter is_button es) = Trigger_Fault"

lemma jam_pending_snoc [simp]:
  "\<not> jam_pending []" "jam_pending (es @ [Trigger_Fault])" "\<not> jam_pending (es @ [Clear_Fault])"
  "jam_pending (es @ [Blit_Tick now now']) \<longleftrightarrow> jam_pending es"
  by (simp_all add: jam_pending_def)

lemma console_registers:
  fixes t0 :: real
  defines "run \<equiv> foldl console_step (flag_console_init t0)"
  shows "flag_winch_fault_active (run es) \<longleftrightarrow> jam_pending es"
    "active_flag_state (run es) = (if jam_pending es then ''FAULT_JAM'' else ''ENSIGN'')"
    "last_sensor_update (run es) = t0"
proof (induction es rule: rev_induct)
  case (snoc e es)
  { case 1 show ?case using snoc by (cases e) (auto simp: run_def trigger_mock_winch_fault_def clear_mock_winch_fault_def visual_blit_tick_def Let_def) }
  { case 2 show ?case using snoc by (cases e) (auto simp: run_def trigger_mock_winch_fault_def clear_mock_winch_fault_def visual_blit_tick_def Let_def) }
  { case 3 show ?case using snoc by (cases e) (auto simp: run_def trigger_mock_winch_fault_def clear_mock_winch_fault_def visual_blit_tick_def Let_def) }
qed (simp_all add: run_def flag_console_init_def)

lemma tick_screen:
  "flag_screen (visual_blit_tick now now' f) = render_image_buffer_pixels now'
     (f\<lparr>halyard_position_pct := if flag_winch_fault_active f then 32.4 else 50 + 5 * sin (now * 2)\<rparr>)"
  "halyard_position_pct (visual_blit_tick now now' f) = (if flag_winch_fault_active f then 32.4 else 50 + 5 * sin (now * 2))"
  by (simp_all add: visual_blit_tick_def Let_def render_image_buffer_pixels_def)

lemma pixels_inside:
  assumes "0 \<le> halyard_position_pct f" "halyard_position_pct f \<le> 100" "p \<in> set (render_image_buffer_pixels now f)"
  shows "inside 400 p"
proof -
  have "0 \<le> py_int ((halyard_position_pct f / 100) * 200) \<and> py_int ((halyard_position_pct f / 100) * 200) \<le> 200"
    using assms by (intro py_int_range) simp_all
  then show ?thesis
    using assms(3) by (auto simp: render_image_buffer_pixels_def fault_banner_def Let_def split: if_splits)
qed

text \<open>After any mix of button presses and ticks the alarm banner is on the screen exactly if
  the last button pressed was the jam trigger; it is then painted last, over everything else, inside
  the image, and a tick a quarter of a second later shows it in the other colours, so it flashes.
  The clock shown is that of the start of the console for ever: no operation writes it.
\<close>

theorem flag_banner_exact:
  fixes t0 now now' :: real and es :: "console_event list"
  defines "f \<equiv> foldl console_step (flag_console_init t0) (es @ [Blit_Tick now now'])"
  shows "(if jam_pending es then drop 3 (flag_screen f) = fault_banner now' else drop 3 (flag_screen f) = [])
    \<and> (\<forall>p \<in> set (flag_screen f). inside 400 p)
    \<and> (0 \<le> now' \<longrightarrow> fault_banner (now' + 1 / 4) \<noteq> fault_banner now')
    \<and> last_sensor_update f = t0"
proof (intro conjI ballI impI)
  let ?f = "foldl console_step (flag_console_init t0) es"
  have f: "f = visual_blit_tick now now' ?f" by (simp add: f_def)
  have "flag_winch_fault_active ?f \<longleftrightarrow> jam_pending es" by (rule console_registers(1))
  then show "if jam_pending es then drop 3 (flag_screen f) = fault_banner now' else drop 3 (flag_screen f) = []"
    unfolding f tick_screen by (simp add: render_image_buffer_pixels_def Let_def)
  have "0 \<le> 50 + 5 * sin (now * 2)" "50 + 5 * sin (now * 2) \<le> 100"
    using sin_ge_minus_one [of "now * 2"] sin_le_one [of "now * 2"] by linarith+
  then show "inside 400 p" if "p \<in> set (flag_screen f)" for p
    using that unfolding f tick_screen by (elim pixels_inside [rotated 2]) simp_all
  show "fault_banner (now' + 1 / 4) \<noteq> fault_banner now'" if "0 \<le> now'"
    using even_phase_step [OF _ that, of 4] by (simp add: fault_banner_def Let_def)
  show "last_sensor_update f = t0" unfolding f_def by (rule console_registers(3))
qed

theorem flag_banner_exact_witness:
  "drop 3 (flag_screen (foldl console_step (flag_console_init 0) ([Clear_Fault, Trigger_Fault, Blit_Tick 1 1] @ [Blit_Tick 2 2]))) = fault_banner 2
   \<and> fault_banner (2 + 1 / 4) \<noteq> fault_banner 2"
  using flag_banner_exact [where ?t0.0 = 0 and es = "[Clear_Fault, Trigger_Fault, Blit_Tick 1 1]" and now = 2 and now' = 2] by (simp add: jam_pending_def)

end
