(* ===== verification/Serial_Listener.thy ===== *)
theory Serial_Listener
  imports Loopback Bridge_Router
begin

text \<open>
  The life cycle of the serial listener (\<open>network_layer/serial_port_listener.py\<close>) and its
  connection to the router: reader threads that open the port, read lines, fall asleep for three
  seconds after a fault or run the emulation, and a control thread that starts and stops them. What the
  port does (a line, a time-out, a fault) and how the threads interleave are the events.
  \<open>stop_listening\<close> waits two seconds for the newest reader: a reader asleep after a fault can
  outlast that, any other ends within it, since the read time-out is one second.
\<close>

section \<open>State and operations\<close>

text \<open>
  Where a reader thread is: at the head of its loop, blocked in \<open>readline\<close>, in its three seconds of
  sleep, in the pause of the emulation with the heading it has reached, or over.
\<close>

datatype reader = Loop_Head | Blocked | Asleep | Emulating real | Finished

datatype connection_state = No_Connection | Open_Connection | Closed_Connection

record listener =
  is_listening :: bool
  stopping :: bool
  serial_connection :: connection_state
  readers :: "reader list"
  fed_router :: router

definition listener_init :: "router \<Rightarrow> listener" where
  "listener_init r = \<lparr>is_listening = False, stopping = False, serial_connection = No_Connection,
     readers = [], fed_router = r\<rparr>"

definition reader_at :: "listener \<Rightarrow> nat \<Rightarrow> reader" where
  "reader_at s i = (if i < length (readers s) then readers s ! i else Finished)"

definition set_reader :: "nat \<Rightarrow> reader \<Rightarrow> listener \<Rightarrow> listener" where
  "set_reader i p s = s\<lparr>readers := (readers s)[i := p]\<rparr>"

definition forward :: "string \<Rightarrow> real \<Rightarrow> listener \<Rightarrow> listener" where
  "forward l now s = s\<lparr>fed_router := ingest_raw_serial_line (fed_router s) l now\<rparr>"

text \<open>The handler of a fault: the connection is dropped and the reader sleeps.\<close>

definition drop_connection :: "nat \<Rightarrow> listener \<Rightarrow> listener" where
  "drop_connection i s = set_reader i Asleep (s\<lparr>serial_connection := No_Connection\<rparr>)"

text \<open>The head of the loop: the flag is tested, a missing connection is opened (\<open>open_ok\<close>), or the
  emulation takes over if the serial library is absent (\<open>lib\<close>).\<close>

definition reader_poll :: "bool \<Rightarrow> nat \<Rightarrow> bool \<Rightarrow> listener \<Rightarrow> listener" where
  "reader_poll lib i open_ok s =
     (if reader_at s i \<noteq> Loop_Head then s
      else if \<not> is_listening s then set_reader i Finished s
      else if serial_connection s = Open_Connection then set_reader i Blocked s
      else if \<not> lib then set_reader i (Emulating 124.5) s
      else if open_ok then set_reader i Blocked (s\<lparr>serial_connection := Open_Connection\<rparr>)
      else drop_connection i s)"

text \<open>\<open>readline\<close> returns bytes (none at the time-out) or raises.\<close>

definition reader_read :: "nat \<Rightarrow> nat list option \<Rightarrow> real \<Rightarrow> listener \<Rightarrow> listener" where
  "reader_read i outcome now s =
     (if reader_at s i \<noteq> Blocked then s
      else case outcome of
        None \<Rightarrow> drop_connection i s
      | Some raw_bytes \<Rightarrow>
          set_reader i Loop_Head
            (case listener_forwards raw_bytes of None \<Rightarrow> s | Some l \<Rightarrow> forward l now s))"

definition reader_wake :: "nat \<Rightarrow> listener \<Rightarrow> listener" where
  "reader_wake i s = (if reader_at s i = Asleep then set_reader i Loop_Head s else s)"

definition next_heading :: "real \<Rightarrow> real" where
  "next_heading h = py_mod (h + 0.1) 360"

definition emulation_round :: "nat \<Rightarrow> real \<Rightarrow> listener \<Rightarrow> listener" where
  "emulation_round i now s =
     (case reader_at s i of
        Emulating h \<Rightarrow>
          let h' = next_heading h; s = forward (emulated_sentence h') now s
          in set_reader i (if is_listening s then Emulating h' else Finished) s
      | _ \<Rightarrow> s)"

text \<open>The control thread cannot start the listener while it waits inside \<open>stop_listening\<close>.\<close>

definition start_listening :: "listener \<Rightarrow> listener" where
  "start_listening s =
     (if stopping s \<or> is_listening s then s
      else s\<lparr>is_listening := True, readers := readers s @ [Loop_Head]\<rparr>)"

definition stop_request :: "listener \<Rightarrow> listener" where
  "stop_request s = s\<lparr>is_listening := False, stopping := True\<rparr>"

text \<open>\<open>stop_listening\<close> returns once the newest reader is over, or asleep and outlasting the wait.\<close>

definition stop_return :: "listener \<Rightarrow> listener" where
  "stop_return s =
     (if stopping s \<and> (readers s = [] \<or> last (readers s) \<in> {Finished, Asleep})
      then s\<lparr>stopping := False,
             serial_connection := (if serial_connection s = Open_Connection then Closed_Connection else serial_connection s)\<rparr>
      else s)"

datatype listener_event =
    Start | Stop_Request | Stop_Return
  | Poll nat bool | Read nat "nat list option" real | Wake nat | Emulate nat real

fun listener_step :: "bool \<Rightarrow> listener \<Rightarrow> listener_event \<Rightarrow> listener" where
  "listener_step lib s Start = start_listening s"
| "listener_step lib s Stop_Request = stop_request s"
| "listener_step lib s Stop_Return = stop_return s"
| "listener_step lib s (Poll i ok) = reader_poll lib i ok s"
| "listener_step lib s (Read i outcome now) = reader_read i outcome now s"
| "listener_step lib s (Wake i) = reader_wake i s"
| "listener_step lib s (Emulate i now) = emulation_round i now s"

abbreviation listener_run :: "bool \<Rightarrow> listener \<Rightarrow> listener_event list \<Rightarrow> listener" where
  "listener_run lib \<equiv> foldl (listener_step lib)"

lemmas listener_ops = start_listening_def stop_request_def stop_return_def reader_poll_def reader_read_def
  reader_wake_def emulation_round_def drop_connection_def forward_def set_reader_def

section \<open>How many readers are alive\<close>

definition live :: "listener \<Rightarrow> nat set" where
  "live s = {i. i < length (readers s) \<and> readers s ! i \<noteq> Finished}"

lemma live_simps [simp]:
  "live (s\<lparr>is_listening := b\<rparr>) = live s" "live (s\<lparr>stopping := b\<rparr>) = live s"
  "live (s\<lparr>serial_connection := c\<rparr>) = live s" "live (s\<lparr>fed_router := r\<rparr>) = live s"
  by (simp_all add: live_def)

lemma reader_at_cong [simp]:
  "reader_at (s\<lparr>serial_connection := c\<rparr>) i = reader_at s i" "reader_at (s\<lparr>fed_router := r\<rparr>) i = reader_at s i"
  by (simp_all add: reader_at_def)

lemma live_set_reader: "live (set_reader i p s) = (if i < length (readers s) \<and> p \<noteq> Finished then insert i (live s) else live s - {i})"
  by (cases "i < length (readers s)") (auto simp: live_def set_reader_def nth_list_update list_update_beyond split: if_splits)

lemma reader_at_live: "reader_at s i \<noteq> Finished \<longleftrightarrow> i \<in> live s"
  by (auto simp: reader_at_def live_def)

lemma live_set: "reader_at s i \<noteq> Finished \<Longrightarrow> live (set_reader i p s) \<subseteq> live s"
  by (auto simp: live_set_reader reader_at_live)

lemma live_forward [simp]: "live (forward l now s) = live s" "reader_at (forward l now s) i = reader_at s i"
  by (simp_all add: forward_def reader_at_def)

lemma live_drop: "reader_at s i \<noteq> Finished \<Longrightarrow> live (drop_connection i s) \<subseteq> live s"
  using live_set [of "s\<lparr>serial_connection := No_Connection\<rparr>" i Asleep] by (simp add: drop_connection_def)

lemma live_poll: "live (reader_poll lib i ok s) \<subseteq> live s"
proof (cases "reader_at s i = Loop_Head")
  case True
  then have "live (set_reader i p s) \<subseteq> live s" "live (drop_connection i s) \<subseteq> live s"
    "live (set_reader i p (s\<lparr>serial_connection := c\<rparr>)) \<subseteq> live s" for p c
    using live_set [of s i p] live_set [of "s\<lparr>serial_connection := c\<rparr>" i p] live_drop [of s i] by simp_all
  then show ?thesis unfolding reader_poll_def by (simp only: split: if_split) blast
qed (simp add: reader_poll_def)

lemma live_read: "live (reader_read i outcome now s) \<subseteq> live s"
  using live_drop [of s i] live_set [of s i Loop_Head] live_set [of "forward l now s" i Loop_Head for l]
  by (cases outcome) (simp_all add: reader_read_def split: option.split)

lemma live_emulate: "live (emulation_round i now s) \<subseteq> live s"
proof (cases "reader_at s i")
  case (Emulating h)
  then have "live (set_reader i p (forward l now s)) \<subseteq> live s" for p l
    using live_set [of "forward l now s" i p] by simp
  with Emulating show ?thesis by (simp add: emulation_round_def Let_def)
qed (simp_all add: emulation_round_def)

lemma live_step: "e \<noteq> Start \<Longrightarrow> live (listener_step lib s e) \<subseteq> live s"
  using live_set [of s _ Loop_Head]
  by (cases e) (simp_all add: live_poll live_read live_emulate stop_request_def stop_return_def reader_wake_def)

lemma live_start: "live (start_listening s) \<subseteq> insert (length (readers s)) (live s)"
  by (auto simp: start_listening_def live_def nth_append)

text \<open>The history never starts a second reader while an older one is still asleep after its fault.\<close>

fun starts_clean :: "bool \<Rightarrow> listener \<Rightarrow> listener_event list \<Rightarrow> bool" where
  "starts_clean lib s [] \<longleftrightarrow> True"
| "starts_clean lib s (e # es) \<longleftrightarrow>
     (e = Start \<longrightarrow> is_listening s \<or> stopping s \<or> list_all (\<lambda>p. p = Finished) (readers s))
     \<and> starts_clean lib (listener_step lib s e) es"

text \<open>At most one reader is alive, and it is the newest one.\<close>

definition single_reader :: "listener \<Rightarrow> bool" where
  "single_reader s \<longleftrightarrow> live s \<subseteq> {length (readers s) - 1}"

lemma readers_length: "e \<noteq> Start \<Longrightarrow> length (readers (listener_step lib s e)) = length (readers s)"
  by (cases e) (auto simp: listener_ops Let_def split: if_splits option.splits reader.splits)

lemma single_reader_step:
  assumes "single_reader s" "e = Start \<longrightarrow> is_listening s \<or> stopping s \<or> list_all (\<lambda>p. p = Finished) (readers s)"
  shows "single_reader (listener_step lib s e)"
proof (cases "e = Start")
  case True
  show ?thesis
  proof (cases "stopping s \<or> is_listening s")
    case False
    with assms(2) True have "live s = {}" by (auto simp: live_def list_all_length)
    with True False live_start [of s] show ?thesis by (auto simp: single_reader_def start_listening_def)
  qed (use assms(1) True in \<open>simp add: start_listening_def\<close>)
next
  case False
  with assms(1) live_step [OF False] show ?thesis by (auto simp: single_reader_def readers_length [OF False])
qed

lemma single_reader_run: "single_reader s \<Longrightarrow> starts_clean lib s es \<Longrightarrow> single_reader (listener_run lib s es)"
  by (induction es arbitrary: s) (simp_all add: single_reader_step)

text \<open>After \<open>stop_listening\<close> has returned: the flag is down and nobody can read.\<close>

definition silent :: "listener \<Rightarrow> bool" where
  "silent s \<longleftrightarrow> \<not> is_listening s \<and> (\<forall>p \<in> set (readers s). p \<in> {Finished, Asleep, Loop_Head})"

lemma silent_set_reader: "silent s \<Longrightarrow> p \<in> {Finished, Asleep, Loop_Head} \<Longrightarrow> silent (set_reader i p s)"
  by (auto simp: silent_def set_reader_def dest!: set_update_subset_insert [THEN subsetD])

lemma silent_flags [simp]: "silent s \<Longrightarrow> silent (s\<lparr>stopping := b\<rparr>)" "silent s \<Longrightarrow> silent (s\<lparr>is_listening := False, stopping := b\<rparr>)"
    "silent s \<Longrightarrow> silent (s\<lparr>stopping := b, serial_connection := c\<rparr>)"
  by (simp_all add: silent_def)

lemma silent_phase: "silent s \<Longrightarrow> reader_at s i \<noteq> Blocked" "silent s \<Longrightarrow> reader_at s i \<noteq> Emulating h"
  by (auto simp: silent_def reader_at_def dest!: nth_mem)

lemma silent_step:
  assumes "silent s" "e \<noteq> Start"
  shows "silent (listener_step lib s e)" "fed_router (listener_step lib s e) = fed_router s"
proof -
  have flag: "\<not> is_listening s" using assms(1) by (simp add: silent_def)
  have phases: "reader_at s i \<noteq> Blocked" "reader_at s i \<noteq> Emulating h" for i h
    using silent_phase [OF assms(1)] by blast+
  show "silent (listener_step lib s e)"
    using assms flag phases
    by (cases e) (simp_all add: reader_poll_def reader_read_def reader_wake_def emulation_round_def silent_set_reader
        stop_request_def stop_return_def split: reader.split)
  show "fed_router (listener_step lib s e) = fed_router s"
    using assms flag phases
    by (cases e) (auto simp: reader_poll_def reader_read_def reader_wake_def emulation_round_def set_reader_def
        stop_request_def stop_return_def split: reader.split)
qed

lemma silent_run:
  "silent s \<Longrightarrow> Start \<notin> set es \<Longrightarrow> fed_router (listener_run lib s es) = fed_router s"
proof (induction es arbitrary: s)
  case (Cons e es)
  then have "e \<noteq> Start" by auto
  then show ?case using Cons silent_step [of s e lib] by simp
qed simp

lemma stop_return_silent:
  assumes "single_reader s" "stopping s" "\<not> is_listening s" "\<not> stopping (stop_return s)"
  shows "silent (stop_return s)"
proof -
  have fin: "readers s = [] \<or> last (readers s) \<in> {Finished, Asleep}"
    using assms(2,4) by (auto simp: stop_return_def split: if_splits)
  have "p \<in> {Finished, Asleep}" if "p \<in> set (readers s)" for p
  proof -
    obtain i where i: "i < length (readers s)" "readers s ! i = p" using \<open>p \<in> set (readers s)\<close> by (auto simp: in_set_conv_nth)
    show ?thesis
    proof (cases "p = Finished")
      case False
      with i assms(1) have "i = length (readers s) - 1" by (auto simp: single_reader_def live_def)
      moreover have "readers s \<noteq> []" using i by auto
      ultimately show ?thesis using fin i by (simp add: last_conv_nth)
    qed simp
  qed
  then show ?thesis using assms(3) by (auto simp: silent_def stop_return_def)
qed

lemma stopping_flag: "(stopping s \<longrightarrow> \<not> is_listening s) \<Longrightarrow> stopping (listener_step lib s e) \<longrightarrow> \<not> is_listening (listener_step lib s e)"
  by (cases e) (auto simp: listener_ops Let_def split: if_splits option.splits reader.splits)

lemma stopping_flag_run: "(stopping s \<longrightarrow> \<not> is_listening s) \<Longrightarrow> stopping (listener_run lib s es) \<longrightarrow> \<not> is_listening (listener_run lib s es)"
  by (induction es arbitrary: s) (simp_all add: stopping_flag)

lemma single_reader_init: "single_reader (listener_init r)"
  by (simp add: single_reader_def live_def listener_init_def)

text \<open>Property C23. As long as the listener is not restarted while an older reader still sleeps off a fault, at most
  one reader thread is alive at any time, the newest, and when \<open>stop_listening\<close> has returned
  nothing reaches the router any more until the next start, however the threads are scheduled.
\<close>

theorem serial_one_reader:
  assumes "starts_clean lib (listener_init r) es"
  shows "live (listener_run lib (listener_init r) es) \<subseteq> {length (readers (listener_run lib (listener_init r) es)) - 1}
    \<and> (stopping (listener_run lib (listener_init r) es) \<and> \<not> stopping (listener_run lib (listener_init r) (es @ [Stop_Return]))
        \<and> Start \<notin> set es' \<longrightarrow>
       fed_router (listener_run lib (listener_init r) (es @ Stop_Return # es')) = fed_router (listener_run lib (listener_init r) es))"
proof (intro conjI impI)
  let ?s = "listener_run lib (listener_init r) es"
  have single: "single_reader ?s" by (rule single_reader_run [OF single_reader_init assms])
  then show "live ?s \<subseteq> {length (readers ?s) - 1}" by (simp add: single_reader_def)
  assume a: "stopping ?s \<and> \<not> stopping (listener_run lib (listener_init r) (es @ [Stop_Return])) \<and> Start \<notin> set es'"
  have "stopping ?s \<longrightarrow> \<not> is_listening ?s" by (rule stopping_flag_run) (simp add: listener_init_def)
  with a have "silent (stop_return ?s)" by (intro stop_return_silent single) simp_all
  from silent_run [OF this, of es' lib] a
  show "fed_router (listener_run lib (listener_init r) (es @ Stop_Return # es')) = fed_router ?s"
    by (simp add: stop_return_def)
qed

theorem serial_one_reader_witness:
  "live (listener_run True (listener_init (router_init ''UNVC'')) [Start, Poll 0 False, Stop_Request, Stop_Return, Wake 0, Poll 0 True, Start]) \<subseteq> {1}"
  using serial_one_reader [of True "router_init ''UNVC''" "[Start, Poll 0 False, Stop_Request, Stop_Return, Wake 0, Poll 0 True, Start]" "[]"]
  by (simp add: listener_init_def listener_ops reader_at_def)

text \<open>Without that care a stop and start within the three seconds doubles the readers: the sleeper wakes to
  find the flag set again, and the two then share one connection.\<close>

lemma restart_doubles_reader:
  "readers (listener_run True (listener_init r) [Start, Poll 0 False, Stop_Request, Stop_Return, Start, Wake 0, Poll 0 True, Poll 1 True])
     = [Blocked, Blocked]"
  by (simp add: listener_init_def listener_ops reader_at_def)

section \<open>Delivery\<close>

text \<open>One undisturbed round of a reader over one \<open>readline\<close>.\<close>

definition read_round :: "nat \<Rightarrow> nat list \<times> real \<Rightarrow> listener_event list" where
  "read_round i q = [Poll i True, Read i (Some (fst q)) (snd q)]"

definition deliver :: "router \<Rightarrow> nat list \<times> real \<Rightarrow> router" where
  "deliver r q = (case listener_forwards (fst q) of None \<Rightarrow> r | Some l \<Rightarrow> ingest_raw_serial_line r l (snd q))"

definition reading :: "listener \<Rightarrow> nat \<Rightarrow> bool" where
  "reading s i \<longleftrightarrow> is_listening s \<and> reader_at s i = Loop_Head"

lemma reader_at_set [simp]:
  "reader_at (set_reader i p s) i = (if i < length (readers s) then p else Finished)"
  "readers (set_reader i p s) = (readers s)[i := p]" "is_listening (set_reader i p s) = is_listening s"
  "fed_router (set_reader i p s) = fed_router s" "serial_connection (set_reader i p s) = serial_connection s"
  by (simp_all add: reader_at_def set_reader_def)

lemma reader_at_bound: "reader_at s i = Loop_Head \<or> reader_at s i = Blocked \<Longrightarrow> i < length (readers s)"
  by (auto simp: reader_at_def split: if_splits)

lemma poll_reading:
  assumes "reading s i"
  shows "reader_at (reader_poll True i True s) i = Blocked \<and> is_listening (reader_poll True i True s)
    \<and> fed_router (reader_poll True i True s) = fed_router s"
  using assms reader_at_bound [of s i] by (auto simp: reading_def reader_poll_def)

lemma read_blocked:
  assumes "reader_at s i = Blocked" "is_listening s"
  shows "reading (reader_read i (Some b) now s) i \<and> fed_router (reader_read i (Some b) now s) = deliver (fed_router s) (b, now)"
  using assms reader_at_bound [of s i] by (auto simp: reading_def reader_read_def deliver_def forward_def split: option.split)

lemma round_delivers:
  assumes "reading s i"
  shows "reading (listener_run True s (read_round i q)) i"
    "fed_router (listener_run True s (read_round i q)) = deliver (fed_router s) q"
  using poll_reading [OF assms] read_blocked [of "reader_poll True i True s" i "fst q" "snd q"] by (simp_all add: read_round_def)

lemma rounds_deliver:
  "reading s i \<Longrightarrow> reading (listener_run True s (concat (map (read_round i) qs))) i
     \<and> fed_router (listener_run True s (concat (map (read_round i) qs))) = foldl deliver (fed_router s) qs"
proof (induction qs arbitrary: s)
  case (Cons q qs)
  then show ?case using round_delivers [of s i q] by simp
qed simp

lemma fault_recovers:
  assumes "reading s i"
  shows "reading (listener_run True s [Poll i True, Read i None now, Wake i]) i"
    "fed_router (listener_run True s [Poll i True, Read i None now, Wake i]) = fed_router s"
  using poll_reading [OF assms] reader_at_bound [of s i] reader_at_bound [of "reader_poll True i True s" i]
  by (auto simp: reading_def reader_read_def reader_wake_def drop_connection_def)



section \<open>The emulation\<close>

lemma bit_xor_checksum: "bit (xor_checksum s) k \<longleftrightarrow> odd (length (filter (\<lambda>c. bit (ord c) k) s))"
proof (induction s)
  case (Cons c s)
  then show ?case by (simp add: xor_checksum_Cons bit_xor_iff)
qed (simp add: xor_checksum_def)

lemma digit_bit_4: "d < 10 \<Longrightarrow> bit (ord (digit_char d)) 4"
  by (drule less_10_cases) (auto simp: ord_digit_char bit_nat_def bit_iff_odd)

lemma nat_str_hundreds:
  assumes "100 \<le> n" "n < 1000"
  obtains a b c where "nat_str n = [digit_char a, digit_char b, digit_char c]" "a < 10" "b < 10" "c < 10"
proof (rule that [of "n div 100" "n div 10 mod 10" "n mod 10"])
  have "n div 10 div 10 = n div 100" by (simp add: div_mult2_eq [symmetric])
  moreover have "n div 100 < 10" "\<not> n div 10 < 10" "\<not> n < 10" using assms by linarith+
  ultimately show "nat_str n = [digit_char (n div 100), digit_char (n div 10 mod 10), digit_char (n mod 10)]"
    by (simp add: nat_str.simps [of n] nat_str.simps [of "n div 10"] nat_str.simps [of "n div 100"])
qed (use assms in auto)

lemma fmt_hundreds:
  assumes "100 \<le> h" "h < 999"
  obtains a b c d where "fmt_fixed 1 h = [digit_char a, digit_char b, digit_char c, CHR ''.'', digit_char d]"
    "a < 10" "b < 10" "c < 10" "d < 10"
proof -
  define m where "m = nat (round_half_even (h * 10))"
  have "1000 \<le> round_half_even (h * 10)" "round_half_even (h * 10) \<le> 9990"
    using round_half_even_mono [of "of_int 1000" "h * 10"] round_half_even_mono [of "h * 10" "of_int 9990"] assms
    unfolding round_half_even_of_int by simp_all
  then have "100 \<le> m div 10" "m div 10 < 1000" unfolding m_def by linarith+
  then obtain a b c where "nat_str (m div 10) = [digit_char a, digit_char b, digit_char c]" "a < 10" "b < 10" "c < 10"
    by (rule nat_str_hundreds)
  moreover have "fmt_fixed 1 h = nat_str (m div 10) @ ''.'' @ [digit_char (m mod 10)]"
    using assms(1) by (simp add: fmt_fixed_def m_def Let_def)
  ultimately show ?thesis using that [of a b c "m mod 10"] by simp
qed

lemma checksum_1C: "fmt_02X (xor_checksum p) = ''1C'' \<Longrightarrow> bit (xor_checksum p) 4"
proof -
  assume a: "fmt_02X (xor_checksum p) = ''1C''"
  obtain x y where g: "generate_checksum p = [hex_digit x, hex_digit y]" "x < 16" "y < 16" "xor_checksum p = 16 * x + y"
    by (rule generate_checksum_digits)
  from a g have "hex_digit x = hex_digit 1" by (simp add: generate_checksum_def hex_digit_def)
  then have "x = 1" using g(2) hex_digit_inject by auto
  then have "xor_checksum p div 2 ^ 4 = 1" using g(3,4) by simp
  then show ?thesis by (simp add: bit_iff_odd)
qed

lemma validate_parts:
  "CHR ''*'' \<notin> set p \<Longrightarrow> CHR ''*'' \<notin> set h \<Longrightarrow>
     validate_checksum (CHR ''$'' # p @ CHR ''*'' # h) \<longleftrightarrow> fmt_02X (xor_checksum p) = py_upper (py_strip h)"
  by (simp add: validate_checksum_def starts_with_def py_split_cons py_split_notin)

lemma emulated_refused:
  assumes "100 \<le> h" "h < 999"
  shows "\<not> validate_checksum (py_strip (emulated_sentence h))"
proof -
  obtain a b c d where f: "fmt_fixed 1 h = [digit_char a, digit_char b, digit_char c, CHR ''.'', digit_char d]"
    and d: "a < 10" "b < 10" "c < 10" "d < 10" using assms by (rule fmt_hundreds)
  let ?p = "''HEHDT,'' @ [digit_char a, digit_char b, digit_char c, CHR ''.'', digit_char d] @ '',T''"
  have strip: "py_strip (emulated_sentence h) = CHR ''$'' # ?p @ ''*1C''"
  proof -
    have "py_strip ((CHR ''$'' # ?p @ ''*1C'') @ [CHR 0x0D, CHR 0x0A]) = CHR ''$'' # ?p @ ''*1C''"
      by (rule py_strip_trail) (auto simp: is_space_def)
    then show ?thesis by (simp add: emulated_sentence_def f [simplified])
  qed
  have star: "digit_char e \<noteq> CHR ''*''" if "e < 10" for e
    using that by (drule_tac less_10_cases) (auto simp: digit_char_def)
  have letter_bits: "\<not> bit (ord CHR ''H'') 4" "\<not> bit (ord CHR ''E'') 4" "\<not> bit (ord CHR ''D'') 4" "bit (ord CHR ''T'') 4"
    "\<not> bit (ord CHR '','') 4" "\<not> bit (ord CHR ''.'') 4" by (simp_all add: bit_iff_odd)
  have "\<not> bit (xor_checksum ?p) 4"
    using d letter_bits by (simp add: bit_xor_checksum digit_bit_4 del: ord_digit_char)
  moreover have "CHR ''*'' \<notin> set ?p" using star [OF d(1)] star [OF d(2)] star [OF d(3)] star [OF d(4)] by simp
  moreover have "py_upper (py_strip ''1C'') = ''1C''" by code_simp
  ultimately have "\<not> validate_checksum (CHR ''$'' # ?p @ CHR ''*'' # ''1C'')"
    using checksum_1C [of ?p] by (subst validate_parts) auto
  then show ?thesis by (simp add: strip)
qed


lemma emulated_ingest:
  assumes "100 \<le> h" "h < 999"
  shows "r_parser (ingest_raw_serial_line r (emulated_sentence h) now) = r_parser r"
  by (simp add: ingest_raw_serial_line_def parse_sentence_def Let_def emulated_refused [OF assms])

lemma next_heading_up: "0 \<le> h \<Longrightarrow> h < 359.9 \<Longrightarrow> next_heading h = h + 0.1"
  by (simp add: next_heading_def py_mod_id)

lemma emulation_rounds:
  assumes "length ts \<le> 2354" "reader_at s i = Emulating 124.5" "is_listening s"
  shows "reader_at (listener_run lib s (map (Emulate i) ts)) i = Emulating (124.5 + 0.1 * length ts)
    \<and> is_listening (listener_run lib s (map (Emulate i) ts))
    \<and> r_parser (fed_router (listener_run lib s (map (Emulate i) ts))) = r_parser (fed_router s)"
  using assms(1)
proof (induction ts rule: rev_induct)
  case (snoc t ts)
  let ?s = "listener_run lib s (map (Emulate i) ts)"
  define h where "h = 124.5 + 0.1 * real (length ts)"
  have IH: "reader_at ?s i = Emulating h" "is_listening ?s" "r_parser (fed_router ?s) = r_parser (fed_router s)"
    using snoc by (simp_all add: h_def)
  have n: "real (length ts) < 2354" using snoc.prems by simp
  then have up: "next_heading h = h + 0.1" by (intro next_heading_up) (simp_all add: h_def)
  have bound: "i < length (readers ?s)" using IH(1) by (auto simp: reader_at_def split: if_splits)
  have "r_parser (ingest_raw_serial_line (fed_router ?s) (emulated_sentence (h + 0.1)) t) = r_parser (fed_router s)"
    using n IH(3) by (subst emulated_ingest) (simp_all add: h_def)
  with IH(2) bound show ?case
    by (simp add: emulation_round_def IH(1) up [simplified] Let_def forward_def) (simp add: h_def field_simps)
qed (use assms in simp)

text \<open>Without the serial library the listener feeds the router an emulated compass whose checksum is the
  constant \<open>1C\<close>. No three-digit heading has that checksum: the first 2354 sentences, nearly eight minutes,
  are all refused and leave every sensor quantity of the parser untouched.
\<close>

theorem emulation_mute:
  "(100 \<le> h \<and> h < 999 \<longrightarrow> \<not> validate_checksum (py_strip (emulated_sentence h)))
   \<and> (length ts \<le> 2354 \<longrightarrow>
      r_parser (fed_router (listener_run False (listener_init r) ([Start, Poll 0 ok] @ map (Emulate 0) ts))) = r_parser r)"
proof (intro conjI impI)
  show "\<not> validate_checksum (py_strip (emulated_sentence h))" if "100 \<le> h \<and> h < 999"
    using that emulated_refused by blast
  assume "length ts \<le> 2354"
  then show "r_parser (fed_router (listener_run False (listener_init r) ([Start, Poll 0 ok] @ map (Emulate 0) ts))) = r_parser r"
    using emulation_rounds [of ts "listener_run False (listener_init r) [Start, Poll 0 ok]" 0 False]
    by (simp add: listener_init_def start_listening_def reader_poll_def reader_at_def set_reader_def)
qed

theorem emulation_mute_witness:
  "\<not> validate_checksum (py_strip (emulated_sentence 200))
   \<and> r_parser (fed_router (listener_run False (listener_init (router_init ''UNVC'')) ([Start, Poll 0 True] @ map (Emulate 0) [1]))) = nmea_parser_init"
  using emulation_mute [of 200 "[1]" "router_init ''UNVC''" True] by (simp add: router_init_def)

end
