(* ===== verification/Typer_Node.thy ===== *)
theory Typer_Node
  imports Prelude "HOL-Library.Sublist"
begin

text \<open>
  The asynchronous character typer (\<open>network_layer/async_typer_node.py\<close>): a queue of text blocks, a
  worker thread that streams the current block one character at a time, and the window toolkit, which
  runs the scheduled edits of the text widget in the order in which they were scheduled. The
  pause between characters is below the one second \<open>stop_typer\<close> waits, so a stop returns only when the
  worker is over; until then the caller cannot start another.
\<close>

section \<open>State and operations\<close>

datatype ui_edit = Delete_All | Insert char

datatype typer_worker = No_Worker | At_Head | Getting | Typing string | Over

record typer =
  input_queue :: "string list"
  is_running :: bool
  worker :: typer_worker
  scheduled :: "ui_edit list"
  widget :: string

definition typer_init :: typer where
  "typer_init = \<lparr>input_queue = [], is_running = False, worker = No_Worker, scheduled = [], widget = []\<rparr>"

definition queue_text_block_overwrite :: "string \<Rightarrow> typer \<Rightarrow> typer" where
  "queue_text_block_overwrite text_string s = s\<lparr>input_queue := input_queue s @ [text_string]\<rparr>"

definition start_typer :: "typer \<Rightarrow> typer" where
  "start_typer s = (if is_running s \<or> worker s \<notin> {No_Worker, Over} then s else s\<lparr>is_running := True, worker := At_Head\<rparr>)"

definition stop_typer :: "typer \<Rightarrow> typer" where
  "stop_typer s = s\<lparr>is_running := False\<rparr>"

text \<open>One step of the worker. \<open>Getting\<close> is the wait in \<open>get\<close>, which ends with a block or, if the
  queue stays empty, with the time-out; the flag is tested at the head of the loop and before each
  character.\<close>

definition worker_step :: "typer \<Rightarrow> typer" where
  "worker_step s =
     (case worker s of
        At_Head \<Rightarrow> s\<lparr>worker := (if is_running s then Getting else Over)\<rparr>
      | Getting \<Rightarrow>
          (case input_queue s of
             [] \<Rightarrow> s\<lparr>worker := At_Head\<rparr>
           | text_block # q \<Rightarrow>
               s\<lparr>input_queue := q, scheduled := scheduled s @ [Delete_All], worker := Typing text_block\<rparr>)
      | Typing (c # cs) \<Rightarrow>
          if is_running s then s\<lparr>scheduled := scheduled s @ [Insert c], worker := Typing cs\<rparr>
          else s\<lparr>worker := At_Head\<rparr>
      | Typing [] \<Rightarrow> s\<lparr>worker := At_Head\<rparr>
      | _ \<Rightarrow> s)"

fun apply_edit :: "string \<Rightarrow> ui_edit \<Rightarrow> string" where
  "apply_edit w Delete_All = []"
| "apply_edit w (Insert c) = w @ [c]"

text \<open>One turn of the window toolkit.\<close>

definition ui_turn :: "typer \<Rightarrow> typer" where
  "ui_turn s = (case scheduled s of [] \<Rightarrow> s | e # es \<Rightarrow> s\<lparr>scheduled := es, widget := apply_edit (widget s) e\<rparr>)"

datatype typer_event = Queue_Block string | Start | Stop | Worker_Step | Ui_Turn

fun typer_step :: "typer \<Rightarrow> typer_event \<Rightarrow> typer" where
  "typer_step s (Queue_Block b) = queue_text_block_overwrite b s"
| "typer_step s Start = start_typer s"
| "typer_step s Stop = stop_typer s"
| "typer_step s Worker_Step = worker_step s"
| "typer_step s Ui_Turn = ui_turn s"

abbreviation typer_run :: "typer_event list \<Rightarrow> typer" where
  "typer_run \<equiv> foldl typer_step typer_init"

section \<open>What the screen can show\<close>

text \<open>The text once every scheduled edit has run, and the blocks handed to the typer.\<close>

definition shown :: "typer \<Rightarrow> string" where
  "shown s = foldl apply_edit (widget s) (scheduled s)"

fun block_of :: "typer_event \<Rightarrow> string list" where
  "block_of (Queue_Block b) = [b]"
| "block_of e = []"

definition queued :: "typer_event list \<Rightarrow> string list" where
  "queued es = concat (map block_of es)"

text \<open>\<open>n\<close> blocks have been taken; \<open>b\<close> is the last of them. While it is being typed, the text shown and
  the rest make up the block; afterwards a prefix is shown, all of it unless the typer was stopped.\<close>

definition typed :: "bool \<Rightarrow> string \<Rightarrow> typer \<Rightarrow> bool" where
  "typed stopped b s \<longleftrightarrow>
     (case worker s of
        Typing cs \<Rightarrow> shown s @ cs = b
      | _ \<Rightarrow> prefix (shown s) b \<and> (\<not> stopped \<longrightarrow> shown s = b))
     \<and> (\<not> stopped \<longrightarrow> is_running s \<or> worker s = No_Worker)"

definition last_taken :: "nat \<Rightarrow> string list \<Rightarrow> string" where
  "last_taken n bs = (if n = 0 then [] else bs ! (n - 1))"

definition typer_inv :: "bool \<Rightarrow> string list \<Rightarrow> typer \<Rightarrow> bool" where
  "typer_inv stopped bs s \<longleftrightarrow> (\<exists>n \<le> length bs. input_queue s = drop n bs \<and> typed stopped (last_taken n bs) s)"

lemma shown_simps [simp]:
  "shown (s\<lparr>input_queue := q\<rparr>) = shown s" "shown (s\<lparr>is_running := r\<rparr>) = shown s" "shown (s\<lparr>worker := w\<rparr>) = shown s"
  "shown (s\<lparr>scheduled := scheduled s @ [e]\<rparr>) = apply_edit (shown s) e"
  by (simp_all add: shown_def)

lemma shown_ui_turn [simp]: "shown (ui_turn s) = shown s"
  by (simp add: shown_def ui_turn_def split: list.split)

lemma ui_turn_fields [simp]: "worker (ui_turn s) = worker s" "is_running (ui_turn s) = is_running s"
    "input_queue (ui_turn s) = input_queue s"
  by (simp_all add: ui_turn_def split: list.split)

lemma last_taken_snoc [simp]: "n \<le> length bs \<Longrightarrow> last_taken n (bs @ [b]) = last_taken n bs"
  by (auto simp: last_taken_def nth_append)

lemma append_prefixI: "xs @ ys = zs \<Longrightarrow> prefix xs zs"
  by auto

lemma typed_start: "typed stopped b s \<Longrightarrow> typed stopped b (start_typer s)"
  by (cases "worker s") (simp_all add: typed_def start_typer_def)

lemma typed_stop: "typed stopped b s \<Longrightarrow> typed True b (stop_typer s)"
  by (cases "worker s") (simp_all add: typed_def stop_typer_def)

lemma typed_ui_turn: "typed stopped b s \<Longrightarrow> typed stopped b (ui_turn s)"
  by (cases "worker s") (simp_all add: typed_def)

lemma typer_inv_worker:
  assumes "typer_inv stopped bs s"
  shows "typer_inv stopped bs (worker_step s)"
proof -
  obtain n where n: "n \<le> length bs" "input_queue s = drop n bs" "typed stopped (last_taken n bs) s"
    using assms by (auto simp: typer_inv_def)
  show ?thesis
  proof (cases "worker s")
    case Getting
    show ?thesis
    proof (cases "drop n bs")
      case Nil
      with n Getting show ?thesis unfolding typer_inv_def
        by (intro exI [of _ n]) (simp add: worker_step_def typed_def)
    next
      case (Cons b q)
      then have "n < length bs" by (rule_tac ccontr) simp
      with Cons have "bs ! n = b" "drop (Suc n) bs = q" by (simp_all add: Cons_nth_drop_Suc [symmetric])
      with n Getting Cons \<open>n < length bs\<close> show ?thesis unfolding typer_inv_def
        by (intro exI [of _ "Suc n"]) (simp add: worker_step_def typed_def shown_def last_taken_def)
    qed
  next
    case (Typing cs)
    have "typed stopped (last_taken n bs) (worker_step s) \<and> input_queue (worker_step s) = drop n bs"
    proof (cases cs)
      case (Cons c cs')
      show ?thesis
      proof (cases "is_running s")
        case True
        with n(2,3) Typing Cons show ?thesis by (simp add: typed_def worker_step_def)
      next
        case False
        with n(2,3) Typing Cons show ?thesis by (auto simp: typed_def worker_step_def intro: append_prefixI)
      qed
    qed (use n Typing in \<open>auto simp: typed_def worker_step_def\<close>)
    with n(1) show ?thesis unfolding typer_inv_def by blast
  next
    case At_Head
    with n show ?thesis unfolding typer_inv_def by (intro exI [of _ n]) (simp add: worker_step_def typed_def)
  qed (use assms in \<open>simp_all add: worker_step_def\<close>)
qed

lemma typer_inv_step:
  assumes "typer_inv stopped bs s"
  shows "typer_inv (stopped \<or> e = Stop) (bs @ block_of e) (typer_step s e)"
proof -
  obtain n where n: "n \<le> length bs" "input_queue s = drop n bs" "typed stopped (last_taken n bs) s"
    using assms by (auto simp: typer_inv_def)
  show ?thesis
  proof (cases e)
    case (Queue_Block b)
    with n show ?thesis unfolding typer_inv_def
      by (intro exI [of _ n]) (simp add: queue_text_block_overwrite_def typed_def split: typer_worker.splits)
  next
    case Worker_Step
    with typer_inv_worker [OF assms] show ?thesis by simp
  next
    case Start
    with n typed_start [OF n(3)] show ?thesis unfolding typer_inv_def by (intro exI [of _ n]) (simp add: start_typer_def)
  next
    case Stop
    with n typed_stop [OF n(3)] show ?thesis unfolding typer_inv_def by (intro exI [of _ n]) (simp add: stop_typer_def)
  next
    case Ui_Turn
    with n typed_ui_turn [OF n(3)] show ?thesis unfolding typer_inv_def by (intro exI [of _ n]) simp
  qed
qed

lemma typer_inv_run: "typer_inv (Stop \<in> set es) (queued es) (typer_run es)"
proof (induction es rule: rev_induct)
  case Nil
  show ?case by (simp add: typer_inv_def typer_init_def typed_def shown_def queued_def last_taken_def)
next
  case (snoc e es)
  then show ?case using typer_inv_step [OF snoc, of e] by (simp add: queued_def disj_commute eq_commute [of Stop])
qed

text \<open>Blocks are taken in the order they were queued and none is skipped; whatever is still to be
  painted, the text the screen settles to is a prefix of the last block taken, never a mixture of
  two blocks, and it is that block itself whenever the worker is between blocks and was never stopped.
\<close>

theorem typer_shows_last_block:
  "\<exists>n \<le> length (queued es). input_queue (typer_run es) = drop n (queued es)
     \<and> prefix (shown (typer_run es)) (last_taken n (queued es))
     \<and> (Stop \<notin> set es \<and> worker (typer_run es) \<in> {No_Worker, At_Head, Getting, Over} \<longrightarrow>
          shown (typer_run es) = last_taken n (queued es))"
proof -
  obtain n where "n \<le> length (queued es)" "input_queue (typer_run es) = drop n (queued es)"
    "typed (Stop \<in> set es) (last_taken n (queued es)) (typer_run es)"
    using typer_inv_run [of es] by (auto simp: typer_inv_def)
  then show ?thesis
    by (intro exI [of _ n]) (auto simp: typed_def intro: append_prefixI split: typer_worker.splits)
qed

text \<open>A block queued within the last wait of a stopped typer is swallowed: the worker takes it,
  clears the screen and ends before its first character.\<close>

lemma stop_swallows_block:
  "let s = typer_run ([Queue_Block ''ok'', Start] @ replicate 6 Worker_Step @ [Stop, Queue_Block ''halt''] @ replicate 3 Worker_Step)
   in shown s = [] \<and> input_queue s = [] \<and> worker s = Over"
  by (simp add: typer_init_def shown_def queue_text_block_overwrite_def start_typer_def stop_typer_def worker_step_def numeral_eq_Suc)

section \<open>Typing a block to its end\<close>

lemma typing_run:
  "worker s = Typing cs \<Longrightarrow> is_running s \<Longrightarrow>
     worker (foldl typer_step s (replicate (Suc (length cs)) Worker_Step)) = At_Head
     \<and> is_running (foldl typer_step s (replicate (Suc (length cs)) Worker_Step))
     \<and> input_queue (foldl typer_step s (replicate (Suc (length cs)) Worker_Step)) = input_queue s
     \<and> shown (foldl typer_step s (replicate (Suc (length cs)) Worker_Step)) = shown s @ cs"
proof (induction cs arbitrary: s)
  case (Cons c cs)
  let ?s = "s\<lparr>scheduled := scheduled s @ [Insert c], worker := Typing cs\<rparr>"
  have "worker_step s = ?s" using Cons.prems by (simp add: worker_step_def)
  moreover have "shown ?s = shown s @ [c]" by (simp add: shown_def)
  ultimately show ?case using Cons.IH [of ?s] Cons.prems by simp
qed (simp add: worker_step_def)

lemma block_run:
  assumes "worker s = At_Head" "is_running s" "input_queue s = b # q"
  shows "worker (foldl typer_step s (replicate (length b + 3) Worker_Step)) = At_Head
     \<and> is_running (foldl typer_step s (replicate (length b + 3) Worker_Step))
     \<and> input_queue (foldl typer_step s (replicate (length b + 3) Worker_Step)) = q
     \<and> shown (foldl typer_step s (replicate (length b + 3) Worker_Step)) = b"
proof -
  let ?s = "s\<lparr>input_queue := q, scheduled := scheduled s @ [Delete_All], worker := Typing b\<rparr>"
  have "replicate (length b + 3) Worker_Step = [Worker_Step, Worker_Step] @ replicate (Suc (length b)) Worker_Step"
    by (simp add: numeral_eq_Suc)
  moreover have "worker_step (worker_step s) = ?s" using assms by (simp add: worker_step_def)
  moreover have "shown ?s = []" by (simp add: shown_def)
  ultimately show ?thesis using typing_run [of ?s b] assms(2) by simp
qed

lemma drain:
  "worker s = At_Head \<Longrightarrow> is_running s \<Longrightarrow> input_queue s \<noteq> [] \<Longrightarrow>
     let s' = foldl typer_step s (replicate (sum_list (map (\<lambda>b. length b + 3) (input_queue s))) Worker_Step)
     in input_queue s' = [] \<and> worker s' = At_Head \<and> shown s' = last (input_queue s)"
proof (induction "input_queue s" arbitrary: s)
  case (Cons b q)
  note one = block_run [OF Cons.prems(1,2) Cons.hyps(2) [symmetric]]
  show ?case
  proof (cases "q = []")
    case True
    with one Cons.hyps(2) [symmetric] show ?thesis by (simp add: Let_def)
  next
    case False
    let ?s = "foldl typer_step s (replicate (length b + 3) Worker_Step)"
    from Cons.hyps(1) [of ?s] one False show ?thesis
      by (simp add: Let_def Cons.hyps(2) [symmetric] replicate_add)
  qed
qed simp

text \<open>A started typer empties its queue: with nobody stopping it, the number of steps the worker needs is the
  number of queued characters plus three per block, and the screen then settles to the last block queued.
\<close>

theorem typer_drains:
  assumes "bs \<noteq> []"
  shows "let s = typer_run (map Queue_Block bs @ [Start] @ replicate (sum_list (map (\<lambda>b. length b + 3) bs)) Worker_Step)
         in input_queue s = [] \<and> worker s = At_Head \<and> shown s = last bs"
proof -
  have put: "foldl typer_step s (map Queue_Block bs) = s\<lparr>input_queue := input_queue s @ bs\<rparr>" for s
  proof (induction bs arbitrary: s)
    case (Cons b bs)
    then show ?case by (simp add: queue_text_block_overwrite_def)
  qed simp
  let ?s = "typer_run (map Queue_Block bs @ [Start])"
  have "worker ?s = At_Head" "is_running ?s" "input_queue ?s = bs"
    by (simp_all add: put typer_init_def start_typer_def)
  with drain [of ?s] assms show ?thesis by (simp add: Let_def)
qed

theorem typer_drains_witness:
  "shown (typer_run (map Queue_Block [''AB'', ''C''] @ [Start] @ replicate 9 Worker_Step)) = ''C''"
  using typer_drains [of "[''AB'', ''C'']"] by (simp add: Let_def)

end
