(* ===== verification/Stress_Antenna.thy ===== *)
theory Stress_Antenna
  imports Py_Math "HOL-Library.Word"
begin

unbundle bit_operations_syntax

text \<open>
  Two stand-alone tools. The stress test (\<open>dtic_stress_test.py\<close>) fills an array of 32-bit
  words with encoder packets of which a known part is corrupted, and lets one worker process per
  core send its share as datagrams; the antenna tuner (\<open>univac_antenna_profiles.py\<close>) computes
  four antenna profiles. Sockets, processes, the compiler of the array kernel and the clock are not modelled.
\<close>

section \<open>The packets\<close>

text \<open>Azimuth, elevation, trigger and check word of packet \<open>i\<close>.\<close>

definition fuzz_packet :: "nat \<Rightarrow> nat \<Rightarrow> 32 word list" where
  "fuzz_packet fault_injection_rate i =
     (let az = word_of_nat (15000 + i mod 100); el = word_of_nat (8000 + i mod 50); trig = 0;
          crc = az XOR el XOR trig;
          (az, crc) = (if i mod fault_injection_rate = 0 then (az, crc XOR 0x0000FFFF)
                       else if i mod (fault_injection_rate + 1) = 0 then (az + 10000, crc)
                       else (az, crc))
      in [az, el, trig, crc])"

text \<open>A rate of zero makes the modulus of the first packet raise.\<close>

definition generate_fuzzing_matrices :: "nat \<Rightarrow> nat \<Rightarrow> 32 word list option" where
  "generate_fuzzing_matrices num_samples fault_injection_rate =
     (if fault_injection_rate = 0 \<and> 0 < num_samples then None
      else Some (concat (map (fuzz_packet fault_injection_rate) [0..<num_samples])))"

text \<open>The check a receiver makes.\<close>

definition packet_intact :: "32 word list \<Rightarrow> bool" where
  "packet_intact p \<longleftrightarrow> length p = 4 \<and> p ! 3 = p ! 0 XOR p ! 1 XOR p ! 2"

lemma xor_swap: "(a XOR b XOR c = d XOR b XOR c) \<longleftrightarrow> a = (d :: 'a::len word)"
  by (auto simp: bit_eq_iff bit_xor_iff)

lemma xor_mask_neq: "x XOR 0x0000FFFF \<noteq> (x :: 32 word)"
proof
  assume "x XOR 0x0000FFFF = x"
  then have "x XOR (x XOR 0x0000FFFF) = x XOR x" by (rule arg_cong)
  then show False by (simp add: xor.assoc [symmetric])
qed

text \<open>A packet passes the check exactly if neither fault was injected.\<close>

lemma packet_intact_iff:
  "packet_intact (fuzz_packet rate i) \<longleftrightarrow> \<not> rate dvd i \<and> \<not> rate + 1 dvd i"
proof -
  let ?az = "word_of_nat (15000 + i mod 100) :: 32 word" and ?el = "word_of_nat (8000 + i mod 50) :: 32 word"
  have "(?az XOR ?el = (?az + 10000) XOR ?el) \<longleftrightarrow> False"
    using xor_swap [of ?az ?el 0 "?az + 10000"] by simp
  moreover have "(?az XOR ?el) XOR 0x0000FFFF \<noteq> ?az XOR ?el" by (rule xor_mask_neq)
  ultimately show ?thesis
    by (simp add: packet_intact_def fuzz_packet_def Let_def dvd_eq_mod_eq_0 del: of_nat_add)
qed

text \<open>How many multiples of a number lie below a bound.\<close>

lemma card_multiples:
  assumes "0 < d"
  shows "card {i. i < n \<and> d dvd i} = (n + d - 1) div d"
proof -
  have "{i. i < n \<and> d dvd i} = (\<lambda>k. k * d) ` {..<(n + d - 1) div d}"
  proof (intro equalityI subsetI)
    fix i assume "i \<in> {i. i < n \<and> d dvd i}"
    then obtain k where k: "i = k * d" "k * d < n" by (auto simp: dvd_def mult.commute)
    then have "Suc k * d \<le> n + d - 1" by simp
    then have "Suc k \<le> (n + d - 1) div d" using assms by (simp only: less_eq_div_iff_mult_less_eq)
    with k show "i \<in> (\<lambda>k. k * d) ` {..<(n + d - 1) div d}" by auto
  next
    fix i assume "i \<in> (\<lambda>k. k * d) ` {..<(n + d - 1) div d}"
    then obtain k where k: "i = k * d" "Suc k \<le> (n + d - 1) div d" by (auto simp: Suc_le_eq)
    then have "Suc k * d \<le> n + d - 1" using assms by (simp only: less_eq_div_iff_mult_less_eq)
    with k assms show "i \<in> {i. i < n \<and> d dvd i}" by simp
  qed
  moreover have "inj_on (\<lambda>k. k * d) {..<(n + d - 1) div d}" using assms by (simp add: inj_on_def)
  ultimately show ?thesis by (simp add: card_image)
qed

lemma both_faults: "rate dvd i \<and> rate + 1 dvd i \<longleftrightarrow> rate * (rate + 1) dvd (i :: nat)"
  using divides_mult [of rate i "rate + 1"] by (auto intro: dvd_mult_left dvd_mult_right)

text \<open>For any number of samples and any rate the generator returns, exactly the packets whose index
  is a multiple of the rate or of its successor fail the receiver's check, and their number is
  that of the multiples below the bound, counted once; a rate of zero raises.
\<close>

theorem fuzz_faults_counted:
  assumes "0 < rate"
  shows "generate_fuzzing_matrices n rate = Some (concat (map (fuzz_packet rate) [0..<n]))
    \<and> (packet_intact (fuzz_packet rate i) \<longleftrightarrow> \<not> rate dvd i \<and> \<not> rate + 1 dvd i)
    \<and> card {i. i < n \<and> \<not> packet_intact (fuzz_packet rate i)} =
        (n + rate - 1) div rate + (n + rate) div (rate + 1)
        - (n + rate * (rate + 1) - 1) div (rate * (rate + 1))"
proof (intro conjI)
  let ?A = "{i. i < n \<and> rate dvd i}" and ?B = "{i. i < n \<and> rate + 1 dvd i}"
  have "{i. i < n \<and> \<not> packet_intact (fuzz_packet rate i)} = ?A \<union> ?B" by (auto simp: packet_intact_iff)
  moreover have "?A \<inter> ?B = {i. i < n \<and> rate * (rate + 1) dvd i}" using both_faults [of rate] by blast
  moreover have "card (?A \<union> ?B) + card (?A \<inter> ?B) = card ?A + card ?B"
    using card_Un_Int [of ?A ?B] by simp
  ultimately show "card {i. i < n \<and> \<not> packet_intact (fuzz_packet rate i)} =
        (n + rate - 1) div rate + (n + rate) div (rate + 1)
        - (n + rate * (rate + 1) - 1) div (rate * (rate + 1))"
    using card_multiples [of rate n] card_multiples [of "rate + 1" n] card_multiples [of "rate * (rate + 1)" n] assms
    by simp
qed (use assms in \<open>simp_all add: generate_fuzzing_matrices_def packet_intact_iff\<close>)

theorem fuzz_faults_counted_witness:
  "card {i. i < 10000000 \<and> \<not> packet_intact (fuzz_packet 50000 i)} = 399"
  using fuzz_faults_counted [of 50000 10000000 0] by (simp del: packet_intact_iff)

section \<open>Sending\<close>

text \<open>\<open>struct.pack('>4I', ...)\<close>: four words, most significant byte first.\<close>

definition pack_word :: "32 word \<Rightarrow> nat list" where
  "pack_word w = map (\<lambda>k. unat w div 256 ^ k mod 256) [3, 2, 1, 0]"

definition pack_4I :: "32 word list \<Rightarrow> nat list" where
  "pack_4I ws = concat (map pack_word ws)"

definition unpack_word :: "nat list \<Rightarrow> 32 word" where
  "unpack_word bs = word_of_nat (foldl (\<lambda>a b. 256 * a + b) 0 bs)"

fun unpack_4I :: "nat list \<Rightarrow> 32 word list" where
  "unpack_4I (a # b # c # d # bs) = unpack_word [a, b, c, d] # unpack_4I bs"
| "unpack_4I bs = []"

lemma unpack_pack_word: "unpack_word (pack_word w) = w"
proof -
  let ?n = "unat w"
  have "?n < 256 ^ 4" using unsigned_less [of w, where ?'a = nat] by simp
  have "256 * (256 * (256 * (?n div 256 ^ 3 mod 256) + ?n div 256 ^ 2 mod 256) + ?n div 256 mod 256) + ?n mod 256 = ?n"
  proof -
    have "?n div 256 ^ 3 mod 256 = ?n div 256 ^ 3" using \<open>?n < 256 ^ 4\<close> by (simp add: less_mult_imp_div_less)
    moreover have "256 * (?n div 256 ^ 3) + ?n div 256 ^ 2 mod 256 = ?n div 256 ^ 2"
      using mult_div_mod_eq [of 256 "?n div 256 ^ 2"] by (simp add: div_mult2_eq [symmetric])
    moreover have "256 * (?n div 256 ^ 2) + ?n div 256 mod 256 = ?n div 256"
      using mult_div_mod_eq [of 256 "?n div 256"] by (simp add: div_mult2_eq [symmetric])
    ultimately show ?thesis by (simp only: mult_div_mod_eq)
  qed
  then have "foldl (\<lambda>a b. 256 * a + b) 0 (pack_word w) = ?n"
    by (simp only: pack_word_def list.map foldl_Cons foldl_Nil power_0 power_one_right div_by_1 mult_0_right add_0)
  then show ?thesis by (simp add: unpack_word_def)
qed

lemma unpack_pack: "unpack_4I (pack_4I ws) = ws"
proof (induction ws)
  case (Cons w ws)
  obtain a b c d where "pack_word w = [a, b, c, d]" by (simp add: pack_word_def)
  with Cons unpack_pack_word [of w] show ?case by (simp add: pack_4I_def)
qed (simp add: pack_4I_def)

lemma length_pack_4I: "length (pack_4I ws) = 4 * length ws"
  by (induction ws) (simp_all add: pack_4I_def pack_word_def)

lemma pack_4I_bytes: "b \<in> set (pack_4I ws) \<Longrightarrow> b < 256"
  by (auto simp: pack_4I_def pack_word_def)

text \<open>A worker sends \<open>num_packets\<close> datagrams; an index past its buffer raises, which ends the
  process after what it has sent. The flag says whether it reached the end.\<close>

fun packet_blaster_worker :: "32 word list \<Rightarrow> nat \<Rightarrow> nat list list \<times> bool" where
  "packet_blaster_worker byte_buffer 0 = ([], True)"
| "packet_blaster_worker byte_buffer (Suc n) =
     (case byte_buffer of
        a # b # c # d # rest \<Rightarrow>
          (let (sent, ok) = packet_blaster_worker rest n in (pack_4I [a, b, c, d] # sent, ok))
      | _ \<Rightarrow> ([], False))"

text \<open>The main program: equal slices, one worker each. A slice past the end of the array is cut there.\<close>

definition worker_slice :: "nat \<Rightarrow> 32 word list \<Rightarrow> nat \<Rightarrow> 32 word list" where
  "worker_slice chunk_size raw_payloads core =
     (let start_slice = core * chunk_size * 4; end_slice = start_slice + chunk_size * 4
      in drop start_slice (take end_slice raw_payloads))"

definition stress_run :: "nat \<Rightarrow> nat \<Rightarrow> nat \<Rightarrow> (nat list list \<times> bool) list option" where
  "stress_run total_packets corruption_rate cores =
     (case generate_fuzzing_matrices total_packets corruption_rate of
        None \<Rightarrow> None
      | Some raw_payloads \<Rightarrow>
          if cores = 0 then None
          else let chunk_size = total_packets div cores
               in Some (map (\<lambda>core. packet_blaster_worker (worker_slice chunk_size raw_payloads core) chunk_size) [0..<cores]))"

lemma length_fuzz_packet [simp]: "length (fuzz_packet r i) = 4"
  by (simp add: fuzz_packet_def Let_def split: prod.split)

lemma length_packets: "length (concat (map (fuzz_packet r) is)) = 4 * length is"
  by (induction "is") simp_all

lemma drop_packets: "drop (4 * k) (concat (map (fuzz_packet r) is)) = concat (map (fuzz_packet r) (drop k is))"
proof (induction "is" arbitrary: k)
  case (Cons i "is")
  show ?case
  proof (cases k)
    case (Suc n)
    then have "drop (4 * k) (fuzz_packet r i @ concat (map (fuzz_packet r) is)) = drop (4 * n) (concat (map (fuzz_packet r) is))"
      by simp
    with Suc Cons.IH [of n] show ?thesis by simp
  qed simp
qed simp

lemma take_packets: "take (4 * k) (concat (map (fuzz_packet r) is)) = concat (map (fuzz_packet r) (take k is))"
proof (induction "is" arbitrary: k)
  case (Cons i "is")
  show ?case
  proof (cases k)
    case (Suc n)
    then have "take (4 * k) (fuzz_packet r i @ concat (map (fuzz_packet r) is)) = fuzz_packet r i @ take (4 * n) (concat (map (fuzz_packet r) is))"
      by simp
    with Suc Cons.IH [of n] show ?thesis by simp
  qed simp
qed simp

lemma worker_sends:
  "packet_blaster_worker (concat (map (fuzz_packet r) is)) (length is) = (map (\<lambda>i. pack_4I (fuzz_packet r i)) is, True)"
proof (induction "is")
  case (Cons i "is")
  obtain a b c d where p: "fuzz_packet r i = [a, b, c, d]"
    using length_fuzz_packet [of r i] by (auto simp: length_Suc_conv eval_nat_numeral simp del: length_fuzz_packet)
  from Cons show ?case by (simp add: p)
qed simp

lemma slice_packets:
  assumes "c < cores" "chunk * cores \<le> n"
  shows "packet_blaster_worker (worker_slice chunk (concat (map (fuzz_packet r) [0..<n])) c) chunk
    = (map (\<lambda>i. pack_4I (fuzz_packet r i)) [c * chunk..<Suc c * chunk], True)"
proof -
  have "Suc c * chunk \<le> cores * chunk" using assms(1) by (intro mult_le_mono1) simp
  then have n: "Suc c * chunk \<le> n" using assms(2) by (simp only: mult.commute [of cores])
  have "worker_slice chunk (concat (map (fuzz_packet r) [0..<n])) c
      = drop (4 * (c * chunk)) (take (4 * (Suc c * chunk)) (concat (map (fuzz_packet r) [0..<n])))"
    by (simp add: worker_slice_def Let_def algebra_simps)
  also have "\<dots> = concat (map (fuzz_packet r) [c * chunk..<Suc c * chunk])"
    unfolding take_packets drop_packets using n by (simp add: take_upt)
  finally show ?thesis using worker_sends [of r "[c * chunk..<Suc c * chunk]"] by simp
qed

lemma concat_slices: "concat (map (\<lambda>c. map f [c * k..<Suc c * k]) [0..<m]) = map f [0..<m * k]"
proof (induction m)
  case (Suc m)
  have "[0..<Suc m * k] = [0..<m * k] @ [m * k..<Suc m * k]"
    using upt_add_eq_append [of 0 "m * k" k] by (simp add: add.commute)
  with Suc show ?case by simp
qed simp

text \<open>Every worker of the stress test reaches its end, and together they send, in order and once each,
  the packets below the largest multiple of the core count; the remainder of the division is never
  sent. Each datagram has sixteen bytes and unpacks to its packet.
\<close>

theorem stress_sends_prefix:
  assumes "0 < rate" "0 < cores"
  shows "\<exists>runs. stress_run samples rate cores = Some runs \<and> list_all snd runs
    \<and> concat (map fst runs) = map (\<lambda>i. pack_4I (fuzz_packet rate i)) [0..<samples - samples mod cores]
    \<and> list_all (\<lambda>d. length d = 16 \<and> (\<forall>b \<in> set d. b < 256)) (concat (map fst runs))
    \<and> map unpack_4I (concat (map fst runs)) = map (fuzz_packet rate) [0..<samples - samples mod cores]"
proof -
  define chunk where "chunk = samples div cores"
  let ?runs = "map (\<lambda>core. packet_blaster_worker (worker_slice chunk (concat (map (fuzz_packet rate) [0..<samples])) core) chunk) [0..<cores]"
  have le: "chunk * cores \<le> samples" by (simp add: chunk_def)
  have runs: "?runs = map (\<lambda>c. (map (\<lambda>i. pack_4I (fuzz_packet rate i)) [c * chunk..<Suc c * chunk], True)) [0..<cores]"
    using slice_packets [OF _ le, of _ rate] by (intro map_cong) auto
  have sent: "concat (map fst ?runs) = map (\<lambda>i. pack_4I (fuzz_packet rate i)) [0..<samples - samples mod cores]"
    using concat_slices [of "\<lambda>i. pack_4I (fuzz_packet rate i)" chunk cores]
    unfolding runs by (simp add: comp_def chunk_def minus_mod_eq_mult_div)
  have "stress_run samples rate cores = Some ?runs"
    using assms by (simp add: stress_run_def generate_fuzzing_matrices_def chunk_def Let_def)
  moreover have "list_all snd ?runs" by (simp add: runs list_all_iff)
  moreover have "list_all (\<lambda>d. length d = 16 \<and> (\<forall>b \<in> set d. b < 256)) (concat (map fst ?runs))"
    unfolding sent by (auto simp: list_all_iff length_pack_4I pack_4I_bytes)
  moreover have "map unpack_4I (concat (map fst ?runs)) = map (fuzz_packet rate) [0..<samples - samples mod cores]"
    unfolding sent by (simp add: unpack_pack)
  ultimately show ?thesis using sent by blast
qed

theorem stress_sends_prefix_witness:
  "\<exists>runs. stress_run 10 3 4 = Some runs \<and> map unpack_4I (concat (map fst runs)) = map (fuzz_packet 3) [0..<8]"
  using stress_sends_prefix [of 3 4 10] by auto

section \<open>The antenna tuner\<close>

definition light_speed :: real where
  "light_speed = 299792458"

record horn_profile =
  opt_freq_mhz :: real
  gain_dbi :: real

definition tune_microwave_horn :: "real \<Rightarrow> real \<Rightarrow> horn_profile option" where
  "tune_microwave_horn h w =
     do { f_cutoff \<leftarrow> py_div light_speed (2 * max h w);
          let f_opt = f_cutoff * 1.35;
          lambda \<leftarrow> py_div light_speed f_opt;
          ratio \<leftarrow> py_div (4 * pi * h * w) (lambda ^ 2);
          l \<leftarrow> py_log10 ratio;
          Some \<lparr>opt_freq_mhz = py_round 2 (f_opt / 10 ^ 6), gain_dbi = py_round 2 (10 * l)\<rparr> }"

record omni_profile =
  res_freq_mhz :: real
  z0_ohms :: real

text \<open>The parameter is the value of \<open>math.tan\<close> at the float nearest to a right angle.\<close>

definition tune_biconical_hourglass :: "real \<Rightarrow> real \<Rightarrow> real \<Rightarrow> omni_profile option" where
  "tune_biconical_hourglass pole len angle_deg =
     do { f_res \<leftarrow> py_div light_speed (4 * len);
          cot \<leftarrow> py_div 1 (py_tan pole (radians angle_deg / 4));
          l \<leftarrow> py_log cot;
          Some \<lparr>res_freq_mhz = py_round 2 (f_res / 10 ^ 6), z0_ohms = py_round 2 (120 * l)\<rparr> }"

record band_profile =
  f_low_mhz :: real
  f_high_mhz :: real

definition tune_log_periodic :: "real \<Rightarrow> real \<Rightarrow> band_profile option" where
  "tune_log_periodic l_max l_min =
     do { f_low \<leftarrow> py_div light_speed (2 * l_max);
          f_high \<leftarrow> py_div light_speed (2 * l_min);
          Some \<lparr>f_low_mhz = py_round 2 (f_low / 10 ^ 6), f_high_mhz = py_round 2 (f_high / 10 ^ 6)\<rparr> }"

record helix_profile =
  center_freq_mhz :: real
  helix_z0_ohms :: real
  pol :: string

text \<open>The impedance computed from the circumference is not used: the profile holds the constant.\<close>

definition tune_helical_coil :: "real \<Rightarrow> real \<Rightarrow> real \<Rightarrow> helix_profile option" where
  "tune_helical_coil dia pitch turns =
     do { let circ = pi * dia;
          f_opt \<leftarrow> py_div light_speed circ;
          z0 \<leftarrow> py_div circ circ;
          Some \<lparr>center_freq_mhz = py_round 2 (f_opt / 10 ^ 6), helix_z0_ohms = 140, pol = ''RHCP''\<rparr> }"

lemma horn_eq:
  assumes "0 < h" "0 < w"
  shows "tune_microwave_horn h w =
    Some \<lparr>opt_freq_mhz = py_round 2 (1.35 * light_speed / (2 * max h w) / 10 ^ 6),
          gain_dbi = py_round 2 (10 * log 10 (1.35 ^ 2 * pi * (min h w / max h w)))\<rparr>"
proof -
  have m: "0 < max h w" "0 < min h w" "h * w = min h w * max h w" using assms by (auto simp: max_def min_def)
  have l: "light_speed / (light_speed / (2 * max h w) * 1.35) = 2 * max h w / 1.35"
    using m by (simp add: light_speed_def divide_simps)
  have "4 * pi * (min h w * max h w) / (2 * max h w / 1.35) ^ 2 = 1.35 ^ 2 * pi * (min h w / max h w)"
    using m by (simp add: power2_eq_square field_simps)
  then have q: "4 * pi * h * w / (2 * max h w / 1.35) ^ 2 = 1.35 ^ 2 * pi * (min h w / max h w)"
    using m(3) by (simp only: mult.assoc)
  have pos: "0 < 1.35 ^ 2 * pi * (min h w / max h w)" using m by simp
  have "py_div light_speed (2 * max h w) = Some (light_speed / (2 * max h w))"
    "py_div light_speed (light_speed / (2 * max h w) * 1.35) = Some (2 * max h w / 1.35)"
    "py_div (4 * pi * h * w) ((2 * max h w / 1.35) ^ 2) = Some (1.35 ^ 2 * pi * (min h w / max h w))"
    "py_log10 (1.35 ^ 2 * pi * (min h w / max h w)) = Some (log 10 (1.35 ^ 2 * pi * (min h w / max h w)))"
  proof -
    show "py_log10 (1.35 ^ 2 * pi * (min h w / max h w)) = Some (log 10 (1.35 ^ 2 * pi * (min h w / max h w)))"
      using pos by (rule py_log10_pos)
    show "py_div (4 * pi * h * w) ((2 * max h w / 1.35) ^ 2) = Some (1.35 ^ 2 * pi * (min h w / max h w))"
      using m by (simp only: q [symmetric]) simp
    show "py_div light_speed (light_speed / (2 * max h w) * 1.35) = Some (2 * max h w / 1.35)"
      using m by (simp only: l [symmetric]) (simp add: light_speed_def)
  qed (use m in simp)
  then show ?thesis by (simp only: tune_microwave_horn_def Let_def bind.bind_lunit) (simp add: mult.commute)
qed

text \<open>The horn's profile depends on the aperture as its physics says: turning it by a right angle
  changes nothing, scaling both sides leaves the gain and divides the frequency, and no horn has
  more gain than the square one. A log-periodic band is never inverted, and the helix ignores pitch and turns.
\<close>

theorem antenna_profiles:
  assumes "0 < h" "0 < w" "0 < k" "0 < l_min" "l_min \<le> l_max" "0 < dia"
  shows "tune_microwave_horn h w = tune_microwave_horn w h
    \<and> map_option gain_dbi (tune_microwave_horn (k * h) (k * w)) = map_option gain_dbi (tune_microwave_horn h w)
    \<and> (\<exists>p q. tune_microwave_horn h w = Some p \<and> tune_microwave_horn h h = Some q \<and> gain_dbi p \<le> gain_dbi q)
    \<and> (\<exists>b. tune_log_periodic l_max l_min = Some b \<and> f_low_mhz b \<le> f_high_mhz b)
    \<and> tune_helical_coil dia pitch turns = tune_helical_coil dia 0 0 \<and> tune_helical_coil dia 0 0 \<noteq> None"
proof (intro conjI)
  show "tune_microwave_horn h w = tune_microwave_horn w h"
    using horn_eq [OF assms(1,2)] horn_eq [OF assms(2,1)] by (simp add: max.commute min.commute)
  have "min (k * h) (k * w) = k * min h w" "max (k * h) (k * w) = k * max h w"
    using assms(3) by (simp_all add: min_mult_distrib_left max_mult_distrib_left)
  then show "map_option gain_dbi (tune_microwave_horn (k * h) (k * w)) = map_option gain_dbi (tune_microwave_horn h w)"
    using assms by (simp add: horn_eq)
  obtain r where r: "r = min h w / max h w" "r \<le> 1" "0 < r" using assms(1,2) by (auto simp: min_def max_def)
  have "log 10 (1.35 ^ 2 * pi * r) \<le> log 10 (1.35 ^ 2 * pi * 1)"
    using r(2,3) by (subst log_le_cancel_iff) (simp_all add: mult_left_le)
  then have "py_round 2 (10 * log 10 (1.35 ^ 2 * pi * r)) \<le> py_round 2 (10 * log 10 (1.35 ^ 2 * pi * 1))"
    by (intro py_round_mono) simp
  then show "\<exists>p q. tune_microwave_horn h w = Some p \<and> tune_microwave_horn h h = Some q \<and> gain_dbi p \<le> gain_dbi q"
    using horn_eq [OF assms(1,2)] horn_eq [OF assms(1,1)] assms(1) r(1) by simp
  have "light_speed / (2 * l_max) / 10 ^ 6 \<le> light_speed / (2 * l_min) / 10 ^ 6"
    using assms(4,5) by (intro divide_right_mono divide_left_mono) (simp_all add: light_speed_def)
  then show "\<exists>b. tune_log_periodic l_max l_min = Some b \<and> f_low_mhz b \<le> f_high_mhz b"
    using assms(4,5) by (simp add: tune_log_periodic_def py_div_def py_round_mono)
qed (use assms in \<open>simp_all add: tune_helical_coil_def py_div_def Let_def\<close>)

theorem antenna_profiles_witness:
  "tune_microwave_horn 1.8 1.2 = tune_microwave_horn 1.2 1.8 \<and> tune_helical_coil 1 0.25 10 = tune_helical_coil 1 0 0"
  using antenna_profiles [of "1.8" "1.2" 1 1 1 1 "0.25" 10] by simp

end
