(* ===== verification/Shore_Logger.thy ===== *)
theory Shore_Logger
  imports Audit_Ledger Authority
begin

text \<open>
  The shore facility logger (\<open>network_layer/shore_audit_logger.py\<close>): the same chained CSV ledger as
  the other compliance loggers, but without the watchdog hook and with a live JSON endpoint that
  each turn overwrites. The class \<open>ShoreFacilityAuditLogger\<close> is complete in the source; the file as
  shipped ends in pasted documentation and does not parse, so the class is modelled as it stands.

  The disk answers each turn twice: for the row, and for the endpoint, which is left alone when it
  cannot be opened and left cut when the dump fails after the file was truncated.
\<close>

section \<open>State and operations\<close>

record live_payload =
  last_updated_epoch :: string
  live_authority_mode :: string
  actuator_telemetry :: "(string \<times> string) list"
  live_row_sha256 :: string
  live_previous_sha256 :: string

datatype live_file = Absent | Snapshot live_payload | Cut

datatype json_disk = Json_Ok | Json_Refused | Json_Failed

record shore_logger = chain_logger +
  live_json :: live_file

definition shore_ledger :: ledger_kind where
  "shore_ledger = \<lparr>prefix_tag = ''shore_facility_audit'',
     csv_headers = [''timestamp_epoch'', ''authority_mode'', ''crane_power_pct'', ''crane_hook_locked'', ''blast_door_state'',
       ''breaker_relay_state'', ''sump_pump_state'', ''hvac_humidity_setpoint'', ''heating_valve_open'',
       ''current_row_sha256'', ''previous_row_sha256'']\<rparr>"

definition shore_logger_init :: "file_system \<Rightarrow> shore_logger" where
  "shore_logger_init fs = chain_logger.extend (chain_logger_init fs) \<lparr>live_json = Absent\<rparr>"

text \<open>An operation of the chained logger on the part of the state the two have in common.\<close>

definition on_chain :: "(chain_logger \<Rightarrow> chain_logger) \<Rightarrow> shore_logger \<Rightarrow> shore_logger" where
  "on_chain f l = chain_logger.extend (f (chain_logger.truncate l)) \<lparr>live_json = live_json l\<rparr>"

definition initialize_storage_paths :: "string \<Rightarrow> bool \<Rightarrow> shore_logger \<Rightarrow> shore_logger" where
  "initialize_storage_paths time_str io_ok l = on_chain (initialize_log_file shore_ledger True time_str io_ok) l"

text \<open>The printed values of a resolved state: \<open>mode\<close> under \<open>active_authority_mode\<close>, \<open>act_map k\<close> under a key
  of the actuator cache.\<close>

definition capture_facility_state_snapshot :: "string \<Rightarrow> string option \<Rightarrow> (string \<rightharpoonup> string) \<Rightarrow> shore_logger \<Rightarrow> shore_logger" where
  "capture_facility_state_snapshot now mode act_map l =
     on_chain (\<lambda>l. capture l
       [now, (case mode of None \<Rightarrow> ''UNKNOWN'' | Some m \<Rightarrow> m),
        dget act_map ''crane_hoist_power_pct'' ''0.0'', dget act_map ''crane_hook_lock_solenoid'' ''1'',
        dget act_map ''blast_door_actuator_state'' ''0'', dget act_map ''substation_breaker_relay'' ''1'',
        dget act_map ''sump_pump_override_relay'' ''0'', dget act_map ''hvac_dehumidifier_setpoint'' ''45.0'',
        dget act_map ''climate_heating_valve_open'' ''0'']) l"

definition actuator_keys :: "string list" where
  "actuator_keys = [''crane_hoist_power_pct'', ''crane_hook_lock_solenoid'', ''blast_door_actuator_state'',
     ''substation_breaker_relay'', ''sump_pump_override_relay'', ''hvac_dehumidifier_setpoint'', ''climate_heating_valve_open'']"

definition json_payload :: "string list \<Rightarrow> string \<Rightarrow> string \<Rightarrow> live_payload" where
  "json_payload data current_sha256 previous =
     \<lparr>last_updated_epoch = data ! 0, live_authority_mode = data ! 1,
      actuator_telemetry = zip actuator_keys (drop 2 data),
      live_row_sha256 = current_sha256, live_previous_sha256 = previous\<rparr>"

text \<open>One turn of the writer. A failed append loses the row and skips the rest of the turn.\<close>

definition shore_writer_turn :: "(string \<Rightarrow> string) \<Rightarrow> bool \<Rightarrow> json_disk \<Rightarrow> shore_logger \<Rightarrow> shore_logger" where
  "shore_writer_turn sha csv_ok json_io l =
     (case log_queue l of
        [] \<Rightarrow> if is_logging l then l else l\<lparr>worker := Idle\<rparr>
      | data # rest \<Rightarrow>
          let l = l\<lparr>log_queue := rest\<rparr>;
              current_sha256 = link_hash sha data (previous_row_hash l);
              final_csv_row = data @ [current_sha256, previous_row_hash l];
              path = log_file_path l
          in if \<not> csv_ok then l
             else let l = l\<lparr>disk := (disk l)(path \<mapsto> dget (disk l) path [] @ [final_csv_row])\<rparr>;
                      l = l\<lparr>previous_row_hash := current_sha256\<rparr>
                  in (case json_io of
                        Json_Ok \<Rightarrow> l\<lparr>live_json := Snapshot (json_payload data current_sha256 (last final_csv_row))\<rparr>
                      | Json_Refused \<Rightarrow> l
                      | Json_Failed \<Rightarrow> l\<lparr>live_json := Cut\<rparr>))"

definition start_shore_services :: "shore_logger \<Rightarrow> shore_logger" where
  "start_shore_services l = (if is_logging l then l else l\<lparr>is_logging := True, worker := Booting\<rparr>)"

definition stop_shore_services :: "shore_logger \<Rightarrow> shore_logger" where
  "stop_shore_services l = l\<lparr>is_logging := False\<rparr>"

datatype shore_event =
    S_Start | S_Stop
  | S_Capture string "string option" "string \<rightharpoonup> string"
  | S_Turn string bool json_disk

fun shore_step :: "(string \<Rightarrow> string) \<Rightarrow> shore_logger \<Rightarrow> shore_event \<Rightarrow> shore_logger" where
  "shore_step sha l S_Start = start_shore_services l"
| "shore_step sha l S_Stop = stop_shore_services l"
| "shore_step sha l (S_Capture now mode act_map) = capture_facility_state_snapshot now mode act_map l"
| "shore_step sha l (S_Turn day csv_ok json_io) =
     (case worker l of
        Booting \<Rightarrow> initialize_storage_paths day csv_ok l
      | Working \<Rightarrow> shore_writer_turn sha csv_ok json_io l
      | _ \<Rightarrow> l)"

abbreviation shore_run :: "(string \<Rightarrow> string) \<Rightarrow> shore_logger \<Rightarrow> shore_event list \<Rightarrow> shore_logger" where
  "shore_run sha \<equiv> foldl (shore_step sha)"

section \<open>The ledger part is the chained logger\<close>

definition facility_row :: "string \<Rightarrow> string option \<Rightarrow> (string \<rightharpoonup> string) \<Rightarrow> string list" where
  "facility_row now mode act_map =
     [now, (case mode of None \<Rightarrow> ''UNKNOWN'' | Some m \<Rightarrow> m),
      dget act_map ''crane_hoist_power_pct'' ''0.0'', dget act_map ''crane_hook_lock_solenoid'' ''1'',
      dget act_map ''blast_door_actuator_state'' ''0'', dget act_map ''substation_breaker_relay'' ''1'',
      dget act_map ''sump_pump_override_relay'' ''0'', dget act_map ''hvac_dehumidifier_setpoint'' ''45.0'',
      dget act_map ''climate_heating_valve_open'' ''0'']"

fun ledger_event :: "shore_event \<Rightarrow> log_event" where
  "ledger_event S_Start = Start"
| "ledger_event S_Stop = Stop"
| "ledger_event (S_Capture now mode act_map) = Capture (facility_row now mode act_map)"
| "ledger_event (S_Turn day csv_ok json_io) = Turn day csv_ok"

lemma truncate_on_chain [simp]: "chain_logger.truncate (on_chain f l) = f (chain_logger.truncate l)"
  by (simp add: on_chain_def chain_logger.defs)

lemma truncate_fields [simp]:
  "log_queue (chain_logger.truncate l) = log_queue l" "is_logging (chain_logger.truncate l) = is_logging l"
  "worker (chain_logger.truncate l) = worker l" "log_file_path (chain_logger.truncate l) = log_file_path l"
  "previous_row_hash (chain_logger.truncate l) = previous_row_hash l" "disk (chain_logger.truncate l) = disk l"
  by (simp_all add: chain_logger.defs)

lemma truncate_writer_turn:
  "chain_logger.truncate (shore_writer_turn sha csv_ok json_io l) = writer_turn sha True csv_ok (chain_logger.truncate l)"
  by (simp add: shore_writer_turn_def writer_turn_def chain_logger.defs Let_def split: list.split json_disk.split)

text \<open>Each step of the shore logger is a step of the chained logger with the hook in place.\<close>

lemma shore_step_refines:
  "chain_logger.truncate (shore_step sha l e) = log_step shore_ledger sha True (chain_logger.truncate l) (ledger_event e)"
proof (cases e)
  case (S_Turn day csv_ok json_io)
  then show ?thesis
    by (cases "worker l") (simp_all add: truncate_writer_turn initialize_storage_paths_def)
next
  case (S_Capture now mode act_map)
  then show ?thesis by (simp add: capture_facility_state_snapshot_def facility_row_def)
qed (simp_all add: start_shore_services_def stop_shore_services_def start_logger_services_def stop_logger_services_def
    chain_logger.defs)

lemma shore_run_refines:
  "chain_logger.truncate (shore_run sha l es) = log_run shore_ledger sha True (chain_logger.truncate l) (map ledger_event es)"
proof (induction es rule: rev_induct)
  case (snoc e es)
  then show ?case by (simp add: log_run_def shore_step_refines)
qed (simp add: log_run_def)

section \<open>The live endpoint\<close>

definition live_row :: "live_payload \<Rightarrow> string list" where
  "live_row p = last_updated_epoch p # live_authority_mode p # map snd (actuator_telemetry p)
     @ [live_row_sha256 p, live_previous_sha256 p]"

lemma live_row_payload:
  "length data = 9 \<Longrightarrow> live_row (json_payload data cur prev) = data @ [cur, prev]"
  by (auto simp: length_Suc_conv eval_nat_numeral live_row_def json_payload_def actuator_keys_def)

definition ledger_rows :: "shore_logger \<Rightarrow> string list list" where
  "ledger_rows l = tl (dget (disk l) (log_file_path l) [])"

text \<open>The endpoint shows a row of the ledger, the last one while the endpoint was always written.\<close>

definition live_ok :: "bool \<Rightarrow> shore_logger \<Rightarrow> bool" where
  "live_ok clean l \<longleftrightarrow>
     (\<forall>p. live_json l = Snapshot p \<longrightarrow> live_row p \<in> set (ledger_rows l))
     \<and> (clean \<longrightarrow> (if ledger_rows l = [] then live_json l = Absent
                    else \<exists>p. live_json l = Snapshot p \<and> live_row p = last (ledger_rows l)))"

fun clean_turn :: "shore_event \<Rightarrow> bool" where
  "clean_turn (S_Turn day csv_ok json_io) \<longleftrightarrow> json_io = Json_Ok"
| "clean_turn e \<longleftrightarrow> True"

fun shore_day :: "string \<Rightarrow> shore_event \<Rightarrow> bool" where
  "shore_day day (S_Turn d csv_ok json_io) \<longleftrightarrow> d = day"
| "shore_day day e \<longleftrightarrow> True"

lemma live_ok_same:
  "live_ok clean l \<Longrightarrow> live_json l' = live_json l \<Longrightarrow> ledger_rows l' = ledger_rows l \<Longrightarrow> live_ok (clean \<and> c) l'"
  by (simp add: live_ok_def)

lemma live_ok_turn:
  assumes "live_ok clean l" "\<forall>m \<in> set (log_queue l). length m = 9" "disk l (log_file_path l) = Some (h # rows)"
  shows "live_ok (clean \<and> json_io = Json_Ok) (shore_writer_turn sha csv_ok json_io l)"
proof (cases "log_queue l")
  case Nil
  then show ?thesis
    by (intro live_ok_same [OF assms(1)]) (simp_all add: shore_writer_turn_def ledger_rows_def)
next
  case (Cons data rest)
  let ?l = "shore_writer_turn sha csv_ok json_io l"
  let ?row = "data @ [link_hash sha data (previous_row_hash l), previous_row_hash l]"
  show ?thesis
  proof (cases csv_ok)
    case True
    have rows: "ledger_rows l = rows" using assms(3) by (simp add: ledger_rows_def dget_def)
    have "ledger_rows ?l = rows @ [?row]"
      using assms(3) Cons True
      by (cases json_io) (simp_all add: shore_writer_turn_def ledger_rows_def dget_def Let_def)
    moreover have "live_row (json_payload data (link_hash sha data (previous_row_hash l)) (previous_row_hash l)) = ?row"
      using assms(2) Cons by (intro live_row_payload) simp
    ultimately show ?thesis
      using assms(1) Cons True rows
      by (cases json_io) (auto simp: live_ok_def shore_writer_turn_def Let_def)
  next
    case False
    with Cons show ?thesis
      by (intro live_ok_same [OF assms(1)]) (simp_all add: shore_writer_turn_def ledger_rows_def Let_def)
  qed
qed

lemma shore_step_live:
  assumes "live_ok clean l" "ledger_holds shore_ledger sha 9 day ms (chain_logger.truncate l)" "shore_day day e"
  shows "live_ok (clean \<and> clean_turn e) (shore_step sha l e)"
proof -
  have holds: "\<forall>m \<in> set (log_queue l). length m = 9" "disk l (log_file_path l) = Some (csv_headers shore_ledger # chain_rows sha genesis ms)"
    "log_file_path l = ''shore_facility_audit_'' @ day @ ''.csv''"
    using assms(2) by (auto simp: ledger_holds_def shore_ledger_def)
  show ?thesis
  proof (cases e)
    case (S_Turn d csv_ok json_io)
    then have d: "d = day" using assms(3) by simp
    show ?thesis
    proof (cases "worker l")
      case Working
      with S_Turn live_ok_turn [OF assms(1) holds(1,2), of json_io sha csv_ok] show ?thesis by simp
    next
      case Booting
      with S_Turn d holds(2,3) show ?thesis
        by (intro live_ok_same [OF assms(1)])
           (simp_all add: initialize_storage_paths_def on_chain_def initialize_log_file_def ledger_rows_def shore_ledger_def
             chain_logger.defs Let_def)
    qed (use S_Turn in \<open>simp_all add: live_ok_same [OF assms(1)]\<close>)
  qed (rule live_ok_same [OF assms(1)]; simp add: start_shore_services_def stop_shore_services_def capture_facility_state_snapshot_def
      on_chain_def capture_def ledger_rows_def chain_logger.defs)+
qed

lemma ledger_day: "shore_day day e \<Longrightarrow> same_day 9 day (ledger_event e)"
  by (cases e) (simp_all add: facility_row_def)

lemma shore_run_live:
  assumes "live_ok True l" "ledger_holds shore_ledger sha 9 day ms (chain_logger.truncate l)" "\<forall>e \<in> set es. shore_day day e"
  shows "live_ok (list_all clean_turn es) (shore_run sha l es)
    \<and> (\<exists>ms'. ledger_holds shore_ledger sha 9 day ms' (chain_logger.truncate (shore_run sha l es)))"
  using assms(3)
proof (induction es rule: rev_induct)
  case (snoc e es)
  then obtain ms' where "live_ok (list_all clean_turn es) (shore_run sha l es)"
    "ledger_holds shore_ledger sha 9 day ms' (chain_logger.truncate (shore_run sha l es))" by auto
  moreover have "shore_day day e" using snoc.prems by simp
  ultimately show ?case
    using shore_step_live [of _ "shore_run sha l es" sha day ms' e]
      log_step_holds [of shore_ledger sha 9 day ms' "chain_logger.truncate (shore_run sha l es)" "ledger_event e"] ledger_day [of day e]
    by (auto simp: shore_step_refines)
qed (use assms in auto)



end
