(* ===== verification/Tactical_Consoles.thy ===== *)
theory Tactical_Consoles
  imports Consoles Config_Tcp
begin

text \<open>
  The two tactical consoles, \<open>buffered_tactical_console.py\<close> and \<open>config_linked_console.py\<close>. Neither
  file parses as shipped: the first has a loop body pasted into its constructor, both have lost the
  indentation of their last lines. The methods that are complete are modelled as they stand: the
  registers, the tracking worker, the buttons and the painting of the first; loading, geometry,
  painting and tracking of the second. The window toolkit refuses to paint a region with a
  negative coordinate, which the code's \<open>try\<close> around the painting swallows.
\<close>

section \<open>BufferedTacticalConsole\<close>

record tracker =
  target_bearing_deg :: real
  target_distance_px :: real
  current_azimuth_deg :: real
  current_elevation_deg :: real
  is_target_locked :: bool
  trigger_dispatched :: bool
  last_calc_timestamp :: real

definition tracker_init :: "real \<Rightarrow> tracker" where
  "tracker_init now = \<lparr>target_bearing_deg = 45, target_distance_px = 150, current_azimuth_deg = 0,
     current_elevation_deg = 0, is_target_locked = False, trigger_dispatched = False, last_calc_timestamp = now\<rparr>"

definition wrap_180 :: "real \<Rightarrow> real" where
  "wrap_180 x = py_mod (x + 180) 360 - 180"

text \<open>One round of the 100 Hz worker.\<close>

definition hardware_math_step :: "real \<Rightarrow> tracker \<Rightarrow> tracker" where
  "hardware_math_step start_loop s =
     (let s = s\<lparr>target_bearing_deg := py_mod (target_bearing_deg s + 0.3) 360\<rparr>;
          error_az = wrap_180 (target_bearing_deg s - current_azimuth_deg s);
          s = s\<lparr>current_azimuth_deg := current_azimuth_deg s + error_az * 0.25\<rparr>;
          s = (if \<bar>error_az\<bar> < 0.5 then s\<lparr>is_target_locked := True\<rparr>
               else s\<lparr>is_target_locked := False, trigger_dispatched := False\<rparr>)
      in s\<lparr>last_calc_timestamp := start_loop\<rparr>)"

definition manually_shift_mock_target :: "tracker \<Rightarrow> tracker" where
  "manually_shift_mock_target s =
     s\<lparr>target_bearing_deg := py_mod (target_bearing_deg s + 120) 360, trigger_dispatched := False\<rparr>"

definition execute_instant_engagement :: "tracker \<Rightarrow> tracker" where
  "execute_instant_engagement s = (if is_target_locked s then s\<lparr>trigger_dispatched := True\<rparr> else s)"

definition render_tracker_pixels :: "tracker \<Rightarrow> draw list" where
  "render_tracker_pixels s =
     (let cx = 400 div 2; cy = 400 div 2;
          rad_az = radians (current_azimuth_deg s);
          end_x = py_int (200 + (200 - 20) * sin rad_az); end_y = py_int (200 - (200 - 20) * cos rad_az);
          rad_tgt = radians (target_bearing_deg s);
          tgt_x = py_int (200 + target_distance_px s * sin rad_tgt); tgt_y = py_int (200 - target_distance_px s * cos rad_tgt);
          mount_color = (if \<not> is_target_locked s then ''#00ff00'' else ''#ffcc00'');
          tgt_color = (if \<not> is_target_locked s then ''#00ff00'' else ''#ff0000'')
      in [(tgt_color, tgt_x - 4, tgt_y - 4, tgt_x + 4, tgt_y + 4),
          (''#003300'', cx - 50, cy, cx + 50, cy + 1),
          (''#003300'', cx, cy - 50, cx, cy + 50),
          (mount_color, end_x - 2, end_y - 2, end_x + 2, end_y + 2)])"

datatype tracker_event = Math_Step real | Shift_Target | Engage

fun tracker_step :: "tracker \<Rightarrow> tracker_event \<Rightarrow> tracker" where
  "tracker_step s (Math_Step t) = hardware_math_step t s"
| "tracker_step s Shift_Target = manually_shift_mock_target s"
| "tracker_step s Engage = execute_instant_engagement s"

section \<open>The tracking error\<close>

lemma wrap_180_range: "- 180 \<le> wrap_180 x" "wrap_180 x < 180"
  using py_mod_range [of 360 "x + 180"] by (simp_all add: wrap_180_def)

lemma wrap_180_turns: "- 180 \<le> x \<Longrightarrow> x < 180 \<Longrightarrow> wrap_180 (x + 360 * of_int k) = x"
proof -
  assume "- 180 \<le> x" "x < 180"
  then have "\<lfloor>(x + 360 * of_int k + 180) / 360\<rfloor> = k" by (simp add: floor_eq_iff field_simps)
  then show ?thesis by (simp add: wrap_180_def py_mod_def)
qed

lemma wrap_180_eq: "\<exists>k::int. x = wrap_180 x + 360 * of_int k"
  by (rule exI [of _ "\<lfloor>(x + 180) / 360\<rfloor>"]) (simp add: wrap_180_def py_mod_def)

lemma py_mod_turn: "\<exists>k::int. py_mod x 360 = x + 360 * of_int k"
  by (rule exI [of _ "- \<lfloor>x / 360\<rfloor>"]) (simp add: py_mod_def)

text \<open>The error the next round will see.\<close>

definition next_error :: "tracker \<Rightarrow> real" where
  "next_error s = wrap_180 (py_mod (target_bearing_deg s + 0.3) 360 - current_azimuth_deg s)"

lemma math_step_fields:
  "is_target_locked (hardware_math_step t s) \<longleftrightarrow> \<bar>next_error s\<bar> < 0.5"
  "trigger_dispatched (hardware_math_step t s) \<longleftrightarrow> trigger_dispatched s \<and> \<bar>next_error s\<bar> < 0.5"
  by (simp_all add: hardware_math_step_def next_error_def Let_def)

text \<open>A round takes a quarter of the error away and the target moves on by 0.3 degrees.\<close>

lemma next_error_step: "next_error (hardware_math_step t s) = 0.75 * next_error s + 0.3"
proof -
  let ?t = "py_mod (target_bearing_deg s + 0.3) 360" and ?e = "next_error s"
  obtain k where k: "?t - current_azimuth_deg s = ?e + 360 * of_int k"
    unfolding next_error_def using wrap_180_eq by blast
  obtain j where j: "py_mod (?t + 0.3) 360 = ?t + 0.3 + 360 * of_int j" using py_mod_turn by blast
  have "next_error (hardware_math_step t s) = wrap_180 (py_mod (?t + 0.3) 360 - (current_azimuth_deg s + ?e * 0.25))"
    by (simp add: next_error_def hardware_math_step_def Let_def)
  also have "py_mod (?t + 0.3) 360 - (current_azimuth_deg s + ?e * 0.25) = (0.75 * ?e + 0.3) + 360 * of_int (k + j)"
    using k j by (simp add: algebra_simps)
  also have "wrap_180 \<dots> = 0.75 * ?e + 0.3"
    using wrap_180_range [of "?t - current_azimuth_deg s"]
    by (intro wrap_180_turns) (simp_all add: next_error_def)
  finally show ?thesis .
qed

lemma next_error_engage: "next_error (execute_instant_engagement s) = next_error s"
  by (simp add: next_error_def execute_instant_engagement_def)

fun is_round :: "tracker_event \<Rightarrow> bool" where
  "is_round (Math_Step t) \<longleftrightarrow> True"
| "is_round e \<longleftrightarrow> False"

text \<open>Over rounds and engagements the distance from the lag of 1.2 degrees shrinks geometrically.\<close>

lemma error_after:
  assumes "Shift_Target \<notin> set es"
  shows "next_error (foldl tracker_step s es) = 1.2 + (next_error s - 1.2) * 0.75 ^ length (filter is_round es)"
  using assms
proof (induction es rule: rev_induct)
  case (snoc e es)
  define p :: real where "p = 0.75 ^ length (filter is_round es)"
  have E: "next_error (foldl tracker_step s es) = 1.2 + (next_error s - 1.2) * p" using snoc by (simp add: p_def)
  show ?case
  proof (cases e)
    case (Math_Step t)
    have "next_error (foldl tracker_step s (es @ [e])) = 0.75 * (1.2 + (next_error s - 1.2) * p) + 0.3"
      by (simp only: Math_Step foldl_append foldl_Cons foldl_Nil tracker_step.simps next_error_step E)
    also have "\<dots> = 1.2 + (next_error s - 1.2) * (0.75 * p)" by (simp add: field_simps)
    finally show ?thesis by (simp add: Math_Step p_def)
  qed (use snoc in \<open>simp_all add: next_error_engage\<close>)
qed simp

text \<open>Unlocked and not dispatched.\<close>

definition holding :: "tracker \<Rightarrow> bool" where
  "holding s \<longleftrightarrow> \<not> is_target_locked s \<and> \<not> trigger_dispatched s"

lemma holding_steps:
  "holding s \<Longrightarrow> holding (execute_instant_engagement s)"
  "0.5 \<le> \<bar>next_error s\<bar> \<Longrightarrow> holding (hardware_math_step t s)"
  by (simp_all add: holding_def execute_instant_engagement_def math_step_fields)

lemma lag_unlocked:
  assumes "- 180 \<le> e" "20 \<le> n"
  shows "0.5 \<le> \<bar>1.2 + (e - 1.2) * 0.75 ^ n :: real\<bar>"
proof -
  have "(0.75::real) ^ n \<le> 0.75 ^ 20" using assms(2) by (intro power_decreasing) auto
  also have "\<dots> < 0.0035" by (simp add: power_divide)
  finally have p: "(0.75::real) ^ n < 0.0035" .
  have "(- 181.2) * 0.75 ^ n \<le> (e - 1.2) * 0.75 ^ n" using assms(1) by (intro mult_right_mono) auto
  with p show ?thesis by simp
qed



section \<open>ConfigLinkedTacticalConsole\<close>

record linked_console =
  l_hull :: real
  b_beam :: pynum
  pixels_per_meter :: real
  linked_bearing_deg :: real
  linked_distance_meters :: real
  linked_azimuth_deg :: real
  linked_locked :: bool
  linked_screen :: "draw list"

definition hull_fallback :: json where
  "hull_fallback = JObj [(''hull_length'', JNum (Fin 45)), (''beam'', JNum (Fin 9.5)), (''max_torque'', JNum (Fin 90000))]"

definition load_json_hull_specifications :: "config_file \<Rightarrow> json" where
  "load_json_hull_specifications f = (case f of Document data \<Rightarrow> data | _ \<Rightarrow> hull_fallback)"

text \<open>\<open>float(profile.get(key, default))\<close>; only a dictionary has the method.\<close>

definition profile_float :: "json \<Rightarrow> string \<Rightarrow> real \<Rightarrow> pynum outcome" where
  "profile_float d k fallback =
     (case d of
        JObj kvs \<Rightarrow> (case map_of kvs k of None \<Rightarrow> Ret (Fin fallback) | Some v \<Rightarrow> to_float v)
      | _ \<Rightarrow> Exn ''AttributeError'')"

text \<open>\<open>put\<close> refuses a region with a negative coordinate; the \<open>try\<close> ends the painting there. The
  flag says whether all was painted.\<close>

fun region_ok :: "draw \<Rightarrow> bool" where
  "region_ok (c, x0, y0, x1, y1) \<longleftrightarrow> 0 \<le> x0 \<and> 0 \<le> y0 \<and> 0 \<le> x1 \<and> 0 \<le> y1"

definition paint :: "draw list \<Rightarrow> draw list \<times> bool" where
  "paint ds = (takeWhile region_ok ds, list_all region_ok ds)"

definition ring_marks :: "int \<Rightarrow> draw list" where
  "ring_marks radius =
     [(''#002b00'', 200 - 2, 200 - radius - 2, 200 + 2, 200 - radius + 2),
      (''#002b00'', 200 - 2, 200 + radius - 2, 200 + 2, 200 + radius + 2),
      (''#002b00'', 200 - radius - 2, 200 - 2, 200 - radius + 2, 200 + 2),
      (''#002b00'', 200 + radius - 2, 200 - 2, 200 + radius + 2, 200 + 2)]"

definition ring_radii :: "linked_console \<Rightarrow> int list" where
  "ring_radii c = [py_int (l_hull c * pixels_per_meter c), py_int ((l_hull c * 2.5) * pixels_per_meter c),
     py_int ((l_hull c * 4) * pixels_per_meter c)]"

text \<open>Hull box, target and pointer, painted after the rings.\<close>

definition tactical_marks :: "linked_console \<Rightarrow> real \<Rightarrow> draw list" where
  "tactical_marks c beam =
     (let ppm = pixels_per_meter c;
          hx_offset = max 2 (py_int ((beam / 2) * ppm)); hy_offset = max 4 (py_int ((l_hull c / 2) * ppm));
          tgt_pixel_dist = linked_distance_meters c * ppm; rad_tgt = radians (linked_bearing_deg c);
          tx = py_int (200 + tgt_pixel_dist * sin rad_tgt); ty = py_int (200 - tgt_pixel_dist * cos rad_tgt);
          rad_az = radians (linked_azimuth_deg c); ring_2 = of_int (ring_radii c ! 1);
          ax = py_int (200 + ring_2 * sin rad_az); ay = py_int (200 - ring_2 * cos rad_az);
          tgt_color = (if linked_locked c then ''#ff0000'' else ''#00ff00'')
      in [(''#004400'', 200 - hx_offset, 200 - hy_offset, 200 + hx_offset, 200 + hy_offset),
          (tgt_color, tx - 4, ty - 4, tx + 4, ty + 4),
          (''#ffffff'', ax - 2, ay - 2, ax + 2, ay + 2)])"

text \<open>An infinite or undefined beam makes \<open>int\<close> raise inside the \<open>try\<close>.\<close>

definition render_linked_pixels :: "linked_console \<Rightarrow> draw list" where
  "render_linked_pixels c =
     (let (rings, ok) = paint (concat (map ring_marks (ring_radii c)))
      in if \<not> ok then rings
         else case b_beam c of
           Fin beam \<Rightarrow> rings @ fst (paint (tactical_marks c beam))
         | _ \<Rightarrow> rings)"

definition linked_tick :: "linked_console \<Rightarrow> linked_console" where
  "linked_tick c =
     (let c = c\<lparr>linked_bearing_deg := py_mod (linked_bearing_deg c + 0.4) 360\<rparr>;
          err = \<bar>linked_bearing_deg c - linked_azimuth_deg c\<bar>;
          c = c\<lparr>linked_locked := err < 1\<rparr>;
          c = c\<lparr>linked_azimuth_deg := linked_azimuth_deg c + (linked_bearing_deg c - linked_azimuth_deg c) * 0.15\<rparr>
      in c\<lparr>linked_screen := render_linked_pixels c\<rparr>)"

text \<open>
  The constructor: the three values must be readable as numbers, a hull of length zero divides
  by zero, an infinite or undefined one gives a ring radius that \<open>int\<close> refuses; then the first tick runs.
\<close>

definition linked_console_init :: "config_file \<Rightarrow> linked_console outcome" where
  "linked_console_init f =
     (let d = load_json_hull_specifications f in
      case (profile_float d ''hull_length'' 45, profile_float d ''beam'' 9.5, profile_float d ''max_torque'' 90000) of
        (Exn e, _, _) \<Rightarrow> Exn e
      | (Ret metres, Exn e, _) \<Rightarrow> Exn e
      | (Ret metres, Ret beam, Exn e) \<Rightarrow> Exn e
      | (Ret metres, Ret beam, Ret torque) \<Rightarrow>
          (case metres of
             Fin L \<Rightarrow>
               if L = 0 then Exn ''ZeroDivisionError''
               else Ret (linked_tick \<lparr>l_hull = L, b_beam = beam, pixels_per_meter = (200 * 0.33) / L, linked_bearing_deg = 45,
                      linked_distance_meters = L * 2.5, linked_azimuth_deg = 0, linked_locked = False, linked_screen = []\<rparr>)
           | _ \<Rightarrow> Exn ''ValueError''))"

lemma linked_tick_fields [simp]:
  "l_hull (linked_tick c) = l_hull c" "pixels_per_meter (linked_tick c) = pixels_per_meter c" "b_beam (linked_tick c) = b_beam c"
  by (simp_all add: linked_tick_def Let_def)

lemma linked_init_scale:
  "linked_console_init f = Ret c \<Longrightarrow> l_hull c \<noteq> 0 \<and> pixels_per_meter c = 66 / l_hull c"
  by (auto simp: linked_console_init_def Let_def split: outcome.splits pynum.splits if_splits)

lemma linked_run_scale:
  "l_hull ((linked_tick ^^ n) c) = l_hull c" "pixels_per_meter ((linked_tick ^^ n) c) = pixels_per_meter c"
  by (induction n) simp_all

lemma ring_radii_fixed:
  assumes "l_hull c \<noteq> 0" "pixels_per_meter c = 66 / l_hull c"
  shows "ring_radii c = [66, 165, 264]"
proof -
  have "l_hull c * pixels_per_meter c = 66" using assms by simp
  moreover have "(l_hull c * 2.5) * pixels_per_meter c = 165" using assms by simp
  moreover have "(l_hull c * 4) * pixels_per_meter c = 264" using assms by simp
  moreover have "py_int 66 = 66" "py_int 165 = 165" "py_int 264 = 264" by (simp_all add: py_int_def)
  ultimately show ?thesis by (simp only: ring_radii_def)
qed

lemma render_rings_only:
  assumes "ring_radii c = [66, 165, 264]"
  shows "render_linked_pixels c = ring_marks 66 @ ring_marks 165"
  by (simp add: render_linked_pixels_def assms paint_def ring_marks_def)

text \<open>Whatever ship the configuration describes, the autocalibrated console draws the same picture: the
  scale cancels, so the rings have radii 66, 165 and 264 pixels for every hull length, the outer one
  leaves the 400 by 400 image, the toolkit refuses its first mark, and neither the hull, the target nor
  the pointer is ever painted.
\<close>

theorem linked_console_paints_no_target:
  assumes "linked_console_init f = Ret c"
  shows "ring_radii ((linked_tick ^^ n) c) = [66, 165, 264]
    \<and> linked_screen (linked_tick ((linked_tick ^^ n) c)) = ring_marks 66 @ ring_marks 165
    \<and> (\<forall>p \<in> set (linked_screen (linked_tick ((linked_tick ^^ n) c))). fst p = ''#002b00'')"
proof -
  have scale: "l_hull ((linked_tick ^^ n) c) \<noteq> 0" "pixels_per_meter ((linked_tick ^^ n) c) = 66 / l_hull ((linked_tick ^^ n) c)"
    using linked_init_scale [OF assms] by (simp_all add: linked_run_scale)
  have "linked_screen (linked_tick s) = ring_marks 66 @ ring_marks 165"
    if "l_hull s \<noteq> 0" "pixels_per_meter s = 66 / l_hull s" for s
    using that by (simp add: linked_tick_def Let_def render_rings_only ring_radii_fixed)
  with scale ring_radii_fixed [OF scale] show ?thesis by (simp add: ring_marks_def)
qed

theorem linked_console_paints_no_target_witness:
  "\<exists>c. linked_console_init Missing = Ret c \<and> linked_screen (linked_tick c) = ring_marks 66 @ ring_marks 165"
proof -
  obtain c where c: "linked_console_init Missing = Ret c"
    by (simp add: linked_console_init_def load_json_hull_specifications_def hull_fallback_def profile_float_def Let_def)
  from linked_console_paints_no_target [OF c, of 0] c show ?thesis by auto
qed

end
