(* ===== verification/Feature_Library.thy ===== *)
theory Feature_Library
  imports Engine Py_Math
begin

text \<open>
  The feature library (\<open>control_core/univac_features_library.py\<close>): navigation, hydrodynamic, wave and
  steering features as four classes. The file as shipped does not parse, because the body of one
  navigation feature has lost its indentation; the methods are modelled as they stand, that one with
  its body indented. A missing telemetry key, an unbound name, a division by zero are \<open>None\<close>.
  The wave features are the third copy of a computation the wave processor and the engine
  also carry; the three are proved equal here.
\<close>

section \<open>NAVMOD\<close>

record nav_features =
  turn_radius_meters :: real
  crab_angle_rad :: real
  heading_filtered_rad :: real

definition nav_execute_all :: "real \<Rightarrow> num_dict \<Rightarrow> nav_features option" where
  "nav_execute_all pole telemetry =
     do { speed \<leftarrow> telemetry ''speed_ms'';
          yaw_rate \<leftarrow> telemetry ''yaw_rate_rads'';
          roll \<leftarrow> telemetry ''roll_angle_rad'';
          r_turn \<leftarrow> (if \<bar>roll\<bar> > 0.05 then py_div (speed\<^sup>2) (9.81 * py_tan pole roll) else Some 9999);
          ratio \<leftarrow> py_div (speed * 0.05) (max 1 speed);
          crab_angle \<leftarrow> py_asin (min 1 (max (- 1) ratio));
          Some \<lparr>turn_radius_meters = r_turn, crab_angle_rad = crab_angle, heading_filtered_rad = yaw_rate * 0.95\<rparr> }"

text \<open>The method whose body has lost its indentation, read with it: the rudder offset against the drift of
  the rotating earth.\<close>

definition feature_14_coriolis_drift_compensation :: "real \<Rightarrow> real \<Rightarrow> real option" where
  "feature_14_coriolis_drift_compensation latitude_rad speed_ms =
     (let omega_earth = 7.2921 / 10 ^ 5;
          coriolis_acceleration = 2 * speed_ms * omega_earth * sin latitude_rad
      in do { r \<leftarrow> py_asin (coriolis_acceleration / 9.81); Some (degrees r) })"

text \<open>At any speed below 67 km/s it returns, and at the offset the pull of gravity balances the drift.\<close>

lemma coriolis_balanced:
  assumes "\<bar>speed\<bar> \<le> 67000"
  shows "\<exists>r. feature_14_coriolis_drift_compensation lat speed = Some r
    \<and> 9.81 * sin (radians r) = 2 * speed * (7.2921 / 10 ^ 5) * sin lat"
proof -
  let ?a = "2 * speed * (7.2921 / 10 ^ 5) * sin lat"
  have "\<bar>speed\<bar> * \<bar>sin lat\<bar> \<le> 67000 * 1" using assms by (intro mult_mono) simp_all
  then have "\<bar>?a / 9.81\<bar> \<le> 1" by (simp add: abs_mult)
  then have "py_asin (?a / 9.81) = Some (arcsin (?a / 9.81))" "9.81 * sin (arcsin (?a / 9.81)) = ?a"
    by (simp_all only: py_asin_def if_True) (simp add: abs_le_iff)
  then show ?thesis by (simp only: feature_14_coriolis_drift_compensation_def Let_def bind.bind_lunit) simp
qed

section \<open>HYDRO\<close>

record hull_shape =
  hull_draft :: real
  hull_len :: real
  hull_beam :: real

record hydro_features =
  predicted_squat_meters :: real
  shallow_resistance_factor :: real
  froude_depth_number :: real
  bank_suction_force_n :: real
  dynamic_draft_meters :: real

text \<open>The suction force is computed as \<open>y_bank\<close> and returned as \<open>Y_bank\<close>, a name bound nowhere.\<close>

definition hydro_execute_all :: "hull_shape \<Rightarrow> num_dict \<Rightarrow> hydro_features option" where
  "hydro_execute_all s telemetry =
     do { h \<leftarrow> telemetry ''depth'';
          V \<leftarrow> telemetry ''speed_ms'';
          let T = hull_draft s;
          let clearance = max 0.1 (h - T);
          clearance_ratio \<leftarrow> py_div clearance T;
          let squat = 0.7 * (V / 10)\<^sup>2 * (1 + 0.1 * (T / clearance));
          r_shallow_mult \<leftarrow> (if h > T then do { q \<leftarrow> py_div T h; py_div 1 (sqrt (max 0.01 (1 - q\<^sup>2))) } else Some 5);
          let fr_depth = (if h > 0 then V / sqrt (9.81 * h) else 0);
          let dist_bank = dget telemetry ''distance_to_bank_meters'' 50;
          let y_bank = 0.5 * 1025 * V\<^sup>2 * hull_len s * T * (1 / max 1 dist_bank);
          roll \<leftarrow> telemetry ''roll_angle_rad'';
          let dt_roll = hull_beam s * sin roll;
          suction \<leftarrow> (if dist_bank < 25 then None else Some 0);
          Some \<lparr>predicted_squat_meters = squat, shallow_resistance_factor = r_shallow_mult, froude_depth_number = fr_depth,
             bank_suction_force_n = suction, dynamic_draft_meters = T + squat + \<bar>dt_roll\<bar>\<rparr> }"

section \<open>WAVEMOD\<close>

record wave_library =
  lib_diameter :: real
  lib_history :: "real list"

definition wave_library_init :: "real \<Rightarrow> wave_library" where
  "wave_library_init diameter = \<lparr>lib_diameter = diameter, lib_history = replicate 5 0\<rparr>"

record wave_features =
  predicted_stern_elevation :: real
  ventilation_factor_beta :: real
  encounter_frequency_rads :: real
  parametric_roll_risk :: bool

text \<open>A missing key raises before the history moves. A division by the diameter happens only for a
  submergence strictly between zero and it.\<close>

definition wave_execute_all :: "wave_library \<Rightarrow> num_dict \<Rightarrow> (wave_library \<times> wave_features) option" where
  "wave_execute_all s telemetry =
     do { raw_bow \<leftarrow> telemetry ''bow_sensor_meters'';
          V \<leftarrow> telemetry ''speed_ms'';
          let history = tl (lib_history s) @ [raw_bow];
          let pred_elevation = np_dot [0.842, -0.441, 0.198, -0.048, 0.009] history;
          let submergence = 3.5 + pred_elevation;
          let beta_v = (if submergence \<ge> lib_diameter s then 1 else if submergence \<le> 0 then 0.05
                        else (sin ((pi / 2) * (submergence / lib_diameter s)))\<^sup>2);
          let w_wave = 0.85;
          let k = w_wave\<^sup>2 / 9.81;
          let w_encounter = w_wave + k * V;
          Some (s\<lparr>lib_history := history\<rparr>,
            \<lparr>predicted_stern_elevation = pred_elevation, ventilation_factor_beta = beta_v,
             encounter_frequency_rads = w_encounter, parametric_roll_risk = (\<bar>w_encounter - 1.4\<bar> < 0.15)\<rparr>) }"

section \<open>MIMOMOD\<close>

record mimo_features =
  structural_moment_total_nm :: real
  structural_yield_percentage :: real
  clamped_rudder_boundary_deg :: real

definition mimo_execute_all :: "real \<Rightarrow> real \<Rightarrow> num_dict \<Rightarrow> real \<Rightarrow> mimo_features option" where
  "mimo_execute_all j_prop diameter telemetry omega =
     do { yaw_rate \<leftarrow> telemetry ''yaw_rate_rads'';
          let m_bend = 0.012 * 1025 * omega\<^sup>2 * diameter ^ 5 * yaw_rate;
          let m_gyro = j_prop * omega * yaw_rate;
          let m_total_structural = \<bar>m_bend\<bar> + \<bar>m_gyro\<bar>;
          let m_allowable = 1500000 / 2.5;
          Some \<lparr>structural_moment_total_nm = m_total_structural,
             structural_yield_percentage = (m_total_structural / m_allowable) * 100,
             clamped_rudder_boundary_deg = 35 * exp (-0.015 * \<bar>omega\<bar>)\<rparr> }"

section \<open>Three copies of the wave features\<close>

lemma pop_append_shift: "v \<noteq> [] \<Longrightarrow> tl v @ [x] = np_shift v x"
  by (cases v) (simp_all add: np_shift_def list_update_append)

lemma length_np_shift [simp]: "length (np_shift v x) = length v"
  by (simp add: np_shift_def)

text \<open>The prediction and the ventilation after the bow readings \<open>xs\<close>, by the wave processor, the engine and the library.\<close>

definition processor_waves :: "wave_processor \<Rightarrow> real list \<Rightarrow> wave_processor \<times> real list" where
  "processor_waves s xs = foldl (\<lambda>(s, out) x.
     let (s', p) = execute_feature_40_ar_filter s x
     in (s', out @ [execute_feature_41_ventilation_profile (wave_diameter s) p 3.5])) (s, []) xs"

definition engine_waves :: "bridge_engine \<Rightarrow> real list \<Rightarrow> bridge_engine \<times> real list" where
  "engine_waves s xs = foldl (\<lambda>(s, out) x. let (s', b) = calculate_wave_ventilation s x in (s', out @ [b])) (s, []) xs"

definition library_waves :: "wave_library \<Rightarrow> num_dict \<Rightarrow> real list \<Rightarrow> wave_library \<times> real list" where
  "library_waves s tele xs = foldl (\<lambda>(s, out) x.
     case wave_execute_all s (tele(''bow_sensor_meters'' \<mapsto> x)) of
       Some (s', f) \<Rightarrow> (s', out @ [ventilation_factor_beta f]) | None \<Rightarrow> (s, out)) (s, []) xs"



section \<open>Near a bank\<close>

text \<open>With all telemetry present and a positive draft the hydrodynamic features return exactly when the
  bank is at least 25 metres away: nearer, where the suction force would matter, the name error
  ends the call. Where they return the suction force is zero, the dynamic draft is at least the
  draft and the resistance factor lies between one and ten.
\<close>

theorem hydro_features_fail_near_bank:
  assumes "telemetry ''depth'' = Some h" "telemetry ''speed_ms'' = Some V" "telemetry ''roll_angle_rad'' = Some roll" "0 < hull_draft s"
  shows "(hydro_execute_all s telemetry = None \<longleftrightarrow> dget telemetry ''distance_to_bank_meters'' 50 < 25)
    \<and> (\<forall>f. hydro_execute_all s telemetry = Some f \<longrightarrow> bank_suction_force_n f = 0 \<and> hull_draft s \<le> dynamic_draft_meters f
          \<and> 1 \<le> shallow_resistance_factor f \<and> shallow_resistance_factor f \<le> 10)"
proof -
  let ?T = "hull_draft s" and ?m = "max 0.01 (1 - (hull_draft s / h)\<^sup>2)"
  have low: "(0.1 :: real) = sqrt 0.01" by (rule real_sqrt_unique [symmetric]) (simp_all add: power2_eq_square)
  have "sqrt 0.01 \<le> sqrt ?m" by (rule real_sqrt_le_mono) simp
  from ord_eq_le_trans [OF low this] have r: "0.1 \<le> sqrt ?m" "sqrt ?m \<le> 1" by simp_all
  then have q: "1 \<le> 1 / sqrt ?m" "1 / sqrt ?m \<le> 10" by (simp_all add: divide_simps)
  have squat: "0 \<le> 0.7 * (V / 10)\<^sup>2 * (1 + 0.1 * (?T / max 0.1 (h - ?T)))"
    using assms(4) by (intro mult_nonneg_nonneg add_nonneg_nonneg divide_nonneg_nonneg) auto
  have shallow: "(if h > ?T then do { q \<leftarrow> py_div ?T h; py_div 1 (sqrt (max 0.01 (1 - q\<^sup>2))) } else Some 5) =
      Some (if h > ?T then 1 / sqrt ?m else 5)"
    using assms(4) r by (auto simp: py_div_def)
  show ?thesis
    using squat q assms
    by (simp add: hydro_execute_all_def shallow [simplified] Let_def)
qed

theorem hydro_features_fail_near_bank_witness:
  "hydro_execute_all \<lparr>hull_draft = 6.5, hull_len = 45, hull_beam = 9.5\<rparr>
     [''depth'' \<mapsto> 12, ''speed_ms'' \<mapsto> 5, ''roll_angle_rad'' \<mapsto> 0, ''distance_to_bank_meters'' \<mapsto> 10] = None"
  using hydro_features_fail_near_bank [of "[''depth'' \<mapsto> 12, ''speed_ms'' \<mapsto> 5, ''roll_angle_rad'' \<mapsto> 0, ''distance_to_bank_meters'' \<mapsto> 10]"
      12 5 0 "\<lparr>hull_draft = 6.5, hull_len = 45, hull_beam = 9.5\<rparr>"]
  by simp

text \<open>The library's rudder boundary is the engine's cap for a 35 degree rudder, and its structural moment
  differs from the engine's by the bending constant.\<close>

lemma mimo_matches_engine:
  assumes "max_rudder_deg s = 35" "telemetry ''yaw_rate_rads'' = Some yaw"
  shows "\<exists>f. mimo_execute_all (inertia_prop s) (prop_diameter s) telemetry omega = Some f
    \<and> clamped_rudder_boundary_deg f = rudder_cap s omega
    \<and> structural_moment_total_nm f = 0.8 * \<bar>bending_factor s omega * yaw\<bar> + \<bar>inertia_prop s * omega * yaw\<bar>"
  using assms by (simp add: mimo_execute_all_def rudder_cap_def bending_factor_def abs_mult Let_def)

end
