(* ===== verification/Console_Strobe.thy ===== *)
theory Console_Strobe
  imports Tactical_Consoles Targeting
begin

text \<open>
  The fragments pasted into \<open>buffered_tactical_console.py\<close>: the lead compensation of its constructor and
  the jammer mark of its refresh tick, with the error line of the panel. They are functions of what they
  read; the chart geometry (centre and scale), which this class does not have, is an argument, as is the
  targeting system, whose triangulation is the model of \<open>jammer_targeting_system.py\<close>.
\<close>

section \<open>Lead compensation\<close>

text \<open>The lead against the ship's own speed, then the turn over four seconds of flight. Outside the
  domain of the inverse sine the step raises.\<close>

definition lead_compensation :: "num_dict \<Rightarrow> tracker \<Rightarrow> tracker option" where
  "lead_compensation live_telemetry s =
     (let v_vessel = dget live_telemetry ''speed_ms'' 0;
          yaw_rate = dget live_telemetry ''yaw_rate_rads'' 0;
          tgt_bearing_rad = radians (target_bearing_deg s);
          muzzle_velocity = 825
      in do { lead_correction_rad \<leftarrow> py_asin ((v_vessel * sin tgt_bearing_rad) / muzzle_velocity);
              let compensated_bearing = target_bearing_deg s + degrees lead_correction_rad;
              let time_of_flight = 4;
              let predicted_slew_offset = degrees (yaw_rate * time_of_flight);
              Some (s\<lparr>current_azimuth_deg := compensated_bearing - predicted_slew_offset\<rparr>) })"

text \<open>The lead closes the velocity triangle. The step returns exactly when the ship's speed across the
  line of sight is at most the muzzle velocity; then the mount is offset from the target by the lead
  minus the turn of four seconds, the lead is at most a right angle, and the shell's velocity across the
  line of sight equals the ship's.
\<close>

theorem lead_closes_triangle:
  "let v = dget tele ''speed_ms'' 0; y = dget tele ''yaw_rate_rads'' 0; b = radians (target_bearing_deg s) in
     (lead_compensation tele s = None \<longleftrightarrow> 825 < \<bar>v * sin b\<bar>)
     \<and> (\<forall>s'. lead_compensation tele s = Some s' \<longrightarrow>
          (let lead = radians (current_azimuth_deg s' - target_bearing_deg s) + 4 * y in
             825 * sin lead = v * sin b \<and> \<bar>lead\<bar> \<le> pi / 2 \<and> s' = s\<lparr>current_azimuth_deg := current_azimuth_deg s'\<rparr>))"

proof -
  let ?v = "dget tele ''speed_ms'' 0" and ?y = "dget tele ''yaw_rate_rads'' 0" and ?b = "radians (target_bearing_deg s)"
  let ?q = "?v * sin ?b / 825"
  have range: "(\<bar>?q\<bar> \<le> 1) = (\<not> 825 < \<bar>?v * sin ?b\<bar>)" by (simp add: abs_divide not_less)
  show ?thesis
  proof (cases "\<bar>?q\<bar> \<le> 1")
    case True
    then have q: "- 1 \<le> ?q" "?q \<le> 1" by (simp_all only: abs_le_iff) linarith
    define a where "a = target_bearing_deg s + degrees (arcsin ?q) - degrees (?y * 4)"
    have run: "lead_compensation tele s = Some (s\<lparr>current_azimuth_deg := a\<rparr>)"
      using True by (simp only: lead_compensation_def Let_def py_asin_def if_True bind.bind_lunit a_def)
    have lead: "radians (a - target_bearing_deg s) + 4 * ?y = arcsin ?q"
      by (simp add: a_def radians_def degrees_def field_simps)
    have "825 * sin (arcsin ?q) = ?v * sin ?b" using q by simp
    moreover have "\<bar>arcsin ?q\<bar> \<le> pi / 2" using arcsin_bounded [OF q] by (intro abs_leI) linarith+
    ultimately show ?thesis using run lead range True by (simp add: Let_def)
  next
    case False
    then have "lead_compensation tele s = None" by (auto simp: lead_compensation_def py_asin_def Let_def)
    with False range show ?thesis by (simp add: Let_def)
  qed
qed

theorem lead_closes_triangle_witness:
  "\<exists>s'. lead_compensation [''speed_ms'' \<mapsto> 15] (tracker_init 0) = Some s'
     \<and> 825 * sin (radians (current_azimuth_deg s' - 45)) = 15 * sin (radians 45)"
proof -
  have "\<bar>15 * sin (radians 45)\<bar> \<le> 15 * 1" unfolding abs_mult by (intro mult_mono) simp_all
  then have "lead_compensation [''speed_ms'' \<mapsto> 15] (tracker_init 0) \<noteq> None"
    using lead_closes_triangle [of "[''speed_ms'' \<mapsto> 15]" "tracker_init 0"] by (simp add: tracker_init_def Let_def)
  then obtain s' where "lead_compensation [''speed_ms'' \<mapsto> 15] (tracker_init 0) = Some s'" by blast
  then show ?thesis
    using lead_closes_triangle [of "[''speed_ms'' \<mapsto> 15]" "tracker_init 0"] by (simp add: tracker_init_def Let_def)
qed

section \<open>The error line\<close>

definition displayed_error :: "tracker \<Rightarrow> real" where
  "displayed_error s = \<bar>target_bearing_deg s - current_azimuth_deg s\<bar>"

text \<open>Undisturbed, the lag settles at 0.9 degrees, while the target wraps at north and the mount does not.\<close>

lemma undisturbed_rounds:
  "\<exists>lag k::int. 0.9 < lag \<and> lag \<le> 45 \<and> (let s = foldl (\<lambda>s t. hardware_math_step t s) (tracker_init now) ts in
     target_bearing_deg s = 45 + 0.3 * real (length ts) - 360 * of_int k \<and> 0 \<le> target_bearing_deg s \<and> target_bearing_deg s < 360
     \<and> current_azimuth_deg s = 45 + 0.3 * real (length ts) - lag)"
proof (induction ts rule: rev_induct)
  case Nil
  show ?case by (rule exI [of _ 45], rule exI [of _ 0]) (simp add: tracker_init_def)
next
  case (snoc t ts)
  define s where "s = foldl (\<lambda>s t. hardware_math_step t s) (tracker_init now) ts"
  let ?n = "real (length ts)" and ?t = "py_mod (target_bearing_deg s + 0.3) 360"
  obtain lag k where lag: "0.9 < lag" "lag \<le> 45" "target_bearing_deg s = 45 + 0.3 * ?n - 360 * of_int k"
    "current_azimuth_deg s = 45 + 0.3 * ?n - lag" using snoc by (auto simp: s_def Let_def)
  obtain j where j: "?t = target_bearing_deg s + 0.3 + 360 * of_int j" using py_mod_turn by blast
  have "wrap_180 ((lag + 0.3) + 360 * of_int (j - k)) = lag + 0.3" using lag(1,2) by (intro wrap_180_turns) simp_all
  moreover have "?t - current_azimuth_deg s = (lag + 0.3) + 360 * of_int (j - k)" using lag j by (simp add: algebra_simps)
  ultimately have step: "target_bearing_deg (hardware_math_step t s) = ?t"
    "current_azimuth_deg (hardware_math_step t s) = current_azimuth_deg s + (lag + 0.3) * 0.25"
    by (simp_all add: hardware_math_step_def Let_def)
  have range: "0 \<le> ?t" "?t < 360" using py_mod_range [of 360 "target_bearing_deg s + 0.3"] by simp_all
  have t: "target_bearing_deg (hardware_math_step t s) = 45 + 0.3 * (?n + 1) - 360 * of_int (k - j)"
    by (subst step(1), subst j, subst lag(3)) (simp add: field_simps)
  have a: "current_azimuth_deg (hardware_math_step t s) = 45 + 0.3 * (?n + 1) - 0.75 * (lag + 0.3)"
    unfolding step(2) lag(4) by (simp add: field_simps)
  have ends: "foldl (\<lambda>s t. hardware_math_step t s) (tracker_init now) (ts @ [t]) = hardware_math_step t s" "real (length (ts @ [t])) = ?n + 1"
    by (simp_all add: s_def)
  show ?case
    unfolding ends Let_def using lag(1,2) range
    by (intro exI [of _ "0.75 * (lag + 0.3)"] exI [of _ "k - j"] conjI) (rule t a | simp add: step(1))+
qed

text \<open>The error line of the panel counts turns instead of degrees. With the mount following undisturbed
  the true error stays between 0.9 and 45 degrees, but the line shows, to within 45 degrees, 360 times the
  number of times the target has passed north: the target's bearing is wrapped and the mount's is not.
\<close>

theorem error_line_counts_turns:
  "let s = foldl (\<lambda>s t. hardware_math_step t s) (tracker_init now) ts; turns = \<lfloor>(45 + 0.3 * real (length ts)) / 360\<rfloor> in
     0.9 < wrap_180 (target_bearing_deg s - current_azimuth_deg s) \<and> wrap_180 (target_bearing_deg s - current_azimuth_deg s) \<le> 45
     \<and> \<bar>displayed_error s - 360 * of_int turns\<bar> \<le> 45"
proof -
  let ?s = "foldl (\<lambda>s t. hardware_math_step t s) (tracker_init now) ts" and ?u = "45 + 0.3 * real (length ts)"
  obtain lag k where lag: "0.9 < lag" "lag \<le> 45" "target_bearing_deg ?s = ?u - 360 * of_int k" "0 \<le> target_bearing_deg ?s"
    "target_bearing_deg ?s < 360" "current_azimuth_deg ?s = ?u - lag" using undisturbed_rounds [of now ts] by (auto simp: Let_def)
  have k: "\<lfloor>?u / 360\<rfloor> = k" using lag(3-5) by (simp add: floor_eq_iff field_simps)
  have "0 \<le> ?u / 360" by simp
  then have "0 \<le> k" unfolding k [symmetric] by (simp only: zero_le_floor)
  have diff: "target_bearing_deg ?s - current_azimuth_deg ?s = lag + 360 * of_int (- k)" using lag(3,6) by simp
  have "wrap_180 (lag + 360 * of_int (- k)) = lag" using lag(1,2) by (intro wrap_180_turns) simp_all
  moreover have "\<bar>\<bar>lag - 360 * of_int k\<bar> - 360 * of_int k\<bar> \<le> (45 :: real)"
  proof (cases "k = 0")
    case False
    with \<open>0 \<le> k\<close> have "1 \<le> k" by simp
    then have "(1 :: real) \<le> of_int k" by simp
    with lag(1,2) show ?thesis by (simp add: abs_le_iff)
  qed (use lag(1,2) in simp)
  moreover have "\<bar>lag + 360 * of_int (- k)\<bar> = \<bar>lag - 360 * of_int k\<bar>" by simp
  ultimately show ?thesis using lag(1,2) unfolding Let_def displayed_error_def diff k by simp
qed

section \<open>Jammer mark\<close>

record chart =
  chart_cx :: real
  chart_cy :: real
  chart_scale :: real

definition jammer_mark :: "chart \<Rightarrow> jammer_state \<Rightarrow> draw list" where
  "jammer_mark c jammer_location =
     (if triangulation_valid jammer_location
      then let jx = py_int (chart_cx c + (range_meters jammer_location * chart_scale c) * sin (radians (bearing_true_deg jammer_location)));
               jy = py_int (chart_cy c - (range_meters jammer_location * chart_scale c) * cos (radians (bearing_true_deg jammer_location)))
           in [(''#ff00ff'', jx - 5, jy - 5, jx + 5, jy + 5)]
      else [])"

definition strobe_tick :: "real \<Rightarrow> chart \<Rightarrow> jammer_system \<Rightarrow> real \<Rightarrow> num_dict \<Rightarrow> (jammer_system \<times> draw list) option" where
  "strobe_tick pole c ew_system own_strobe_deg consort_telemetry =
     map_option (\<lambda>ew. (ew, jammer_mark c (computed_jammer_state ew)))
       (compute_jammer_location pole ew_system own_strobe_deg consort_telemetry)"



end
