(* ===== verification/Console_Panels.thy ===== *)
theory Console_Panels
  imports Console_Strobe
begin

text \<open>
  The text panels of the two tactical consoles: the report each refresh tick writes beside the chart. The
  lines that build and insert the reports have lost their indentation; they are read as the end of the
  refresh tick. What the panels promise is that the operator reads the registers off them.
\<close>

section \<open>Lines\<close>

text \<open>The concatenation of lines ending in a line feed, the last one without.\<close>

fun panel :: "string list \<Rightarrow> string" where
  "panel [] = []"
| "panel [l] = l"
| "panel (l # ls) = text_line l @ panel ls"

lemma panel_lines: "ls \<noteq> [] \<Longrightarrow> \<forall>l \<in> set ls. CHR 0x0A \<notin> set l \<Longrightarrow> py_split (CHR 0x0A) (panel ls) = ls"
  by (induction ls rule: panel.induct) (simp_all add: text_line_def py_split_notin py_split_cons)

text \<open>The number after a label, as an operator reads it: past the padding, up to the unit.\<close>

definition number_char :: "char \<Rightarrow> bool" where
  "number_char c \<longleftrightarrow> is_digit c \<or> c = CHR ''.'' \<or> c = CHR ''-''"

definition shown_number :: "string \<Rightarrow> string \<Rightarrow> string" where
  "shown_number label l = takeWhile number_char (dropWhile is_space (drop (length label) l))"

lemma fmt_fixed_numeric: "c \<in> set (fmt_fixed n x) \<Longrightarrow> number_char c"
  by (auto simp: fmt_fixed_def number_char_def Let_def split: if_splits dest: nat_str_digits pad_digits_digits)

lemma number_char_not_space: "number_char c \<Longrightarrow> \<not> is_space c"
  by (auto simp: number_char_def is_digit_def is_space_def)

lemma shown_number_fixed:
  assumes "u = [] \<or> \<not> number_char (hd u)"
  shows "shown_number label (label @ fmt_width w n (Fin x) @ u) = fmt_fixed n x"
proof -
  have "fmt_fixed n x \<noteq> []" by (simp add: fmt_fixed_def Let_def)
  then have "dropWhile is_space (replicate k CHR '' '' @ fmt_fixed n x @ u) = fmt_fixed n x @ u" for k
    using fmt_fixed_numeric [of "hd (fmt_fixed n x)" n x] number_char_not_space
    by (induction k) (auto simp: is_space_def dropWhile_eq_self_iff)
  moreover have "takeWhile number_char (fmt_fixed n x @ u) = fmt_fixed n x"
    using assms fmt_fixed_numeric by (cases u) (auto simp: takeWhile_append2)
  ultimately show ?thesis by (simp add: shown_number_def fmt_width_def Let_def)
qed

section \<open>The panel of the buffered console\<close>

definition degree :: string where
  "degree = [CHR 0xB0]"

definition tracker_lines :: "tracker \<Rightarrow> string list" where
  "tracker_lines snap =
     [''=== HIGH-SPEED HARDWARE REGISTER PROFILE ==='',
      ''NUMERIC CALCULATION TIMESTEP: '' @ fmt_fixed 4 (last_calc_timestamp snap),
      ''TARGET REJECTION DIRECTION: '' @ fmt_width 8 2 (Fin (target_bearing_deg snap)) @ degree,
      ''MOUNT BEARING POSITION: '' @ fmt_width 8 2 (Fin (current_azimuth_deg snap)) @ degree,
      ''TRACKING SYSTEM ERROR RATIO: '' @ fmt_width 8 4 (Fin (displayed_error snap)) @ degree,
      replicate 44 CHR ''='',
      ''HARDWARE TARGET LOCK STATUS: '' @ (if is_target_locked snap then ''[ LOCKED ]'' else ''[ SEARCHING ]''),
      ''AUTOMATED DIRECT FIRE DISPATCH: '' @ (if trigger_dispatched snap then ''[ ACTIVE FIRING ]'' else ''[ HOLD ]''),
      replicate 44 CHR ''='',
      ''STATUS: Visual rendering separated cleanly'',
      ''from underlying numeric calculation tracking matrices.'']"

definition tracker_report :: "tracker \<Rightarrow> string" where
  "tracker_report snap = panel (tracker_lines snap)"

lemma number_char_plain: "number_char c \<Longrightarrow> c \<noteq> CHR 0x0A"
  by (auto simp: number_char_def is_digit_def)

lemma fmt_width_line: "CHR 0x0A \<notin> set (fmt_width w n (Fin x))" "CHR 0x0A \<notin> set (fmt_fixed n x)"
  using fmt_fixed_numeric [of "CHR 0x0A" n x] number_char_plain by (auto simp: fmt_width_def Let_def)

lemma tracker_report_lines: "py_split (CHR 0x0A) (tracker_report s) = tracker_lines s"
  unfolding tracker_report_def
  by (rule panel_lines) (simp_all add: tracker_lines_def fmt_width_line degree_def)

text \<open>A shot is only ever dispatched on a lock.\<close>

lemma dispatch_needs_lock: "trigger_dispatched (foldl tracker_step (tracker_init now) es) \<Longrightarrow> is_target_locked (foldl tracker_step (tracker_init now) es)"
proof (induction es rule: rev_induct)
  case (snoc e es)
  then show ?case
    by (cases e) (auto simp: hardware_math_step_def manually_shift_mock_target_def execute_instant_engagement_def Let_def split: if_splits)
qed (simp add: tracker_init_def)

text \<open>What the operator reads. After any history of the worker and the buttons the panel splits into its eleven
  lines; bearing, mount and error read back within half a unit of the last digit shown, the two status lines
  show the lock and the trigger, and \<open>ACTIVE FIRING\<close> never stands under \<open>SEARCHING\<close>.\<close>

theorem tracker_panel_reads:
  fixes es :: "tracker_event list" and now :: real
  defines "s \<equiv> foldl tracker_step (tracker_init now) es"
  assumes "\<bar>target_bearing_deg s\<bar> + \<bar>current_azimuth_deg s\<bar> \<le> 10 ^ 300"
  shows "let ls = py_split (CHR 0x0A) (tracker_report s) in length ls = 11
    \<and> reads_as (shown_number ''TARGET REJECTION DIRECTION: '' (ls ! 2)) 2 (target_bearing_deg s)
    \<and> reads_as (shown_number ''MOUNT BEARING POSITION: '' (ls ! 3)) 2 (current_azimuth_deg s)
    \<and> reads_as (shown_number ''TRACKING SYSTEM ERROR RATIO: '' (ls ! 4)) 4 (displayed_error s)
    \<and> (ls ! 6 = ''HARDWARE TARGET LOCK STATUS: [ LOCKED ]'' \<longleftrightarrow> is_target_locked s)
    \<and> (ls ! 7 = ''AUTOMATED DIRECT FIRE DISPATCH: [ ACTIVE FIRING ]'' \<longleftrightarrow> trigger_dispatched s)
    \<and> (ls ! 6 = ''HARDWARE TARGET LOCK STATUS: [ SEARCHING ]'' \<longrightarrow> ls ! 7 = ''AUTOMATED DIRECT FIRE DISPATCH: [ HOLD ]'')"
proof -
  have unit: "degree = [] \<or> \<not> number_char (hd degree)" by (simp add: degree_def number_char_def is_digit_def)
  have rows: "tracker_lines s ! 2 = ''TARGET REJECTION DIRECTION: '' @ fmt_width 8 2 (Fin (target_bearing_deg s)) @ degree"
    "tracker_lines s ! 3 = ''MOUNT BEARING POSITION: '' @ fmt_width 8 2 (Fin (current_azimuth_deg s)) @ degree"
    "tracker_lines s ! 4 = ''TRACKING SYSTEM ERROR RATIO: '' @ fmt_width 8 4 (Fin (displayed_error s)) @ degree"
    by (simp_all add: tracker_lines_def)
  have "\<bar>target_bearing_deg s\<bar> \<le> 10 ^ 300" "\<bar>current_azimuth_deg s\<bar> \<le> 10 ^ 300" "\<bar>displayed_error s\<bar> \<le> 10 ^ 300"
    using assms(2) unfolding displayed_error_def by linarith+
  then have numbers: "reads_as (shown_number ''TARGET REJECTION DIRECTION: '' (tracker_lines s ! 2)) 2 (target_bearing_deg s)"
    "reads_as (shown_number ''MOUNT BEARING POSITION: '' (tracker_lines s ! 3)) 2 (current_azimuth_deg s)"
    "reads_as (shown_number ''TRACKING SYSTEM ERROR RATIO: '' (tracker_lines s ! 4)) 4 (displayed_error s)"
    unfolding rows shown_number_fixed [OF unit] by (auto intro: reads_as_fmt)
  have "trigger_dispatched s \<Longrightarrow> is_target_locked s" using dispatch_needs_lock unfolding s_def .
  then have "length (tracker_lines s) = 11 \<and> (tracker_lines s ! 6 = ''HARDWARE TARGET LOCK STATUS: [ LOCKED ]'' \<longleftrightarrow> is_target_locked s)
    \<and> (tracker_lines s ! 7 = ''AUTOMATED DIRECT FIRE DISPATCH: [ ACTIVE FIRING ]'' \<longleftrightarrow> trigger_dispatched s)
    \<and> (tracker_lines s ! 6 = ''HARDWARE TARGET LOCK STATUS: [ SEARCHING ]'' \<longrightarrow> tracker_lines s ! 7 = ''AUTOMATED DIRECT FIRE DISPATCH: [ HOLD ]'')"
    by (auto simp: tracker_lines_def)
  then show ?thesis unfolding tracker_report_lines Let_def using numbers by blast
qed

section \<open>The panel of the linked console\<close>

text \<open>The beam may be any float; the other numbers are finite once the constructor has returned.\<close>

definition linked_lines :: "linked_console \<Rightarrow> string list" where
  "linked_lines c =
     [''=== CONFIG-LINKED RADAR GEOMETRY ==='',
      ''LOADED STRUCTURAL HULL LENGTH: '' @ fmt_fixed 1 (l_hull c) @ '' METERS'',
      ''LOADED STRUCTURAL BEAM WIDTH:  '' @ fmt_width 0 1 (b_beam c) @ '' METERS'',
      ''GEOMETRIC SYSTEM SCALE CONST:  '' @ fmt_fixed 4 (pixels_per_meter c) @ '' PX/M'',
      replicate 36 CHR ''='',
      ''TACTICAL RING 1 (HULL PROX):   '' @ fmt_fixed 1 (l_hull c) @ '' M'',
      ''TACTICAL RING 2 (ENGAGEMENT):  '' @ fmt_fixed 1 (l_hull c * 2.5) @ '' M'',
      ''TACTICAL RING 3 (HORIZON BD):  '' @ fmt_fixed 1 (l_hull c * 4) @ '' M'',
      replicate 36 CHR ''='',
      ''TARGET RANGE READING:          '' @ fmt_fixed 1 (linked_distance_meters c) @ '' METERS'',
      ''TARGET BEARING DIRECTION:      '' @ fmt_fixed 1 (linked_bearing_deg c) @ degree,
      ''MOUNT AZIMUTH POSITION: '' @ fmt_fixed 1 (linked_azimuth_deg c) @ degree,
      replicate 36 CHR ''='',
      ''STATUS: Visual canvas calibrated automatically'',
      ''to match physical storage profile boundaries.'']"

definition linked_report :: "linked_console \<Rightarrow> string" where
  "linked_report c = panel (linked_lines c)"

lemma pynum_line: "CHR 0x0A \<notin> set (fmt_width w n v)"
  using fmt_width_line(1) [of w n] by (cases v) (simp_all add: fmt_width_def Let_def)

lemma linked_report_lines: "py_split (CHR 0x0A) (linked_report c) = linked_lines c"
  unfolding linked_report_def
  by (rule panel_lines) (simp_all add: linked_lines_def fmt_width_line pynum_line degree_def)

text \<open>The third ring. Whatever hull the file gives, the panel lists the horizon ring at four hull lengths, while
  on the chart all of its marks lie outside the image of 400 by 400 pixels.\<close>

theorem third_ring_listed_not_shown:
  assumes "linked_console_init f = Ret c" "\<bar>l_hull c\<bar> \<le> 10 ^ 299"
  shows "reads_as (shown_number ''TACTICAL RING 3 (HORIZON BD):  '' (py_split (CHR 0x0A) (linked_report c) ! 7)) 1 (l_hull c * 4)
    \<and> (\<forall>d \<in> set (ring_marks (ring_radii c ! 2)). case d of (col, x0, y0, x1, y1) \<Rightarrow> x1 < 0 \<or> y1 < 0 \<or> 400 \<le> x0 \<or> 400 \<le> y0)"
proof -
  obtain L where L: "l_hull c = L" "L \<noteq> 0" "pixels_per_meter c = 66 / L"
    using assms(1) by (auto simp: linked_console_init_def linked_tick_def Let_def split: outcome.splits pynum.splits if_splits)
  then have "ring_radii c ! 2 = 264" by (simp add: ring_radii_def py_int_def)
  moreover have "shown_number ''TACTICAL RING 3 (HORIZON BD):  '' (py_split (CHR 0x0A) (linked_report c) ! 7) = fmt_fixed 1 (L * 4)"
  proof -
    have "linked_lines c ! 7 = ''TACTICAL RING 3 (HORIZON BD):  '' @ fmt_width 0 1 (Fin (L * 4)) @ '' M''"
      by (simp add: linked_lines_def L(1) fmt_width_def)
    moreover have "'' M'' = [] \<or> \<not> number_char (hd '' M'')" by (simp add: number_char_def is_digit_def)
    ultimately show ?thesis by (simp only: linked_report_lines shown_number_fixed)
  qed
  moreover have "\<bar>L * 4\<bar> \<le> 10 ^ 300" using assms(2) L(1) by simp
  ultimately show ?thesis using reads_as_fmt [of "L * 4" 1] by (simp add: L(1) ring_marks_def)
qed

end
