(* ===== verification/Main_Cycle.thy ===== *)
theory Main_Cycle
  imports Consoles Config_Tcp Engine Targeting Watchdogs Audit_Ledger Authority
begin

text \<open>
  The 50 Hz loop of the main program (\<open>main.py\<close>, \<open>bootstrap_system\<close>): the objects the bootstrap
  creates, one turn of the loop stage by stage over the models of the components, the
  transmit worker with its bounded queue, and the shutdown branch. \<open>main.py\<close> as shipped does not parse:
  fragments of other versions are pasted around these lines. The loop from its \<open>try\<close> to its end, the
  constructions it relies on and the transmit worker are complete and are modelled as they stand.

  A turn threads the objects and the local variables through its stages; a stage that raises ends the
  turn, and with it the loop, since only the keyboard interrupt is caught. Two calls of the loop fail as
  shipped: the weapon matrix raises \<open>NameError\<close> for the selected ship, and the ledger watchdog has no
  \<open>poke_watchdog\<close>. Both are entries of the record \<open>wiring\<close>, so that the loop can be studied as
  shipped and with them repaired. Each turn reads the clock several times: \<open>clock i n\<close> is the
  \<open>n\<close>-th reading. The readings of the router's cache are taken to be finite numbers.
\<close>

section \<open>Objects and local variables\<close>

datatype wire = Steering_Wire | Weapon_Wire | Machinery_Bus | Shore_Wire

text \<open>A queued frame with its port; \<open>None\<close> is a port that was not found.\<close>

type_synonym tx_item = "string \<times> wire option"

record wiring =
  weapon_coupling :: "string \<Rightarrow> async_state \<Rightarrow> real option"
  poke_bound :: bool
  engine_parts :: subsystems
  show_num :: "real \<Rightarrow> string"

definition shipped_wiring :: "subsystems \<Rightarrow> (real \<Rightarrow> string) \<Rightarrow> wiring" where
  "shipped_wiring sub show =
     \<lparr>weapon_coupling = (\<lambda>ship_class gun_metrics. map_option fst (evaluate_vessel_cross_coupling_impact ship_class)),
      poke_bound = False, engine_parts = sub, show_num = show\<rparr>"

record bridge_core =
  engine :: bridge_engine
  anchor_lock_manager :: anchor_plant
  bilge_authority :: bilge_router
  flag_manager :: flag_plant
  asym_stabilizer :: roll_stabilizer
  gun_parser :: weapon_parser
  weapon_async_link :: async_parser
  shore_batteries_inventory :: "shore_weapon list"
  net :: router
  command_targets :: setpoints
  ledger_guard :: ledger_watchdog
  mission_log :: mission_logger
  flag_log :: chain_logger
  bilge_log :: chain_logger
  ports_found :: bool
  latest_cognitive_output :: "(string \<times> real) list"
  tx_queue :: "tx_item list"
  wire_log :: "tx_item list"

definition shore_inventory :: "shore_weapon list" where
  "shore_inventory = map (\<lambda>n. \<lparr>shore_station_id = Some n, umbilical_link_connected = Some False, navy_combat_release_cleared = Some False\<rparr>)
     [''SHORE_BATTERY_ALPHA'', ''COASTAL_VLS_CELL_MATRIX'']"

text \<open>The constructions of the bootstrap. The stabilizer indexes four keys of the profile; a missing one is
  the \<open>KeyError\<close>, \<open>None\<close>.\<close>

definition bootstrap_core :: "num_dict \<Rightarrow> real \<Rightarrow> file_system \<Rightarrow> bool \<Rightarrow> bridge_core option" where
  "bootstrap_core vessel_profile now fs ports =
     (if \<exists>k \<in> set [''inertia_roll'', ''beam'', ''hull_length'']. vessel_profile k = None then None
      else case vessel_profile ''max_rudder_deg'' of
        None \<Rightarrow> None
      | Some m \<Rightarrow> Some
          \<lparr>engine = bridge_engine_init vessel_profile, anchor_lock_manager = anchor_init,
           bilge_authority = bilge_router_init now, flag_manager = flag_init now, asym_stabilizer = roll_stabilizer_init m,
           gun_parser = weapon_parser_init, weapon_async_link = async_parser_init ''MK45'' now,
           shore_batteries_inventory = shore_inventory,
           net = start_router_services (router_init ''UNVC''), command_targets = setpoints_init,
           ledger_guard = start_ledger_watchdog (ledger_watchdog_init 1.5 now) now,
           mission_log = start_logging_services (mission_logger_init fs),
           flag_log = start_logger_services (chain_logger_init fs), bilge_log = start_logger_services (chain_logger_init fs),
           ports_found = ports, latest_cognitive_output = [], tx_queue = [], wire_log = []\<rparr>)"

text \<open>What comes from outside during a turn: clock readings, the line waiting on the weapon port, and what
  the cognitive thread writes to its register between the turn's two snapshots of it, if anything.\<close>

record cycle_input =
  clock :: "nat \<Rightarrow> real"
  gun_line :: string
  cog_update :: "(string \<times> real) list option"

record cycle_locals =
  active_targets :: num_dict
  text_targets :: "string \<rightharpoonup> string"
  live_telemetry :: num_dict
  live_gun_state :: num_dict
  gun_metrics :: async_state
  weapon_imbalance :: real
  actuator_commands :: bridge_commands
  slew_rate_cap :: real
  maintenance_metrics :: "num_dict option"
  tesla_metrics :: "(string \<times> real) list option"
  flag_actuation_commands :: flag_report
  resolved_bilge_commands :: resolved_valves

definition idle_gun :: async_state where
  "idle_gun = \<lparr>a_azimuth_deg = Fin 0, a_elevation_deg = Fin 0, a_azimuth_rate_rads = Fin 0, a_elevation_rate_rads = Fin 0,
     bus_sync_active = False, last_ingest_time = 0\<rparr>"

text \<open>Every local is written before it is read; the values here stand for unbound names.\<close>

definition unbound_locals :: cycle_locals where
  "unbound_locals = \<lparr>active_targets = Map.empty, text_targets = Map.empty, live_telemetry = Map.empty, live_gun_state = Map.empty,
     gun_metrics = idle_gun, weapon_imbalance = 0,
     actuator_commands = \<lparr>command_motor_torque_nm = 0, command_rudder_angle_deg = 0, active_structural_moment_nm = 0,
       active_rpm_cap = 0, shallow_water_slowdown_active = False,
       upstream_autonomy_telemetry = \<lparr>dead_reckoning_active = False, dead_reckoning_lat_rad = 0, dead_reckoning_lon_rad = 0,
         coriolis_drift_correction_deg = 0, subsurface_ventilation_index = 0, predicted_keel_clearance_meters = 0,
         structural_fatigue_load_percentage = 0, asymmetric_channel_trim_applied_deg = 0,
         predicted_rudder_roll_moment_nm = 0, structural_yaw_override_active = False\<rparr>\<rparr>,
     slew_rate_cap = 0, maintenance_metrics = None, tesla_metrics = None,
     flag_actuation_commands = \<lparr>active_flag_state_string = ENSIGN, commanded_halyard_motor_position_pct = 0,
       actuator_motor_power_relay = 0, actuator_mechanical_lock_pin = 0, telemetry_flag_log_message = []\<rparr>,
     resolved_bilge_commands = \<lparr>resolved_mode = [], routing_source_string = [], resolved_overboard_valve_open = 0,
       resolved_recirculation_valve_open = 0, timestamp_resolved = 0\<rparr>\<rparr>"

type_synonym stage = "bridge_core \<times> cycle_locals \<Rightarrow> (bridge_core \<times> cycle_locals) \<times> string option"

fun run_stages :: "stage list \<Rightarrow> stage" where
  "run_stages [] x = (x, None)"
| "run_stages (f # fs) x = (case f x of (y, None) \<Rightarrow> run_stages fs y | (y, Some e) \<Rightarrow> (y, Some e))"

section \<open>Dictionaries\<close>

definition readings :: "cache \<Rightarrow> num_dict" where
  "readings c = (\<lambda>k. case c k of Some (Fin x) \<Rightarrow> Some x | _ \<Rightarrow> None)"

definition gun_dict :: "weapon_state \<Rightarrow> num_dict" where
  "gun_dict g = readings [''azimuth_deg'' \<mapsto> azimuth_deg g, ''elevation_deg'' \<mapsto> elevation_deg g,
     ''azimuth_rate_rads'' \<mapsto> azimuth_rate_rads g, ''elevation_rate_rads'' \<mapsto> elevation_rate_rads g,
     ''servo_fault_active'' \<mapsto> Fin (if servo_fault_active g then 1 else 0)]"

definition target_dict :: "setpoints \<Rightarrow> num_dict" where
  "target_dict t = [''rpm'' \<mapsto> sp_rpm t, ''target_yaw_rate'' \<mapsto> sp_yaw t]"

definition truth :: "bool \<Rightarrow> real" where
  "truth b = (if b then 1 else 0)"

text \<open>The engine's commands as the dictionary the router, the serialisers and the logger read.\<close>

definition command_dict :: "bridge_commands \<Rightarrow> num_dict" where
  "command_dict c = [''command_motor_torque_nm'' \<mapsto> command_motor_torque_nm c,
     ''command_rudder_angle_deg'' \<mapsto> command_rudder_angle_deg c,
     ''active_structural_moment_nm'' \<mapsto> active_structural_moment_nm c, ''active_rpm_cap'' \<mapsto> active_rpm_cap c,
     ''shallow_water_slowdown_active'' \<mapsto> truth (shallow_water_slowdown_active c)]"

definition insight_dict :: "bridge_commands \<Rightarrow> num_dict" where
  "insight_dict c = (let u = upstream_autonomy_telemetry c in
     [''dead_reckoning_active'' \<mapsto> truth (dead_reckoning_active u),
      ''dead_reckoning_lat_rad'' \<mapsto> dead_reckoning_lat_rad u, ''dead_reckoning_lon_rad'' \<mapsto> dead_reckoning_lon_rad u,
      ''coriolis_drift_correction_deg'' \<mapsto> coriolis_drift_correction_deg u,
      ''subsurface_ventilation_index'' \<mapsto> subsurface_ventilation_index u,
      ''predicted_keel_clearance_meters'' \<mapsto> predicted_keel_clearance_meters u,
      ''structural_fatigue_load_percentage'' \<mapsto> structural_fatigue_load_percentage u,
      ''asymmetric_channel_trim_applied_deg'' \<mapsto> asymmetric_channel_trim_applied_deg u,
      ''predicted_rudder_roll_moment_nm'' \<mapsto> predicted_rudder_roll_moment_nm u,
      ''structural_yaw_override_active'' \<mapsto> truth (structural_yaw_override_active u)])"

section \<open>The transmit queue\<close>

text \<open>\<open>put_nowait\<close> of the frames one after the other; on a full queue \<open>queue.Full\<close> escapes.\<close>

definition put_nowait :: "tx_item list \<Rightarrow> bridge_core \<Rightarrow> bridge_core \<times> string option" where
  "put_nowait items s =
     (let room = 200 - length (tx_queue s)
      in (s\<lparr>tx_queue := tx_queue s @ take room items\<rparr>, if length items \<le> room then None else Some ''queue.Full''))"

definition wired :: "bridge_core \<Rightarrow> wire \<Rightarrow> wire option" where
  "wired s p = (if ports_found s then Some p else None)"

text \<open>One turn of the transmit worker: it waits on an empty queue; \<open>written\<close> says whether the port is open
  and takes the frame, a serial fault is reported and the frame lost.\<close>

definition serial_tx_worker :: "bool \<Rightarrow> bridge_core \<Rightarrow> bridge_core" where
  "serial_tx_worker written s =
     (case tx_queue s of [] \<Rightarrow> s
      | (payload, port) # rest \<Rightarrow>
          s\<lparr>tx_queue := rest, wire_log := (if port \<noteq> None \<and> written then wire_log s @ [(payload, port)] else wire_log s)\<rparr>)"

section \<open>The stages of a turn\<close>

definition cap_rpm :: "real \<Rightarrow> cycle_locals \<Rightarrow> cycle_locals" where
  "cap_rpm limit l = l\<lparr>actuator_commands := (actuator_commands l)\<lparr>active_rpm_cap := min (active_rpm_cap (actuator_commands l)) limit\<rparr>\<rparr>"

text \<open>The watchdog call; as shipped the method does not exist.\<close>

definition poke :: "wiring \<Rightarrow> stage" where
  "poke w x = (x, if poke_bound w then None else Some ''AttributeError'')"

text \<open>A. Setpoints, telemetry and gun state. The router's cache holds numbers only, so an entry
  \<open>raw_weapon_string\<close> would have no \<open>strip\<close>; without it the gun parser gets the empty string.\<close>

definition ingest_stage :: "cycle_input \<Rightarrow> stage" where
  "ingest_stage i x =
     (let (s, l) = x; sync = get_synchronized_telemetry (net s) in
      if sync ''raw_weapon_string'' \<noteq> None then (x, Some ''AttributeError'')
      else let gun = ingest_encoder_sentence (gun_parser s) [] (clock i 0);
               async = (if ports_found s then process_async_line (weapon_async_link s) (gun_line i) (clock i 1) else weapon_async_link s)
           in ((s\<lparr>gun_parser := gun, weapon_async_link := async\<rparr>,
                l\<lparr>active_targets := target_dict (command_targets s), text_targets := Map.empty,
                  live_telemetry := readings sync, live_gun_state := gun_dict (live_weapon_state gun),
                  gun_metrics := (if ports_found s then get_isolated_state_snapshot async else idle_gun)\<rparr>), None))"

text \<open>B. The list the guns induce, added to the roll angle.\<close>

definition coupling_stage :: "wiring \<Rightarrow> stage" where
  "coupling_stage w x =
     (let (s, l) = x in
      case weapon_coupling w ''DDG_ARLEIGH_BURKE'' (gun_metrics l) of
        None \<Rightarrow> (x, Some ''NameError'')
      | Some list_deg \<Rightarrow>
          (case live_telemetry l ''roll_angle_rad'' of
             None \<Rightarrow> (x, Some ''KeyError'')
           | Some roll \<Rightarrow>
               ((s, l\<lparr>weapon_imbalance := list_deg,
                     live_telemetry := (live_telemetry l)(''roll_angle_rad'' \<mapsto> roll + radians list_deg)\<rparr>), None)))"

text \<open>C. The engine, at 50 Hz. The later cap of the shaft speed is not the one the stabilizer gets.\<close>

definition engine_stage :: "wiring \<Rightarrow> stage" where
  "engine_stage w x =
     (let (s, l) = x;
          (e, tele, cmds) = execute_bridge_loop (engine_parts w) (engine s) (active_targets l) (live_telemetry l) (1 / 50)
      in ((s\<lparr>engine := e\<rparr>, l\<lparr>live_telemetry := tele, actuator_commands := cmds, slew_rate_cap := active_rpm_cap cmds\<rparr>), None))"

text \<open>D. The auxiliaries.\<close>

definition anchor_packet :: "anchor_report \<Rightarrow> string" where
  "anchor_packet rep = nmea_sentence (csv_join [''PUNVCANC'', nat_str (command_windlass_clutch_engage rep),
     nat_str (command_brake_solenoid_lock rep), nat_str (if sea_machines_anchor_authority_allowed rep then 0 else 1)])"

definition anchor_stage :: stage where
  "anchor_stage x =
     (let (s, l) = x;
          (p, rep) = evaluate_anchor_safety_matrix (anchor_lock_manager s) (live_gun_state l)
                       (dflag (active_targets l) ''navy_anchor_release_code'');
          l = (if sea_machines_anchor_authority_allowed rep then l else cap_rpm 100 l);
          (s, e) = put_nowait [(anchor_packet rep, wired s Weapon_Wire)] (s\<lparr>anchor_lock_manager := p\<rparr>)
      in ((s, l), e))"

definition vibration_stage :: stage where
  "vibration_stage x =
     (let (s, l) = x; active = latest_cognitive_output s; cog = map_of active;
          l = (if 12.5 \<le> dget cog ''deck_vibration_hz'' 0 then cap_rpm 140 l else l)
      in ((s, l\<lparr>maintenance_metrics := (if active = [] then None else Some
            [''measured_deck_resonance_hz'' \<mapsto> dget cog ''deck_vibration_hz'' 0,
             ''active_hydraulic_cancellation_force_n'' \<mapsto> dget cog ''hydraulic_dampening_command_n'' 0,
             ''serial_line_pattern_match_ratio'' \<mapsto> dget cog ''serial_pattern_match_ratio'' 0,
             ''right_wrong_decider_active'' \<mapsto> dget cog ''right_wrong_logic_nominal'' 1])\<rparr>), None))"

definition legal_stage :: "cycle_input \<Rightarrow> stage" where
  "legal_stage i x =
     (let (s, l) = x;
          active = (case cog_update i of None \<Rightarrow> latest_cognitive_output s | Some c \<Rightarrow> c);
          l = (if dflag (map_of active) ''legal_boundary_alert_active'' then cap_rpm 150 l else l)
      in ((s\<lparr>latest_cognitive_output := active\<rparr>, l\<lparr>tesla_metrics := (if active = [] then None else Some active)\<rparr>), None))"

definition univac_valves :: num_dict where
  "univac_valves = [''actuator_overboard_valve_open'' \<mapsto> 1, ''actuator_recirculation_valve_open'' \<mapsto> 0]"

definition physics_valves :: num_dict where
  "physics_valves = [''actuator_overboard_valve_open'' \<mapsto> 0, ''actuator_recirculation_valve_open'' \<mapsto> 1]"

definition seamachines_valves :: num_dict where
  "seamachines_valves = [''actuator_overboard_valve_open'' \<mapsto> 0, ''actuator_recirculation_valve_open'' \<mapsto> 0]"

text \<open>The valve values are the integer literals above, printed as such.\<close>

definition bilge_packet :: "resolved_valves \<Rightarrow> string" where
  "bilge_packet v = nmea_sentence (csv_join [''PUNVCBLG'', int_str (py_int (resolved_overboard_valve_open v)),
     int_str (py_int (resolved_recirculation_valve_open v)), ''0.0''])"

definition bilge_stage :: "cycle_input \<Rightarrow> stage" where
  "bilge_stage i x =
     (let (s, l) = x;
          r = (case text_targets l ''requested_authority_mode'' of None \<Rightarrow> bilge_authority s
               | Some m \<Rightarrow> if m = [] then bilge_authority s else fst (set_control_authority (bilge_authority s) (m, clock i 2)));
          v = resolve_final_actuator_commands r (clock i 3) univac_valves physics_valves seamachines_valves;
          (s, e) = put_nowait [(bilge_packet v, wired s Machinery_Bus)] (s\<lparr>bilge_authority := r\<rparr>)
      in ((s, l\<lparr>resolved_bilge_commands := v\<rparr>), e))"

definition flag_packet :: "flag_report \<Rightarrow> string" where
  "flag_packet rep = nmea_sentence (csv_join [''PUNVCFLG'', fmt_fixed 1 (commanded_halyard_motor_position_pct rep),
     nat_str (actuator_motor_power_relay rep), nat_str (actuator_mechanical_lock_pin rep)])"

definition flag_stage :: "cycle_input \<Rightarrow> stage" where
  "flag_stage i x =
     (let (s, l) = x;
          (p, rep) = evaluate_flag_logic_matrix (flag_manager s) (clock i 4) (live_gun_state l) (live_telemetry l);
          (s, e) = put_nowait [(flag_packet rep, wired s Machinery_Bus)] (s\<lparr>flag_manager := p\<rparr>)
      in ((s, l\<lparr>flag_actuation_commands := rep\<rparr>), e))"

definition stabilizer_dict :: "roll_report \<Rightarrow> stabilizer_output" where
  "stabilizer_dict rep =
     \<lparr>stabilizer_output.command_port_actuator_deg = Some (roll_report.command_port_actuator_deg rep),
      command_stbd_actuator_deg = Some (roll_report.command_stbd_actuator_deg rep),
      stabilization_state = Some (if combat_lock rep then ''APEX_COMBAT_LOCK_ACTIVE'' else ''NOMINAL_STORM_DAMPING'')\<rparr>"

definition stabilizer_stage :: stage where
  "stabilizer_stage x =
     (let (s, l) = x;
          (p, rep) = calculate_fire_synchronized_stabilization (asym_stabilizer s) (active_targets l) (live_telemetry l) (live_gun_state l);
          (port, stbd) = serialize_asymmetric_actuator_channels (asymmetric_serializer_init ''PUNVC'') (stabilizer_dict rep) (slew_rate_cap l);
          (s, e) = put_nowait [(port, wired s Steering_Wire), (stbd, wired s Steering_Wire)] (s\<lparr>asym_stabilizer := p\<rparr>)
      in ((s, l), e))"

text \<open>The shore batteries get both flags every turn; frames go out over a connected link.\<close>

definition shore_stage :: "wiring \<Rightarrow> stage" where
  "shore_stage w x =
     (let (s, l) = x;
          shore_link_connected = dflag (live_telemetry l) ''shore_power_cable_attached'';
          released = dflag (active_targets l) ''navy_combat_release_cleared'';
          batteries = map (\<lambda>b. b\<lparr>umbilical_link_connected := Some shore_link_connected, navy_combat_release_cleared := Some released\<rparr>)
                        (shore_batteries_inventory s);
          s = s\<lparr>shore_batteries_inventory := batteries\<rparr>
      in if \<not> shore_link_connected then ((s, l), None)
         else let frames = serialize_shore_fire_commands (shore_serializer_init ''PUNVC'') (active_targets l) batteries
              in if \<not> ports_found s then poke w (s, l)
                 else case put_nowait (map (\<lambda>f. (f, Some Shore_Wire)) frames) s of
                   (s, None) \<Rightarrow> poke w (s, l)
                 | (s, Some e) \<Rightarrow> ((s, l), Some e))"

text \<open>E. The ledger watchdog secures the propulsion.\<close>

definition compliance_stage :: "cycle_input \<Rightarrow> stage" where
  "compliance_stage i x =
     (let (s, l) = x; (delays, faulted, tripped) = get_ledger_diagnostics (ledger_guard s) (clock i 5)
      in ((s, if faulted then l\<lparr>actuator_commands := (actuator_commands l)\<lparr>command_motor_torque_nm := 0\<rparr>\<rparr> else l), None))"

text \<open>F. Dispatch and logging.\<close>

definition flag_state_text :: "flag_state \<Rightarrow> string" where
  "flag_state_text f = (case f of ENSIGN \<Rightarrow> ''ENSIGN'' | COMBAT \<Rightarrow> ''COMBAT'' | RESTRICTED \<Rightarrow> ''RESTRICTED'')"

definition flag_texts :: "(real \<Rightarrow> string) \<Rightarrow> flag_report \<Rightarrow> string \<rightharpoonup> string" where
  "flag_texts show rep =
     [''active_flag_state_string'' \<mapsto> flag_state_text (active_flag_state_string rep),
      ''commanded_halyard_motor_position_pct'' \<mapsto> show (commanded_halyard_motor_position_pct rep),
      ''actuator_motor_power_relay'' \<mapsto> nat_str (actuator_motor_power_relay rep),
      ''actuator_mechanical_lock_pin'' \<mapsto> nat_str (actuator_mechanical_lock_pin rep),
      ''telemetry_flag_log_message'' \<mapsto> telemetry_flag_log_message rep]"

definition valve_texts :: "resolved_valves \<Rightarrow> string \<rightharpoonup> string" where
  "valve_texts v =
     [''active_authority_mode'' \<mapsto> resolved_mode v, ''routing_source_string'' \<mapsto> routing_source_string v,
      ''resolved_overboard_valve_open'' \<mapsto> int_str (py_int (resolved_overboard_valve_open v)),
      ''resolved_recirculation_valve_open'' \<mapsto> int_str (py_int (resolved_recirculation_valve_open v)),
      ''total_clean_water_discharged_liters'' \<mapsto> ''0.0'']"

definition dispatch_stage :: "wiring \<Rightarrow> cycle_input \<Rightarrow> stage" where
  "dispatch_stage w i x =
     (let (s, l) = x; c = actuator_commands l; show = show_num w;
          (r, rudder_frame, propulsion_frame) = route_calculated_loop_outputs (net s) \<lparr>top = command_dict c, insight_link = insight_dict c\<rparr>;
          weapon_link = [''induced_roll_list_angle_deg'' \<mapsto> weapon_imbalance l];
          m = log_snapshot show (mission_log s) (clock i 6) (command_dict c) (insight_dict c) weapon_link (live_telemetry l);
          f = capture_flag_event_snapshot (flag_log s) (show (clock i 7)) (flag_texts show (flag_actuation_commands l));
          b = capture_bilge_state_snapshot (bilge_log s) (show (clock i 8)) (valve_texts (resolved_bilge_commands l))
                (show (dget (live_telemetry l) ''ppm_reading'' 0))
      in ((s\<lparr>net := r, mission_log := m, flag_log := f, bilge_log := b\<rparr>, l), None))"

definition main_stages :: "wiring \<Rightarrow> cycle_input \<Rightarrow> stage list" where
  "main_stages w i =
     [ingest_stage i, coupling_stage w, engine_stage w, anchor_stage,
      vibration_stage, poke w, legal_stage i, poke w, bilge_stage i, flag_stage i, stabilizer_stage, shore_stage w,
      compliance_stage i, dispatch_stage w i, poke w]"

text \<open>One turn: the objects afterwards, the locals, and the exception that escapes, if any.\<close>

definition main_cycle :: "wiring \<Rightarrow> cycle_input \<Rightarrow> bridge_core \<Rightarrow> bridge_core \<times> cycle_locals \<times> string option" where
  "main_cycle w i s = (let ((s', l), e) = run_stages (main_stages w i) (s, unbound_locals) in (s', l, e))"

text \<open>The keyboard interrupt: the bilge logger has no \<open>stop_logging_services\<close>, so the branch ends there and
  neither the mission logger nor the server nor the router is stopped.\<close>

definition shutdown :: "bridge_core \<Rightarrow> bridge_core \<times> string option" where
  "shutdown s = (s\<lparr>flag_log := stop_logger_services (flag_log s)\<rparr>, Some ''AttributeError'')"

text \<open>The loop between its neighbours: sensor lines and feedback reach the router, orders the command
  server, write reports and checks the ledger watchdog, results the cognitive register, and the transmit
  worker takes frames. The second component is the exception that ended the loop.\<close>

datatype main_event =
    Cycle cycle_input
  | Tx_Turn bool
  | Net router_event
  | Order setpoints
  | Ledger_Write string nat real
  | Ledger_Check real
  | Cog_Write "(string \<times> real) list"

fun main_step :: "wiring \<Rightarrow> bridge_core \<times> string option \<Rightarrow> main_event \<Rightarrow> bridge_core \<times> string option" where
  "main_step w (s, Some e) ev = (s, Some e)"
| "main_step w (s, None) (Cycle i) = (case main_cycle w i s of (s', l, e) \<Rightarrow> (s', e))"
| "main_step w (s, None) (Tx_Turn written) = (serial_tx_worker written s, None)"
| "main_step w (s, None) (Net ev) = (s\<lparr>net := router_step (net s) ev\<rparr>, None)"
| "main_step w (s, None) (Order t) = (s\<lparr>command_targets := t\<rparr>, None)"
| "main_step w (s, None) (Ledger_Write n d t) = (s\<lparr>ledger_guard := log_write_success (ledger_guard s) (n, d, t)\<rparr>, None)"
| "main_step w (s, None) (Ledger_Check t) = (s\<lparr>ledger_guard := integrity_check (ledger_guard s) t\<rparr>, None)"
| "main_step w (s, None) (Cog_Write c) = (s\<lparr>latest_cognitive_output := c\<rparr>, None)"

definition main_run :: "wiring \<Rightarrow> bridge_core \<Rightarrow> main_event list \<Rightarrow> bridge_core \<times> string option" where
  "main_run w s es = foldl (main_step w) (s, None) es"

end
