(* ===== verification/Main_Watch.thy ===== *)
theory Main_Watch
  imports Main_Cycle
begin

text \<open>
  What the 50 Hz loop of \<open>Main_Cycle\<close> does over whole watches. Laws of the single stages are lifted to
  the turn by lemmas on \<open>run_stages\<close>, and to watches by induction over the events.
\<close>

section \<open>Sequences of stages\<close>

lemma run_stages_keeps:
  assumes "\<And>f x. f \<in> set fs \<Longrightarrow> I x \<Longrightarrow> I (fst (f x))" and "I x"
  shows "I (fst (run_stages fs x))"
  using assms
proof (induction fs arbitrary: x)
  case (Cons f fs)
  have now: "I (fst (f x))" using Cons.prems by simp
  show ?case
  proof (cases "snd (f x)")
    case None
    moreover have "I (fst (run_stages fs (fst (f x))))" using Cons now by simp
    ultimately show ?thesis by (simp add: case_prod_beta)
  qed (use now in \<open>simp add: case_prod_beta\<close>)
qed simp

lemma run_stages_done:
  "run_stages (f # fs) x = (y, None) \<longleftrightarrow> (\<exists>z. f x = (z, None) \<and> run_stages fs z = (y, None))"
  by (auto split: prod.splits option.splits)

lemma main_cycle_eq:
  "main_cycle w i s = (s', l, e) \<longleftrightarrow> run_stages (main_stages w i) (s, unbound_locals) = ((s', l), e)"
  by (auto simp: main_cycle_def Let_def split: prod.split)

section \<open>Every frame is sealed\<close>

definition sealed :: "tx_item \<Rightarrow> bool" where
  "sealed p \<longleftrightarrow> validate_checksum (py_strip (fst p))"

definition frames_sealed :: "bridge_core \<Rightarrow> bool" where
  "frames_sealed s \<longleftrightarrow> list_all sealed (tx_queue s @ wire_log s)"

lemma sealed_sentence: "\<forall>f \<in> set (h # fs). plain_field f \<Longrightarrow> sealed (nmea_sentence (csv_join (h # fs)), p)"
  unfolding sealed_def fst_conv by (rule sealed_csv)

lemma plain_header: "CHR ''*'' \<notin> set h \<Longrightarrow> CHR '','' \<notin> set h \<Longrightarrow> plain_field h"
  by (simp add: plain_field_def)

lemma sealed_packets:
  "sealed (anchor_packet a, p)" "sealed (bilge_packet v, p)" "sealed (flag_packet r, p)"
  unfolding anchor_packet_def bilge_packet_def flag_packet_def
  by (rule sealed_sentence; auto intro: plain_header plain_intros)+

lemma sealed_asymmetric_sentence: "plain_field h \<Longrightarrow> sealed (asymmetric_sentence h a c b, p)"
  unfolding asymmetric_sentence_def by (rule sealed_sentence) (auto intro: plain_intros)

lemma sealed_asymmetric:
  "sealed (fst (serialize_asymmetric_actuator_channels (asymmetric_serializer_init ''PUNVC'') out cap), p)"
  "sealed (snd (serialize_asymmetric_actuator_channels (asymmetric_serializer_init ''PUNVC'') out cap), p)"
  unfolding serialize_asymmetric_actuator_channels_def Let_def fst_conv snd_conv
  by (rule sealed_asymmetric_sentence, rule plain_init_codes, simp add: plain_field_def)+

lemma sealed_shore:
  "list_all sealed (map (\<lambda>f. (f, p)) (serialize_shore_fire_commands (shore_serializer_init ''PUNVC'') t ws))"
proof -
  have "plain_field (shore_serializer_init ''PUNVC'')" by (rule plain_init_codes) (simp add: plain_field_def)
  then have "sealed (serialize_shore_weapon (shore_serializer_init ''PUNVC'') t b, p)" for b
    unfolding serialize_shore_weapon_def Let_def by (intro sealed_sentence) (auto intro: plain_intros)
  then show ?thesis by (simp add: serialize_shore_fire_commands_def list_all_iff)
qed

lemma put_nowait_sealed:
  "frames_sealed s \<Longrightarrow> list_all sealed ps \<Longrightarrow> frames_sealed (fst (put_nowait ps s))"
  by (auto simp: put_nowait_def frames_sealed_def list_all_iff Let_def dest: in_set_takeD)

lemma frames_sealed_update [simp]:
  "frames_sealed (s\<lparr>engine := a\<rparr>) = frames_sealed s" "frames_sealed (s\<lparr>anchor_lock_manager := b\<rparr>) = frames_sealed s"
  "frames_sealed (s\<lparr>bilge_authority := c\<rparr>) = frames_sealed s" "frames_sealed (s\<lparr>flag_manager := d\<rparr>) = frames_sealed s"
  "frames_sealed (s\<lparr>asym_stabilizer := f\<rparr>) = frames_sealed s" "frames_sealed (s\<lparr>gun_parser := g\<rparr>) = frames_sealed s"
  "frames_sealed (s\<lparr>weapon_async_link := h\<rparr>) = frames_sealed s" "frames_sealed (s\<lparr>shore_batteries_inventory := k\<rparr>) = frames_sealed s"
  "frames_sealed (s\<lparr>net := m\<rparr>) = frames_sealed s" "frames_sealed (s\<lparr>command_targets := n\<rparr>) = frames_sealed s"
  "frames_sealed (s\<lparr>ledger_guard := q\<rparr>) = frames_sealed s" "frames_sealed (s\<lparr>mission_log := r\<rparr>) = frames_sealed s"
  "frames_sealed (s\<lparr>flag_log := t\<rparr>) = frames_sealed s" "frames_sealed (s\<lparr>bilge_log := u\<rparr>) = frames_sealed s"
  "frames_sealed (s\<lparr>latest_cognitive_output := v\<rparr>) = frames_sealed s"
  by (simp_all add: frames_sealed_def)

lemma silent_stages_sealed:
  assumes "frames_sealed s"
  shows "frames_sealed (fst (fst (ingest_stage i (s, l))))" "frames_sealed (fst (fst (coupling_stage w (s, l))))"
    "frames_sealed (fst (fst (engine_stage w (s, l))))" "frames_sealed (fst (fst (vibration_stage (s, l))))"
    "frames_sealed (fst (fst (legal_stage i (s, l))))" "frames_sealed (fst (fst (poke w (s, l))))"
    "frames_sealed (fst (fst (compliance_stage i (s, l))))" "frames_sealed (fst (fst (dispatch_stage w i (s, l))))"
  using assms
  by (simp_all add: ingest_stage_def coupling_stage_def engine_stage_def vibration_stage_def legal_stage_def poke_def
      compliance_stage_def dispatch_stage_def Let_def case_prod_beta split: option.split)

lemma sending_stages_sealed:
  assumes "frames_sealed s"
  shows "frames_sealed (fst (fst (anchor_stage (s, l))))" "frames_sealed (fst (fst (bilge_stage i (s, l))))"
    "frames_sealed (fst (fst (flag_stage i (s, l))))" "frames_sealed (fst (fst (stabilizer_stage (s, l))))"
  using assms
  by (simp_all add: anchor_stage_def bilge_stage_def flag_stage_def stabilizer_stage_def Let_def case_prod_beta
      put_nowait_sealed sealed_packets sealed_asymmetric)

lemma shore_stage_sealed:
  assumes "frames_sealed s"
  shows "frames_sealed (fst (fst (shore_stage w (s, l))))"
  using assms put_nowait_sealed [OF _ sealed_shore]
  by (simp add: shore_stage_def poke_def Let_def case_prod_beta split: option.split)

lemma stage_sealed:
  "f \<in> set (main_stages w i) \<Longrightarrow> frames_sealed (fst x) \<Longrightarrow> frames_sealed (fst (fst (f x)))"
  by (cases x) (auto simp: main_stages_def silent_stages_sealed sending_stages_sealed shore_stage_sealed)

lemma main_cycle_sealed: "frames_sealed s \<Longrightarrow> frames_sealed (fst (main_cycle w i s))"
  using run_stages_keeps [of "main_stages w i" "\<lambda>x. frames_sealed (fst x)" "(s, unbound_locals)"] stage_sealed [of _ w i]
  by (simp add: main_cycle_def Let_def case_prod_beta)

lemma worker_sealed: "frames_sealed s \<Longrightarrow> frames_sealed (serial_tx_worker b s)"
  by (auto simp: serial_tx_worker_def frames_sealed_def split: list.split)

lemma main_step_sealed: "frames_sealed (fst x) \<Longrightarrow> frames_sealed (fst (main_step w x ev))"
  using main_cycle_sealed [of "fst x" w] worker_sealed
  by (cases "(w, x, ev)" rule: main_step.cases) (auto simp: frames_sealed_def case_prod_beta)

lemma main_run_simps [simp]:
  "main_run w s [] = (s, None)" "main_run w s (es @ [ev]) = main_step w (main_run w s es) ev"
  by (simp_all add: main_run_def)

text \<open>Property C8. Every frame the loop ever queues for a serial port, and so every frame that is ever written, is a
  sentence the receivers' checksum guard accepts, whatever the targets, sensors, guns, faults of the
  watchdog and exceptions of the turns: the hand-made anchor, bilge and flag sentences as well as
  those of the serialisers.
\<close>

theorem main_frames_sealed:
  assumes "bootstrap_core profile now fs ports = Some s0" and "main_run w s0 es = (s, e)"
    and "(frame, port) \<in> set (tx_queue s) \<union> set (wire_log s)"
  shows "validate_checksum (py_strip frame)"
proof -
  have "frames_sealed s0" using assms(1) by (auto simp: bootstrap_core_def frames_sealed_def split: if_splits option.splits)
  then have "frames_sealed (fst (main_run w s0 es))"
    by (induction es rule: rev_induct) (simp_all add: main_step_sealed)
  with assms(2) have "\<forall>p \<in> set (tx_queue s) \<union> set (wire_log s). sealed p" by (simp add: frames_sealed_def list_all_iff ball_Un)
  from bspec [OF this assms(3)] show ?thesis by (simp add: sealed_def)
qed

section \<open>The idle ship\<close>

text \<open>
  As wired, nothing that could move the auxiliaries reaches them. The invariant \<open>idle_core\<close> says so of the
  objects, \<open>idle_locals\<close> of the locals from the first stage on.
\<close>

definition idle_core :: "bool \<Rightarrow> bridge_core \<Rightarrow> bool" where
  "idle_core ports s \<longleftrightarrow> ports_found s = ports \<and> anchor_state (anchor_lock_manager s) = RELEASED
     \<and> active_authority_mode (bilge_authority s) = ''UNIVAC'' \<and> halyard_motor_position_pct (flag_manager s) = 0
     \<and> live_weapon_state (gun_parser s) = live_weapon_state weapon_parser_init
     \<and> cache_shape (net s) \<and> telemetry_cache (r_parser (net s)) ''distance_to_bank_meters'' = Some (Fin 100)
     \<and> telemetry_cache (r_parser (net s)) ''roll_angle_rad'' = Some (Fin 0)"

definition idle_locals :: "cycle_locals \<Rightarrow> bool" where
  "idle_locals l \<longleftrightarrow> live_gun_state l = gun_dict (live_weapon_state weapon_parser_init) \<and> text_targets l = Map.empty
     \<and> dget (live_telemetry l) ''distance_to_bank_meters'' 100 = 100
     \<and> live_telemetry l ''shallow_water_slowdown_active'' = None \<and> live_telemetry l ''shore_power_cable_attached'' = None"

text \<open>A stage that on an idle ship stays idle and queues frames with the properties \<open>Ps\<close>, failing exactly
  when the queue has no room for them.\<close>

definition queued :: "(tx_item \<Rightarrow> bool) list \<Rightarrow> tx_item list \<Rightarrow> tx_item list \<Rightarrow> string option \<Rightarrow> bool" where
  "queued Ps q q' e \<longleftrightarrow> (\<exists>ps. list_all2 (\<lambda>P p. P p) Ps ps \<and> q' = q @ take (200 - length q) ps
     \<and> e = (if length Ps \<le> 200 - length q then None else Some ''queue.Full''))"

definition quiet :: "bool \<Rightarrow> stage \<Rightarrow> (tx_item \<Rightarrow> bool) list \<Rightarrow> bool" where
  "quiet ports f Ps \<longleftrightarrow> (\<forall>P \<in> set Ps. \<exists>p. P p) \<and>
     (\<forall>s l. idle_core ports s \<and> idle_locals l \<longrightarrow>
        (let ((s', l'), e) = f (s, l)
         in idle_core ports s' \<and> idle_locals l' \<and> queued Ps (tx_queue s) (tx_queue s') e))"

lemma quietD:
  assumes "quiet ports f Ps" "idle_core ports s" "idle_locals l" "f (s, l) = ((s', l'), e)"
  shows "idle_core ports s'" "idle_locals l'" "queued Ps (tx_queue s) (tx_queue s') e"
proof -
  from assms(1) have "let ((s', l'), e) = f (s, l)
      in idle_core ports s' \<and> idle_locals l' \<and> queued Ps (tx_queue s) (tx_queue s') e"
    using assms(2,3) unfolding quiet_def by blast
  then show "idle_core ports s'" "idle_locals l'" "queued Ps (tx_queue s) (tx_queue s') e"
    by (simp_all add: assms(4))
qed

lemma queued_append:
  assumes "queued Ps q q1 None" "queued Qs q1 q2 e"
  shows "queued (Ps @ Qs) q q2 e"
proof -
  obtain ps where ps: "list_all2 (\<lambda>P p. P p) Ps ps" "q1 = q @ take (200 - length q) ps" "length Ps \<le> 200 - length q"
    using assms(1) by (auto simp: queued_def split: if_splits)
  obtain qs where qs: "list_all2 (\<lambda>P p. P p) Qs qs" "q2 = q1 @ take (200 - length q1) qs"
    "e = (if length Qs \<le> 200 - length q1 then None else Some ''queue.Full'')"
    using assms(2) by (auto simp: queued_def)
  have len: "length ps = length Ps" using ps(1) by (simp add: list_all2_lengthD)
  with ps have q1: "q1 = q @ ps" "length q1 = length q + length Ps" by simp_all
  have "list_all2 (\<lambda>P p. P p) (Ps @ Qs) (ps @ qs)" using ps(1) qs(1) by (rule list_all2_appendI)
  moreover have "q2 = q @ take (200 - length q) (ps @ qs)" using qs(2) q1 ps(3) len by simp
  moreover have "e = (if length (Ps @ Qs) \<le> 200 - length q then None else Some ''queue.Full'')"
    using qs(3) q1(2) ps(3) by (simp only: length_append) (auto split: if_splits)
  ultimately show ?thesis unfolding queued_def by blast
qed

lemma queued_full:
  assumes "queued Ps q q1 (Some err)" "\<forall>P \<in> set Qs. \<exists>p. P p"
  shows "queued (Ps @ Qs) q q1 (Some err)"
proof -
  obtain ps where ps: "list_all2 (\<lambda>P p. P p) Ps ps" "q1 = q @ take (200 - length q) ps" "\<not> length Ps \<le> 200 - length q"
    "err = ''queue.Full''" using assms(1) by (auto simp: queued_def split: if_splits)
  obtain c where c: "\<forall>P \<in> set Qs. P (c P)" using assms(2) by metis
  then have "list_all2 (\<lambda>P p. P p) Qs (map c Qs)" by (auto simp: list_all2_conv_all_nth)
  with ps(1) have "list_all2 (\<lambda>P p. P p) (Ps @ Qs) (ps @ map c Qs)" by (rule list_all2_appendI)
  moreover have "length ps = length Ps" using ps(1) by (simp add: list_all2_lengthD)
  ultimately show ?thesis using ps unfolding queued_def by (intro exI [of _ "ps @ map c Qs"]) simp
qed

lemma queued_none [simp]: "queued [] q q' e \<longleftrightarrow> q' = q \<and> e = None"
  by (auto simp: queued_def)

lemma quiet_stages:
  assumes "list_all2 (quiet ports) fs Pss"
  shows "quiet ports (run_stages fs) (concat Pss)"
  using assms
proof (induction rule: list_all2_induct)
  case Nil
  then show ?case by (simp add: quiet_def)
next
  case (Cons f fs Ps Pss)
  have ex: "\<forall>P \<in> set (concat Pss). \<exists>p. P p" "\<forall>P \<in> set Ps. \<exists>p. P p" using Cons by (simp_all add: quiet_def)
  show ?case
    unfolding quiet_def
  proof (intro conjI allI impI)
    show "\<forall>P \<in> set (concat (Ps # Pss)). \<exists>p. P p" using ex by auto
    fix s l assume idle: "idle_core ports s \<and> idle_locals l"
    obtain s1 l1 e1 where f: "f (s, l) = ((s1, l1), e1)" by (metis prod.exhaust_sel)
    note one = quietD [OF Cons.hyps(1) conjunct1 [OF idle] conjunct2 [OF idle] f]
    show "let ((s', l'), e) = run_stages (f # fs) (s, l)
      in idle_core ports s' \<and> idle_locals l' \<and> queued (concat (Ps # Pss)) (tx_queue s) (tx_queue s') e"
    proof (cases e1)
      case None
      obtain s2 l2 e2 where g: "run_stages fs (s1, l1) = ((s2, l2), e2)" by (metis prod.exhaust_sel)
      note two = quietD [OF Cons.IH one(1,2) g]
      show ?thesis using f g None two queued_append [OF one(3) [unfolded None] two(3)] by simp
    next
      case (Some err)
      show ?thesis using f Some one queued_full [OF one(3) [unfolded Some] ex(1)] by simp
    qed
  qed
qed

lemma idle_gun_dict [simp]:
  "weapon_is_awake (gun_dict (live_weapon_state weapon_parser_init)) = False"
  "dget (gun_dict (live_weapon_state weapon_parser_init)) ''azimuth_rate_rads'' 0 = 0"
  "dflag (gun_dict (live_weapon_state weapon_parser_init)) ''bus_sync_active'' = False"
  "dflag (gun_dict (live_weapon_state weapon_parser_init)) ''engagement_sequence_active'' = False"
  by (simp_all add: gun_dict_def readings_def weapon_parser_init_def weapon_is_awake_def dget_def dflag_def)

lemma dflag_None: "d k = None \<Longrightarrow> \<not> dflag d k"
  by (simp add: dflag_def dget_def)

lemma loop_telemetry:
  "k \<notin> {''latitude_rad'', ''longitude_rad'', ''roll_angle_rad''} \<Longrightarrow> fst (snd (execute_bridge_loop sub s t tele dt)) k = tele k"
  by (simp add: execute_bridge_loop_def position_stage_def weapon_stage_def Let_def split_beta)

lemma quiet_poke: "poke_bound w \<Longrightarrow> quiet ports (poke w) []"
  by (simp add: quiet_def poke_def)

lemma quiet_engine: "quiet ports (engine_stage w) []"
proof -
  have "idle_locals (l\<lparr>live_telemetry := fst (snd (execute_bridge_loop sub s t (live_telemetry l) dt)), actuator_commands := c, slew_rate_cap := r\<rparr>)"
    if "idle_locals l" for sub s t dt l c r
    using that by (simp add: idle_locals_def dget_def loop_telemetry)
  then show ?thesis
    by (auto simp: quiet_def engine_stage_def idle_core_def Let_def split_beta)
qed

lemma quiet_vibration: "quiet ports vibration_stage []"
  by (simp add: quiet_def vibration_stage_def idle_locals_def cap_rpm_def Let_def)

lemma quiet_legal: "quiet ports (legal_stage i) []"
  by (simp add: quiet_def legal_stage_def idle_locals_def idle_core_def cap_rpm_def Let_def)

lemma quiet_shore: "quiet ports (shore_stage w) []"
proof -
  have "shore_stage w (s, l) = ((s\<lparr>shore_batteries_inventory := map (\<lambda>b. b\<lparr>umbilical_link_connected := Some False,
      navy_combat_release_cleared := Some (dflag (active_targets l) ''navy_combat_release_cleared'')\<rparr>) (shore_batteries_inventory s)\<rparr>, l), None)"
    if "idle_locals l" for s l
    using that by (simp add: shore_stage_def idle_locals_def dflag_None Let_def)
  then show ?thesis by (simp add: quiet_def idle_core_def)
qed

lemma quiet_compliance: "quiet ports (compliance_stage i) []"
  by (simp add: quiet_def compliance_stage_def get_ledger_diagnostics_def idle_locals_def Let_def)

lemma quiet_dispatch: "quiet ports (dispatch_stage w i) []"
  by (simp add: quiet_def dispatch_stage_def route_calculated_loop_outputs_def idle_core_def cache_shape_def Let_def)

lemma put_nowait_queued:
  assumes "list_all2 (\<lambda>P p. P p) Ps ps"
  shows "queued Ps (tx_queue s) (tx_queue (fst (put_nowait ps s))) (snd (put_nowait ps s))"
    and "fst (put_nowait ps s) = s\<lparr>tx_queue := tx_queue (fst (put_nowait ps s))\<rparr>"
  using assms list_all2_lengthD [OF assms]
  by (auto simp: queued_def put_nowait_def Let_def)

text \<open>A stage that updates one object, queues frames and notes a local.\<close>

lemma quiet_sender:
  assumes "\<And>s l. idle_core ports s \<Longrightarrow> idle_locals l \<Longrightarrow>
      \<exists>s1 l1 ps. f (s, l) = ((fst (put_nowait ps s1), l1), snd (put_nowait ps s1)) \<and> tx_queue s1 = tx_queue s
        \<and> idle_core ports s1 \<and> idle_locals l1 \<and> list_all2 (\<lambda>P p. P p) Ps ps"
    and "\<forall>P \<in> set Ps. \<exists>p. P p"
  shows "quiet ports f Ps"
  unfolding quiet_def
proof (intro conjI allI impI)
  fix s l assume "idle_core ports s \<and> idle_locals l"
  then obtain s1 l1 ps where f: "f (s, l) = ((fst (put_nowait ps s1), l1), snd (put_nowait ps s1))" "tx_queue s1 = tx_queue s"
    "idle_core ports s1" "idle_locals l1" "list_all2 (\<lambda>P p. P p) Ps ps" using assms(1) by blast
  have "idle_core ports (fst (put_nowait ps s1))"
    by (subst put_nowait_queued(2) [OF f(5)]) (use f(3) in \<open>simp add: idle_core_def\<close>)
  with f put_nowait_queued(1) [OF f(5), of s1]
  show "let ((s', l'), e) = f (s, l) in idle_core ports s' \<and> idle_locals l' \<and> queued Ps (tx_queue s) (tx_queue s') e"
    by simp
qed (rule assms(2))

definition on_wire :: "bool \<Rightarrow> wire \<Rightarrow> wire option" where
  "on_wire ports p = (if ports then Some p else None)"

lemma quiet_anchor: "quiet ports anchor_stage [\<lambda>p. p = (nmea_sentence ''PUNVCANC,0,0,0'', on_wire ports Weapon_Wire)]"
proof (rule quiet_sender)
  fix s l assume idle: "idle_core ports s" "idle_locals l"
  obtain p rep where eval: "evaluate_anchor_safety_matrix (anchor_lock_manager s) (live_gun_state l)
      (dflag (active_targets l) ''navy_anchor_release_code'') = (p, rep)" by (metis prod.exhaust_sel)
  then have rep: "command_windlass_clutch_engage rep = 0" "command_brake_solenoid_lock rep = 0"
    "sea_machines_anchor_authority_allowed rep" "anchor_state p = RELEASED"
    using idle by (auto simp: idle_core_def idle_locals_def evaluate_anchor_safety_matrix_def)
  have packet: "anchor_packet rep = nmea_sentence ''PUNVCANC,0,0,0''"
    by (simp add: anchor_packet_def rep nat_str.simps digit_char_def)
  have "idle_core ports (s\<lparr>anchor_lock_manager := p\<rparr>)" using idle(1) rep(4) by (simp add: idle_core_def)
  with idle show "\<exists>s1 l1 ps. anchor_stage (s, l) = ((fst (put_nowait ps s1), l1), snd (put_nowait ps s1)) \<and> tx_queue s1 = tx_queue s
      \<and> idle_core ports s1 \<and> idle_locals l1 \<and> list_all2 (\<lambda>P p. P p) [\<lambda>p. p = (nmea_sentence ''PUNVCANC,0,0,0'', on_wire ports Weapon_Wire)] ps"
    by (intro exI [of _ "s\<lparr>anchor_lock_manager := p\<rparr>"] exI [of _ l] exI [of _ "[(nmea_sentence ''PUNVCANC,0,0,0'', on_wire ports Weapon_Wire)]"])
       (simp add: anchor_stage_def eval rep(3) packet wired_def on_wire_def idle_core_def split_beta)
qed simp

lemma quiet_bilge: "quiet ports (bilge_stage i) [\<lambda>p. p = (nmea_sentence ''PUNVCBLG,1,0,0.0'', on_wire ports Machinery_Bus)]"
proof (rule quiet_sender)
  fix s l assume idle: "idle_core ports s" "idle_locals l"
  let ?v = "resolve_final_actuator_commands (bilge_authority s) (clock i 3) univac_valves physics_valves seamachines_valves"
  have v: "resolved_overboard_valve_open ?v = 1" "resolved_recirculation_valve_open ?v = 0"
    using idle by (simp_all add: idle_core_def resolve_final_actuator_commands_def valve_commands_def univac_valves_def)
  have packet: "bilge_packet ?v = nmea_sentence ''PUNVCBLG,1,0,0.0''"
    by (simp add: bilge_packet_def v py_int_def int_str_def nat_str.simps digit_char_def)
  have stage: "bilge_stage i (s, l) =
      (let (s', e) = put_nowait [(bilge_packet ?v, on_wire ports Machinery_Bus)] s in ((s', l\<lparr>resolved_bilge_commands := ?v\<rparr>), e))"
    using idle by (simp add: bilge_stage_def idle_locals_def idle_core_def wired_def on_wire_def Let_def)
  have "idle_locals (l\<lparr>resolved_bilge_commands := ?v\<rparr>)" using idle(2) by (simp add: idle_locals_def)
  with idle(1) show "\<exists>s1 l1 ps. bilge_stage i (s, l) = ((fst (put_nowait ps s1), l1), snd (put_nowait ps s1)) \<and> tx_queue s1 = tx_queue s
      \<and> idle_core ports s1 \<and> idle_locals l1 \<and> list_all2 (\<lambda>P p. P p) [\<lambda>p. p = (nmea_sentence ''PUNVCBLG,1,0,0.0'', on_wire ports Machinery_Bus)] ps"
    by (intro exI [of _ s] exI [of _ "l\<lparr>resolved_bilge_commands := ?v\<rparr>"] exI [of _ "[(nmea_sentence ''PUNVCBLG,1,0,0.0'', on_wire ports Machinery_Bus)]"])
       (simp add: stage packet split_beta)
qed simp

lemma quiet_flag: "quiet ports (flag_stage i) [\<lambda>p. p = (nmea_sentence ''PUNVCFLG,0.0,0,1'', on_wire ports Machinery_Bus)]"
proof (rule quiet_sender)
  fix s l assume idle: "idle_core ports s" "idle_locals l"
  let ?r = "evaluate_flag_logic_matrix (flag_manager s) (clock i 4) (live_gun_state l) (live_telemetry l)"
  have target: "flag_target (live_gun_state l) (live_telemetry l) =
      (ENSIGN, 0, ''CRUISING PROFILE: Maintaining standard sovereign ensign.'')"
    using idle(2) by (simp add: idle_locals_def flag_target_def dflag_None)
  have r: "commanded_halyard_motor_position_pct (snd ?r) = 0" "actuator_motor_power_relay (snd ?r) = 0"
    "actuator_mechanical_lock_pin (snd ?r) = 1" "halyard_motor_position_pct (fst ?r) = 0"
    using idle(1) by (simp_all add: idle_core_def evaluate_flag_logic_matrix_def target Let_def)
  have "fmt_fixed 1 0 = ''0.0''" by (simp add: fmt_fixed_def round_half_even_of_int [of 0, simplified] nat_str.simps digit_char_def)
  then have packet: "flag_packet (snd ?r) = nmea_sentence ''PUNVCFLG,0.0,0,1''"
    by (simp add: flag_packet_def r nat_str.simps digit_char_def)
  have "idle_core ports (s\<lparr>flag_manager := fst ?r\<rparr>)" "idle_locals (l\<lparr>flag_actuation_commands := snd ?r\<rparr>)"
    using idle r(4) by (simp_all add: idle_core_def idle_locals_def)
  with idle(1) show "\<exists>s1 l1 ps. flag_stage i (s, l) = ((fst (put_nowait ps s1), l1), snd (put_nowait ps s1)) \<and> tx_queue s1 = tx_queue s
      \<and> idle_core ports s1 \<and> idle_locals l1 \<and> list_all2 (\<lambda>P p. P p) [\<lambda>p. p = (nmea_sentence ''PUNVCFLG,0.0,0,1'', on_wire ports Machinery_Bus)] ps"
    by (intro exI [of _ "s\<lparr>flag_manager := fst ?r\<rparr>"] exI [of _ "l\<lparr>flag_actuation_commands := snd ?r\<rparr>"]
          exI [of _ "[(nmea_sentence ''PUNVCFLG,0.0,0,1'', on_wire ports Machinery_Bus)]"])
       (simp add: flag_stage_def packet wired_def on_wire_def idle_core_def split_beta)
qed simp

text \<open>The two steering frames: sealed, for the port and the starboard actuator.\<close>

definition steering_frame :: "bool \<Rightarrow> string \<Rightarrow> tx_item \<Rightarrow> bool" where
  "steering_frame ports side p \<longleftrightarrow> sealed p \<and> hd (sentence_fields (py_strip (fst p))) = ''$PUNVC'' @ side
     \<and> snd p = on_wire ports Steering_Wire"

lemma steering_frames:
  assumes "serialize_asymmetric_actuator_channels (asymmetric_serializer_init ''PUNVC'') out cap = (a, b)"
  shows "steering_frame ports ''PRT'' (a, on_wire ports Steering_Wire)" "steering_frame ports ''STB'' (b, on_wire ports Steering_Wire)"
proof -
  let ?h = "asymmetric_serializer_init ''PUNVC''"
  have h: "port_header ?h = ''PUNVCPRT''" "stbd_header ?h = ''PUNVCSTB''"
    by (simp_all add: asymmetric_serializer_init_def py_upper_def upper_char_def eval_nat_numeral)
  have plain: "plain_field ''PUNVCPRT''" "plain_field ''PUNVCSTB''" by (simp_all add: plain_field_def)
  have "hd (sentence_fields (py_strip (asymmetric_sentence g x c n))) = CHR ''$'' # g" if "plain_field g" for g x c n
    unfolding asymmetric_sentence_def using that by (subst sealed_csv(2)) (auto intro: plain_intros)
  note head = this [OF plain(1)] this [OF plain(2)]
  have "a = fst (serialize_asymmetric_actuator_channels ?h out cap)" "b = snd (serialize_asymmetric_actuator_channels ?h out cap)"
    using assms by simp_all
  then show "steering_frame ports ''PRT'' (a, on_wire ports Steering_Wire)" "steering_frame ports ''STB'' (b, on_wire ports Steering_Wire)"
    unfolding steering_frame_def using sealed_asymmetric
    by (simp_all add: serialize_asymmetric_actuator_channels_def h head Let_def)
qed

lemma quiet_stabilizer: "quiet ports stabilizer_stage [steering_frame ports ''PRT'', steering_frame ports ''STB'']"
proof (rule quiet_sender)
  fix s l assume idle: "idle_core ports s" "idle_locals l"
  obtain p rep where eval: "calculate_fire_synchronized_stabilization (asym_stabilizer s) (active_targets l) (live_telemetry l) (live_gun_state l)
      = (p, rep)" by (metis prod.exhaust_sel)
  obtain a b where ser: "serialize_asymmetric_actuator_channels (asymmetric_serializer_init ''PUNVC'') (stabilizer_dict rep) (slew_rate_cap l) = (a, b)"
    by (metis prod.exhaust_sel)
  have "idle_core ports (s\<lparr>asym_stabilizer := p\<rparr>)" using idle(1) by (simp add: idle_core_def)
  with idle steering_frames [OF ser] show "\<exists>s1 l1 ps. stabilizer_stage (s, l) = ((fst (put_nowait ps s1), l1), snd (put_nowait ps s1))
      \<and> tx_queue s1 = tx_queue s \<and> idle_core ports s1 \<and> idle_locals l1
      \<and> list_all2 (\<lambda>P p. P p) [steering_frame ports ''PRT'', steering_frame ports ''STB''] ps"
    by (intro exI [of _ "s\<lparr>asym_stabilizer := p\<rparr>"] exI [of _ l] exI [of _ "[(a, on_wire ports Steering_Wire), (b, on_wire ports Steering_Wire)]"])
       (simp add: stabilizer_stage_def eval ser wired_def on_wire_def idle_core_def split_beta)
next
  obtain a b where "serialize_asymmetric_actuator_channels (asymmetric_serializer_init ''PUNVC'') undefined 0 = (a, b)"
    by (metis prod.exhaust_sel)
  from steering_frames [OF this] show "\<forall>P \<in> set [steering_frame ports ''PRT'', steering_frame ports ''STB'']. \<exists>p. P p" by auto
qed

text \<open>What an idle ship sends in every turn.\<close>

definition idle_frames :: "bool \<Rightarrow> (tx_item \<Rightarrow> bool) list" where
  "idle_frames ports = [\<lambda>p. p = (nmea_sentence ''PUNVCANC,0,0,0'', on_wire ports Weapon_Wire),
     \<lambda>p. p = (nmea_sentence ''PUNVCBLG,1,0,0.0'', on_wire ports Machinery_Bus),
     \<lambda>p. p = (nmea_sentence ''PUNVCFLG,0.0,0,1'', on_wire ports Machinery_Bus),
     steering_frame ports ''PRT'', steering_frame ports ''STB'']"

lemma quiet_turn:
  assumes "poke_bound w"
  shows "quiet ports (run_stages (drop 2 (main_stages w i))) (idle_frames ports)"
proof -
  have "list_all2 (quiet ports) (drop 2 (main_stages w i))
    [[], [\<lambda>p. p = (nmea_sentence ''PUNVCANC,0,0,0'', on_wire ports Weapon_Wire)], [], [], [], [],
     [\<lambda>p. p = (nmea_sentence ''PUNVCBLG,1,0,0.0'', on_wire ports Machinery_Bus)],
     [\<lambda>p. p = (nmea_sentence ''PUNVCFLG,0.0,0,1'', on_wire ports Machinery_Bus)],
     [steering_frame ports ''PRT'', steering_frame ports ''STB''], [], [], [], []]"
    using assms by (simp add: main_stages_def quiet_engine quiet_anchor quiet_vibration quiet_poke quiet_legal quiet_bilge quiet_flag
        quiet_stabilizer quiet_shore quiet_compliance quiet_dispatch)
  from quiet_stages [OF this] show ?thesis by (simp add: idle_frames_def)
qed

section \<open>Turns of an idle ship\<close>

text \<open>The two calls that fail as shipped return.\<close>

definition repaired :: "wiring \<Rightarrow> bool" where
  "repaired w \<longleftrightarrow> poke_bound w \<and> (\<forall>c g. weapon_coupling w c g \<noteq> None)"

lemma empty_gun_line [simp]: "ingest_encoder_sentence p [] t = p"
  by (simp add: ingest_encoder_sentence_def validate_checksum_def starts_with_def py_strip_def)

lemma idle_sync:
  assumes "idle_core ports s"
  defines "sync \<equiv> get_synchronized_telemetry (net s)"
  shows "sync ''raw_weapon_string'' = None" "sync ''shallow_water_slowdown_active'' = None" "sync ''shore_power_cable_attached'' = None"
    "sync ''distance_to_bank_meters'' \<in> {None, Some (Fin 100)}"
    "sync ''roll_angle_rad'' = (if aliased (net s) then Some (Fin 0) else None)"
proof -
  let ?p = "telemetry_cache (r_parser (net s))"
  have "dom ?p \<subseteq> insert ''hardware_fault_triggered'' sensor_keys" "dom (own_cache (net s)) \<subseteq> feedback_keys"
    using assms(1) by (simp_all add: idle_core_def cache_shape_def)
  then have none: "k \<notin> insert ''hardware_fault_triggered'' sensor_keys \<Longrightarrow> ?p k = None" "k \<notin> feedback_keys \<Longrightarrow> own_cache (net s) k = None" for k
    by blast+
  have sync: "sync = (if aliased (net s) then ?p else own_cache (net s))"
    by (simp add: sync_def get_synchronized_telemetry_def live_telemetry_cache_def)
  show "sync ''raw_weapon_string'' = None" "sync ''shallow_water_slowdown_active'' = None" "sync ''shore_power_cable_attached'' = None"
    unfolding sync by (simp_all add: none sensor_keys_def feedback_keys_def)
  show "sync ''distance_to_bank_meters'' \<in> {None, Some (Fin 100)}" "sync ''roll_angle_rad'' = (if aliased (net s) then Some (Fin 0) else None)"
    using assms(1) unfolding sync by (simp_all add: none feedback_keys_def idle_core_def)
qed

lemma ingest_idle:
  assumes "idle_core ports s"
  obtains s1 l1 where "ingest_stage i (s, l) = ((s1, l1), None)" "idle_core ports s1" "idle_locals l1" "tx_queue s1 = tx_queue s"
    "net s1 = net s" "live_telemetry l1 ''roll_angle_rad'' = (if aliased (net s) then Some 0 else None)"
proof -
  obtain s1 l1 e where one: "ingest_stage i (s, l) = ((s1, l1), e)" by (metis prod.exhaust_sel)
  note sync = idle_sync [OF assms]
  have e: "e = None" and s1: "\<exists>c. s1 = s\<lparr>gun_parser := gun_parser s, weapon_async_link := c\<rparr>"
    and l1: "live_telemetry l1 = readings (get_synchronized_telemetry (net s))"
      "live_gun_state l1 = gun_dict (live_weapon_state (gun_parser s))" "text_targets l1 = Map.empty"
    using one sync(1) by (auto simp: ingest_stage_def Let_def)
  from s1 obtain c where s1: "s1 = s\<lparr>gun_parser := gun_parser s, weapon_async_link := c\<rparr>" by blast
  show ?thesis
  proof (rule that)
    show "ingest_stage i (s, l) = ((s1, l1), None)" using one e by simp
    show "idle_core ports s1" using assms by (simp add: s1 idle_core_def)
    show "idle_locals l1" using l1 sync(2-4) assms by (auto simp: idle_locals_def readings_def idle_core_def dget_def)
    show "tx_queue s1 = tx_queue s" "net s1 = net s" by (simp_all add: s1)
    show "live_telemetry l1 ''roll_angle_rad'' = (if aliased (net s) then Some 0 else None)"
      using l1(1) sync(5) by (simp add: readings_def)
  qed
qed

lemma coupling_idle:
  assumes "repaired w" "idle_locals l"
  shows "live_telemetry l ''roll_angle_rad'' = None \<Longrightarrow> coupling_stage w (s, l) = ((s, l), Some ''KeyError'')"
    and "live_telemetry l ''roll_angle_rad'' \<noteq> None \<Longrightarrow> \<exists>l'. coupling_stage w (s, l) = ((s, l'), None) \<and> idle_locals l'"
proof -
  obtain d where d: "weapon_coupling w ''DDG_ARLEIGH_BURKE'' (gun_metrics l) = Some d" using assms(1) by (auto simp: repaired_def)
  show "live_telemetry l ''roll_angle_rad'' = None \<Longrightarrow> coupling_stage w (s, l) = ((s, l), Some ''KeyError'')"
    by (simp add: coupling_stage_def d)
  show "live_telemetry l ''roll_angle_rad'' \<noteq> None \<Longrightarrow> \<exists>l'. coupling_stage w (s, l) = ((s, l'), None) \<and> idle_locals l'"
    using assms(2) by (auto simp: coupling_stage_def d idle_locals_def dget_def)
qed

lemma main_stages_split: "main_stages w i = ingest_stage i # coupling_stage w # drop 2 (main_stages w i)"
  by (simp add: main_stages_def)

lemma idle_turn:
  assumes "repaired w" "idle_core ports s" "main_cycle w i s = (s', l', e)"
  shows "if aliased (net s) then idle_core ports s' \<and> queued (idle_frames ports) (tx_queue s) (tx_queue s') e
         else e = Some ''KeyError'' \<and> tx_queue s' = tx_queue s"
proof -
  obtain s1 l1 where one: "ingest_stage i (s, unbound_locals) = ((s1, l1), None)" "idle_core ports s1" "idle_locals l1"
    "tx_queue s1 = tx_queue s" "live_telemetry l1 ''roll_angle_rad'' = (if aliased (net s) then Some 0 else None)"
    using ingest_idle [OF assms(2)] by metis
  have run: "run_stages (main_stages w i) (s, unbound_locals) = ((s', l'), e)" using assms(3) by (simp add: main_cycle_eq)
  show ?thesis
  proof (cases "aliased (net s)")
    case True
    obtain l2 where two: "coupling_stage w (s1, l1) = ((s1, l2), None)" "idle_locals l2"
      using coupling_idle(2) [OF assms(1) one(3)] one(5) True by auto
    have "run_stages (drop 2 (main_stages w i)) (s1, l2) = ((s', l'), e)"
      using run by (subst (asm) main_stages_split) (simp add: one(1) two(1))
    from quietD [OF quiet_turn one(2) two(2) this] assms(1) True show ?thesis by (simp add: repaired_def one(4))
  next
    case False
    then have "coupling_stage w (s1, l1) = ((s1, l1), Some ''KeyError'')"
      using coupling_idle(1) [OF assms(1) one(3)] one(5) by simp
    then show ?thesis using run False one(4) by (subst (asm) main_stages_split) (auto simp: one(1))
  qed
qed

lemma set_cache_elsewhere: "k \<noteq> k' \<Longrightarrow> telemetry_cache (set_cache k' v p) k = telemetry_cache p k"
  by (simp add: set_cache_def)

lemma parse_fields_keeps:
  assumes "parse_fields p parts t = Some p'" "k \<notin> {''yaw_rate_rads'', ''depth'', ''speed_ms''}"
  shows "telemetry_cache p' k = telemetry_cache p k"
proof -
  have heading: "telemetry_cache (heading_update p d t) k = telemetry_cache p k" for d
    using assms(2) by (auto simp: heading_update_def set_cache_elsewhere Let_def split: option.split)
  show ?thesis
    using assms heading by (auto simp: parse_fields_def set_cache_elsewhere Let_def split: option.splits if_splits)
qed

lemma parse_sentence_keeps:
  "k \<notin> {''yaw_rate_rads'', ''depth'', ''speed_ms''} \<Longrightarrow> telemetry_cache (parse_sentence p l t) k = telemetry_cache p k"
  by (auto simp: parse_sentence_def Let_def parse_fields_keeps split: option.split)

lemma write_live_keeps: "k \<noteq> k' \<Longrightarrow> telemetry_cache (r_parser (write_live k' v r)) k = telemetry_cache (r_parser r) k"
  by (simp add: write_live_def set_cache_elsewhere)

lemma router_keeps:
  assumes "k \<notin> {''yaw_rate_rads'', ''depth'', ''speed_ms'', ''rudder_deg'', ''hardware_fault_triggered''}"
  shows "telemetry_cache (r_parser (router_step r ev)) k = telemetry_cache (r_parser r) k"
proof (cases ev)
  case (Serial_Line line t)
  then show ?thesis using assms parse_sentence_keeps [of k "r_parser r" line t] by (simp add: ingest_raw_serial_line_def)
next
  case (Feedback_Line line dt)
  then show ?thesis using assms by (simp add: ingest_hardware_feedback_line_def write_live_keeps Let_def)
qed (simp_all add: route_calculated_loop_outputs_def start_router_services_def stop_router_services_def)

lemma idle_core_net: "idle_core ports s \<Longrightarrow> idle_core ports (s\<lparr>net := router_step (net s) ev\<rparr>)"
  by (simp add: idle_core_def cache_shape_step router_keeps)

lemma idle_core_update [simp]:
  "idle_core ports (s\<lparr>command_targets := n\<rparr>) = idle_core ports s" "idle_core ports (s\<lparr>ledger_guard := q\<rparr>) = idle_core ports s"
  "idle_core ports (s\<lparr>latest_cognitive_output := v\<rparr>) = idle_core ports s"
  "idle_core ports (s\<lparr>tx_queue := t\<rparr>) = idle_core ports s"
  "idle_core ports (s\<lparr>tx_queue := t, wire_log := u\<rparr>) = idle_core ports s"
  by (simp_all add: idle_core_def)

lemma put_nowait_net [simp]: "net (fst (put_nowait ps s)) = net s"
  by (simp add: put_nowait_def Let_def)

lemma stages_aliased:
  "aliased (net (fst (fst (ingest_stage i (s, l))))) = aliased (net s)" "aliased (net (fst (fst (coupling_stage w (s, l))))) = aliased (net s)"
  "aliased (net (fst (fst (engine_stage w (s, l))))) = aliased (net s)" "aliased (net (fst (fst (anchor_stage (s, l))))) = aliased (net s)"
  "aliased (net (fst (fst (vibration_stage (s, l))))) = aliased (net s)" "aliased (net (fst (fst (legal_stage i (s, l))))) = aliased (net s)"
  "aliased (net (fst (fst (poke w (s, l))))) = aliased (net s)" "aliased (net (fst (fst (bilge_stage i (s, l))))) = aliased (net s)"
  "aliased (net (fst (fst (flag_stage i (s, l))))) = aliased (net s)" "aliased (net (fst (fst (stabilizer_stage (s, l))))) = aliased (net s)"
  "aliased (net (fst (fst (compliance_stage i (s, l))))) = aliased (net s)" "aliased (net (fst (fst (dispatch_stage w i (s, l))))) = aliased (net s)"
  by (simp_all add: ingest_stage_def coupling_stage_def engine_stage_def vibration_stage_def legal_stage_def poke_def
      compliance_stage_def dispatch_stage_def anchor_stage_def bilge_stage_def flag_stage_def stabilizer_stage_def
      route_calculated_loop_outputs_def Let_def case_prod_beta split: option.split)

lemma shore_aliased: "aliased (net (fst (fst (shore_stage w (s, l))))) = aliased (net s)"
  by (simp add: shore_stage_def poke_def Let_def case_prod_beta split: option.split)

lemma stage_aliased:
  "f \<in> set (main_stages w i) \<Longrightarrow> aliased (net (fst (fst (f x)))) = aliased (net (fst x))"
  by (cases x) (auto simp: main_stages_def stages_aliased shore_aliased)

lemma main_cycle_aliased: "aliased (net s) \<Longrightarrow> aliased (net (fst (main_cycle w i s)))"
  using run_stages_keeps [of "main_stages w i" "\<lambda>x. aliased (net (fst x))" "(s, unbound_locals)"] stage_aliased [of _ w i]
  by (simp add: main_cycle_def Let_def case_prod_beta)

lemma router_aliased: "aliased (router_step r ev) \<longleftrightarrow> aliased r \<or> is_serial ev"
  by (cases ev) (simp_all add: ingest_raw_serial_line_def route_calculated_loop_outputs_def ingest_hardware_feedback_line_def
      start_router_services_def stop_router_services_def write_live_def Let_def)

lemma main_run_alive:
  "main_run w s0 (es @ [ev]) = (s, None) \<Longrightarrow> \<exists>s1. main_run w s0 es = (s1, None) \<and> main_step w (s1, None) ev = (s, None)"
  by (cases "main_run w s0 es"; cases "snd (main_run w s0 es)") auto

fun is_cycle :: "main_event \<Rightarrow> bool" where
  "is_cycle (Cycle i) \<longleftrightarrow> True"
| "is_cycle ev \<longleftrightarrow> False"

fun is_take :: "main_event \<Rightarrow> bool" where
  "is_take (Tx_Turn b) \<longleftrightarrow> True"
| "is_take ev \<longleftrightarrow> False"

fun sensor_line :: "main_event \<Rightarrow> bool" where
  "sensor_line (Net ev) \<longleftrightarrow> is_serial ev"
| "sensor_line ev \<longleftrightarrow> False"

lemma queued_length: "queued Ps q q' None \<Longrightarrow> length q \<le> 200 \<Longrightarrow> length q' = length q + length Ps \<and> length q' \<le> 200"
  by (auto simp: queued_def dest: list_all2_lengthD split: if_splits)

lemma worker_take: "length (tx_queue s) \<le> Suc (length (tx_queue (serial_tx_worker b s))) \<and> length (tx_queue (serial_tx_worker b s)) \<le> length (tx_queue s)
    \<and> net (serial_tx_worker b s) = net s \<and> (idle_core ports s \<longrightarrow> idle_core ports (serial_tx_worker b s))"
  by (auto simp: serial_tx_worker_def split: list.split)

text \<open>An idle ship stays idle, and the frames of its turns are in the queue or were taken.\<close>

lemma idle_run:
  assumes "repaired w" "idle_core ports s0" "tx_queue s0 = []" "main_run w s0 es = (s, None)"
  shows "idle_core ports s \<and> ((\<exists>ev \<in> set es. sensor_line ev) \<longrightarrow> aliased (net s)) \<and> length (tx_queue s) \<le> 200
    \<and> 5 * length (filter is_cycle es) \<le> length (tx_queue s) + length (filter is_take es)"
  using assms(4)
proof (induction es arbitrary: s rule: rev_induct)
  case Nil
  then show ?case using assms by simp
next
  case (snoc ev es)
  then obtain s1 where s1: "main_run w s0 es = (s1, None)" and step: "main_step w (s1, None) ev = (s, None)"
    using main_run_alive by blast
  note IH = snoc.IH [OF s1]
  show ?case
  proof (cases ev)
    case (Cycle i)
    then obtain l where turn: "main_cycle w i s1 = (s, l, None)" using step by (auto split: prod.splits)
    from idle_turn [OF assms(1) conjunct1 [OF IH] turn] have "aliased (net s1)" "idle_core ports s"
      "queued (idle_frames ports) (tx_queue s1) (tx_queue s) None" by (auto split: if_splits)
    with IH main_cycle_aliased [of s1 w i] turn queued_length [OF this(3)] show ?thesis by (simp add: Cycle idle_frames_def)
  next
    case (Tx_Turn b)
    then show ?thesis using IH step worker_take [of s1 b ports] by auto
  next
    case (Net r)
    then show ?thesis using IH step idle_core_net [of ports s1 r] by (auto simp: router_aliased)
  qed (use IH step in auto)
qed

lemma bootstrap_idle:
  assumes "bootstrap_core profile now fs ports = Some s0"
  shows "idle_core ports s0" "tx_queue s0 = []" "wire_log s0 = []"
proof -
  have "cache_shape (router_init ''UNVC'')" using cache_shape_run [of "''UNVC''" "[]"] by (simp add: router_run_def)
  then have "cache_shape (start_router_services (router_init ''UNVC''))"
    using cache_shape_step [of _ Start_Services] by simp
  then show "idle_core ports s0" "tx_queue s0 = []" "wire_log s0 = []"
    using assms
    by (auto simp: bootstrap_core_def idle_core_def anchor_init_def bilge_router_init_def flag_init_def start_router_services_def
        router_init_def nmea_parser_init_def split: if_splits option.splits)
qed


text \<open>Property C10. The loop outruns a slow wire. While it lives, five frames per turn are in the queue of two hundred or
  were taken by the transmit worker, so a loop that turned \<open>n\<close> times has seen at least \<open>5 n - 200\<close>
  turns of the worker: with the worker stuck in one write the loop is dead by its forty-first turn, which is
  0.82 seconds.
\<close>

theorem transmit_queue_overrun:
  assumes "repaired w" and "bootstrap_core profile now fs ports = Some s0" and "main_run w s0 es = (s, None)"
  shows "5 * length (filter is_cycle es) \<le> 200 + length (filter is_take es)"
  using idle_run [OF assms(1) bootstrap_idle(1,2) [OF assms(2)] assms(3)] by linarith

section \<open>As shipped\<close>

lemma idle_event:
  assumes "idle_core ports s" "\<not> is_cycle ev"
  obtains s' where "main_step w (s, None) ev = (s', None)" "idle_core ports s'" "engine s' = engine s"
    "tx_queue s = [] \<longrightarrow> tx_queue s' = [] \<and> wire_log s' = wire_log s"
  using assms idle_core_net [OF assms(1)] worker_take [of s _ ports]
  by (cases ev) (auto simp: serial_tx_worker_def split: list.splits)

lemma failing_stage: "f \<in> set fs \<Longrightarrow> (\<And>x. snd (f x) \<noteq> None) \<Longrightarrow> snd (run_stages fs x) \<noteq> None"
proof (induction fs arbitrary: x)
  case (Cons g fs)
  obtain y e where y: "g x = (y, e)" by (metis prod.exhaust_sel)
  show ?case
  proof (cases "f = g")
    case True
    with Cons.prems(2) [of x] y show ?thesis by auto
  qed (use Cons y in \<open>auto split: option.split\<close>)
qed simp

lemma turn_without_poke: "\<not> poke_bound w \<Longrightarrow> snd (snd (main_cycle w i s)) \<noteq> None"
  using failing_stage [of "poke w" "main_stages w i" "(s, unbound_locals)"]
  by (simp add: main_cycle_def main_stages_def poke_def Let_def case_prod_beta)

lemma shipped_turn:
  assumes "idle_core ports s" "main_cycle (shipped_wiring sub show) i s = (s', l, e)"
  shows "e = Some ''NameError'' \<and> tx_queue s' = tx_queue s \<and> wire_log s' = wire_log s \<and> engine s' = engine s"
proof -
  let ?w = "shipped_wiring sub show"
  have "weapon_coupling ?w ''DDG_ARLEIGH_BURKE'' g = None" for g
    by (simp add: shipped_wiring_def evaluate_vessel_cross_coupling_impact_def ship_class_catalog_def)
  then show ?thesis
    using assms(2) idle_sync(1) [OF assms(1)]
    by (auto simp: main_cycle_eq main_stages_def ingest_stage_def coupling_stage_def Let_def)
qed


section \<open>A completed turn\<close>

text \<open>What the stages do to the commands on their way to the router.\<close>

lemma ingest_done:
  "ingest_stage i (s, l) = ((s', l'), None) \<Longrightarrow> engine s' = engine s \<and> ledger_guard s' = ledger_guard s
     \<and> latest_cognitive_output s' = latest_cognitive_output s \<and> active_targets l' = target_dict (command_targets s)
     \<and> live_telemetry l' = readings (get_synchronized_telemetry (net s))"
  by (auto simp: ingest_stage_def Let_def split: if_splits)

lemma coupling_done:
  "coupling_stage w (s, l) = ((s', l'), None) \<Longrightarrow> s' = s \<and> active_targets l' = active_targets l
     \<and> (\<exists>r. live_telemetry l' = (live_telemetry l)(''roll_angle_rad'' \<mapsto> r))"
  by (auto simp: coupling_stage_def split: option.splits)

lemma engine_done:
  "engine_stage w (s, l) = ((s', l'), None) \<Longrightarrow> ledger_guard s' = ledger_guard s \<and> latest_cognitive_output s' = latest_cognitive_output s
     \<and> execute_bridge_loop (engine_parts w) (engine s) (active_targets l) (live_telemetry l) (1 / 50) = (engine s', live_telemetry l', actuator_commands l')"
  by (auto simp: engine_stage_def Let_def split: prod.splits)

lemma put_nowait_fields [simp]:
  "ledger_guard (fst (put_nowait ps s)) = ledger_guard s" "engine (fst (put_nowait ps s)) = engine s"
  "latest_cognitive_output (fst (put_nowait ps s)) = latest_cognitive_output s"
  "anchor_lock_manager (fst (put_nowait ps s)) = anchor_lock_manager s"
  by (simp_all add: put_nowait_def Let_def)

lemma anchor_done:
  assumes "anchor_stage (s, l) = ((s', l'), None)"
  shows "ledger_guard s' = ledger_guard s \<and> engine s' = engine s \<and> latest_cognitive_output s' = latest_cognitive_output s
     \<and> actuator_commands l' = actuator_commands
         (if anchor_state (anchor_lock_manager s') = LOCKED_EMERGENCY then cap_rpm 100 l else l)"
proof -
  obtain p rep where eval: "evaluate_anchor_safety_matrix (anchor_lock_manager s) (live_gun_state l)
      (dflag (active_targets l) ''navy_anchor_release_code'') = (p, rep)" by (metis prod.exhaust_sel)
  have "sea_machines_anchor_authority_allowed rep \<longleftrightarrow> anchor_state p \<noteq> LOCKED_EMERGENCY"
    using anchor_outputs(2,3) [OF eval] by blast
  then show ?thesis using assms by (auto simp: anchor_stage_def eval split_beta split: if_splits)
qed

text \<open>The stages that leave the commands, the engine, the anchor and the watchdog alone.\<close>

definition same_orders :: "bridge_core \<times> cycle_locals \<Rightarrow> bridge_core \<times> cycle_locals \<Rightarrow> bool" where
  "same_orders x y \<longleftrightarrow> actuator_commands (snd y) = actuator_commands (snd x) \<and> engine (fst y) = engine (fst x)
     \<and> anchor_lock_manager (fst y) = anchor_lock_manager (fst x) \<and> ledger_guard (fst y) = ledger_guard (fst x)
     \<and> latest_cognitive_output (fst y) = latest_cognitive_output (fst x)"

lemma same_orders_stages:
  "same_orders (s, l) (fst (poke w (s, l)))" "same_orders (s, l) (fst (bilge_stage i (s, l)))"
  "same_orders (s, l) (fst (flag_stage i (s, l)))" "same_orders (s, l) (fst (stabilizer_stage (s, l)))"
  by (simp_all add: same_orders_def poke_def bilge_stage_def flag_stage_def stabilizer_stage_def Let_def case_prod_beta)

lemma same_orders_shore: "same_orders (s, l) (fst (shore_stage w (s, l)))"
  by (simp add: same_orders_def poke_def shore_stage_def Let_def case_prod_beta split: option.split)

lemma same_ordersD:
  assumes "f x = (y, None)" "\<And>s l. same_orders (s, l) (fst (f (s, l)))"
  shows "same_orders x y"
  using assms(2) [of "fst x" "snd x"] assms(1) by simp

lemma vibration_done:
  "vibration_stage (s, l) = ((s', l'), None) \<Longrightarrow> s' = s \<and> actuator_commands l' = actuator_commands
     (if 12.5 \<le> dget (map_of (latest_cognitive_output s)) ''deck_vibration_hz'' 0 then cap_rpm 140 l else l)"
  by (auto simp: vibration_stage_def Let_def)

lemma legal_done:
  "legal_stage i (s, l) = ((s', l'), None) \<Longrightarrow> s' = s\<lparr>latest_cognitive_output := latest_cognitive_output s'\<rparr> \<and> actuator_commands l' = actuator_commands
     (if dflag (map_of (latest_cognitive_output s')) ''legal_boundary_alert_active'' then cap_rpm 150 l else l)"
  by (auto simp: legal_stage_def Let_def)

lemma compliance_done:
  "compliance_stage i (s, l) = ((s', l'), None) \<Longrightarrow> s' = s \<and> actuator_commands l' =
     (if l_faulted (ledger_guard s) then (actuator_commands l)\<lparr>command_motor_torque_nm := 0\<rparr> else actuator_commands l)"
  by (auto simp: compliance_stage_def get_ledger_diagnostics_def)

lemma dispatch_done:
  "dispatch_stage w i (s, l) = ((s', l'), None) \<Longrightarrow> l' = l \<and> latest_engine_commands (net s') = command_dict (actuator_commands l)
     \<and> engine s' = engine s \<and> anchor_lock_manager s' = anchor_lock_manager s \<and> latest_cognitive_output s' = latest_cognitive_output s"
  by (auto simp: dispatch_stage_def route_calculated_loop_outputs_def Let_def)

lemma cap_rpm_commands:
  "actuator_commands (cap_rpm c l) = (actuator_commands l)\<lparr>active_rpm_cap := min (active_rpm_cap (actuator_commands l)) c\<rparr>"
  by (simp add: cap_rpm_def)

text \<open>The states between the stages of a completed turn, and the orders in them.\<close>

lemma completed_turn:
  assumes "main_cycle w i s = (s', l, None)"
  obtains roll :: real and l3 l4 l5 l7 :: cycle_locals where
    "execute_bridge_loop (engine_parts w) (engine s) (target_dict (command_targets s))
       ((readings (get_synchronized_telemetry (net s)))(''roll_angle_rad'' \<mapsto> roll)) (1 / 50) = (engine s', live_telemetry l3, actuator_commands l3)"
    "actuator_commands l4 = actuator_commands (if anchor_state (anchor_lock_manager s') = LOCKED_EMERGENCY then cap_rpm 100 l3 else l3)"
    "actuator_commands l5 = actuator_commands (if 12.5 \<le> dget (map_of (latest_cognitive_output s)) ''deck_vibration_hz'' 0 then cap_rpm 140 l4 else l4)"
    "actuator_commands l7 = actuator_commands (if dflag (map_of (latest_cognitive_output s')) ''legal_boundary_alert_active'' then cap_rpm 150 l5 else l5)"
    "latest_engine_commands (net s') = command_dict (if l_faulted (ledger_guard s) then (actuator_commands l7)\<lparr>command_motor_torque_nm := 0\<rparr> else actuator_commands l7)"
proof -
  have "run_stages (main_stages w i) (s, unbound_locals) = ((s', l), None)" using assms by (simp add: main_cycle_eq)
  then obtain x1 x2 x3 x4 x5 x6 x7 x8 x9 x10 x11 x12 x13 x14 where run:
    "ingest_stage i (s, unbound_locals) = (x1, None)" "coupling_stage w x1 = (x2, None)" "engine_stage w x2 = (x3, None)"
    "anchor_stage x3 = (x4, None)" "vibration_stage x4 = (x5, None)" "poke w x5 = (x6, None)" "legal_stage i x6 = (x7, None)"
    "poke w x7 = (x8, None)" "bilge_stage i x8 = (x9, None)" "flag_stage i x9 = (x10, None)" "stabilizer_stage x10 = (x11, None)"
    "shore_stage w x11 = (x12, None)" "compliance_stage i x12 = (x13, None)" "dispatch_stage w i x13 = (x14, None)"
    "poke w x14 = ((s', l), None)"
    unfolding main_stages_def run_stages_done run_stages.simps(1) prod.inject by (elim exE conjE) (rule that; simp only:)
  note same = same_ordersD [OF run(6) same_orders_stages(1)] same_ordersD [OF run(8) same_orders_stages(1)]
    same_ordersD [OF run(9) same_orders_stages(2)] same_ordersD [OF run(10) same_orders_stages(3)]
    same_ordersD [OF run(11) same_orders_stages(4)] same_ordersD [OF run(12) same_orders_shore]
  obtain s1 l1 s2 l2 s3 l3 s4 l4 s5 l5 s6 l6 s7 l7 where x: "x1 = (s1, l1)" "x2 = (s2, l2)" "x3 = (s3, l3)" "x4 = (s4, l4)"
    "x5 = (s5, l5)" "x6 = (s6, l6)" "x7 = (s7, l7)" by (metis prod.exhaust_sel)
  obtain s12 l12 s13 l13 s14 l14 where y: "x12 = (s12, l12)" "x13 = (s13, l13)" "x14 = (s14, l14)" by (metis prod.exhaust_sel)
  note one = ingest_done [OF run(1) [unfolded x]] and two = coupling_done [OF run(2) [unfolded x]] and three = engine_done [OF run(3) [unfolded x]]
    and four = anchor_done [OF run(4) [unfolded x]] and five = vibration_done [OF run(5) [unfolded x]] and seven = legal_done [OF run(7) [unfolded x]]
    and thirteen = compliance_done [OF run(13) [unfolded y]] and fourteen = dispatch_done [OF run(14) [unfolded y]]
  have mid: "same_orders x7 x12" using same(2-6) by (simp add: same_orders_def)
  have last: "s14 = s'" using run(15) y by (simp add: poke_def)
  let ?a = "anchor_state (anchor_lock_manager s') = LOCKED_EMERGENCY"
    and ?v = "12.5 \<le> dget (map_of (latest_cognitive_output s)) ''deck_vibration_hz'' 0"
    and ?g = "dflag (map_of (latest_cognitive_output s')) ''legal_boundary_alert_active''"
  have s7: "engine s7 = engine s6" "anchor_lock_manager s7 = anchor_lock_manager s6" "ledger_guard s7 = ledger_guard s6"
    using arg_cong [OF conjunct1 [OF seven], of engine] arg_cong [OF conjunct1 [OF seven], of anchor_lock_manager]
      arg_cong [OF conjunct1 [OF seven], of ledger_guard] by simp_all
  have objects: "engine s' = engine s3" "anchor_lock_manager s' = anchor_lock_manager s4" "latest_cognitive_output s' = latest_cognitive_output s7"
    "latest_cognitive_output s4 = latest_cognitive_output s" "ledger_guard s12 = ledger_guard s"
    using one two three four five thirteen fourteen mid last same(1) s7 by (auto simp: same_orders_def x y)
  have l4: "actuator_commands l4 = actuator_commands (if ?a then cap_rpm 100 l3 else l3)"
    and l5: "actuator_commands l5 = actuator_commands (if ?v then cap_rpm 140 l4 else l4)"
    and l7: "actuator_commands l7 = actuator_commands (if ?g then cap_rpm 150 l5 else l5)"
    using four five seven objects same(1) by (auto simp: same_orders_def x cap_rpm_commands)
  have l14: "actuator_commands l14 = (if l_faulted (ledger_guard s) then (actuator_commands l7)\<lparr>command_motor_torque_nm := 0\<rparr> else actuator_commands l7)"
    using thirteen fourteen objects(5) mid by (auto simp: same_orders_def x y)
  obtain r where "live_telemetry l2 = (readings (get_synchronized_telemetry (net s)))(''roll_angle_rad'' \<mapsto> r)" using one two by auto
  then have loop: "execute_bridge_loop (engine_parts w) (engine s) (target_dict (command_targets s))
      ((readings (get_synchronized_telemetry (net s)))(''roll_angle_rad'' \<mapsto> r)) (1 / 50) = (engine s', live_telemetry l3, actuator_commands l3)"
    using one two three objects(1) by auto
  have "latest_engine_commands (net s') = command_dict (actuator_commands l14)" using fourteen last by simp
  with loop l4 l5 l7 l14 show thesis by (intro that [of r l3 l4 l5 l7]) simp_all
qed

text \<open>Property C6. In a turn that completes, the interlocks only restrain the engine. The engine runs on the operator's
  targets and the sensor cache, corrected in roll alone; the rudder order reaches the router as computed; the torque order does too unless the ledger
  watchdog has tripped, which makes it zero; and the shaft cap is the least of the engine's own and the
  limits of the interlocks in force: 100 while the anchor is locked, 140 under severe deck vibration, 150
  in a legal boundary zone.
\<close>

theorem interlocks_only_restrain:
  assumes "main_cycle w i s = (s', l, None)"
  shows "\<exists>roll tele cmds. execute_bridge_loop (engine_parts w) (engine s) (target_dict (command_targets s))
        ((readings (get_synchronized_telemetry (net s)))(''roll_angle_rad'' \<mapsto> roll)) (1 / 50) = (engine s', tele, cmds)
    \<and> dget (latest_engine_commands (net s')) ''command_rudder_angle_deg'' 0 = command_rudder_angle_deg cmds
    \<and> dget (latest_engine_commands (net s')) ''command_motor_torque_nm'' 0 =
        (if l_faulted (ledger_guard s) then 0 else command_motor_torque_nm cmds)
    \<and> dget (latest_engine_commands (net s')) ''active_rpm_cap'' 0 = Min ({active_rpm_cap cmds}
        \<union> (if anchor_state (anchor_lock_manager s') = LOCKED_EMERGENCY then {100} else {})
        \<union> (if 12.5 \<le> dget (map_of (latest_cognitive_output s)) ''deck_vibration_hz'' 0 then {140} else {})
        \<union> (if dflag (map_of (latest_cognitive_output s')) ''legal_boundary_alert_active'' then {150} else {}))"
proof -
  obtain roll :: real and l3 l4 l5 l7 :: cycle_locals where loop: "execute_bridge_loop (engine_parts w) (engine s) (target_dict (command_targets s))
       ((readings (get_synchronized_telemetry (net s)))(''roll_angle_rad'' \<mapsto> roll)) (1 / 50) = (engine s', live_telemetry l3, actuator_commands l3)"
    and caps: "actuator_commands l4 = actuator_commands (if anchor_state (anchor_lock_manager s') = LOCKED_EMERGENCY then cap_rpm 100 l3 else l3)"
    "actuator_commands l5 = actuator_commands (if 12.5 \<le> dget (map_of (latest_cognitive_output s)) ''deck_vibration_hz'' 0 then cap_rpm 140 l4 else l4)"
    "actuator_commands l7 = actuator_commands (if dflag (map_of (latest_cognitive_output s')) ''legal_boundary_alert_active'' then cap_rpm 150 l5 else l5)"
    and router: "latest_engine_commands (net s') = command_dict (if l_faulted (ledger_guard s)
       then (actuator_commands l7)\<lparr>command_motor_torque_nm := 0\<rparr> else actuator_commands l7)"
    by (rule completed_turn [OF assms])
  have "Min ({r} \<union> (if a then {100} else {}) \<union> (if v then {140} else {}) \<union> (if g then {150} else {})) =
      (let m = (if a then min r 100 else r); m = (if v then min m 140 else m) in if g then min m 150 else m)" for r :: real and a v g
    by (auto simp: Let_def min_def)
  with loop show ?thesis
    by (intro exI [of _ roll] exI [of _ "live_telemetry l3"] exI [of _ "actuator_commands l3"])
       (simp add: router command_dict_def dget_def caps cap_rpm_commands Let_def)
qed

section \<open>A concrete ship\<close>

text \<open>The bench: the loader's fallback profile, subsystems that answer zero, both failing calls repaired.\<close>

definition bench_parts :: subsystems where
  "bench_parts = \<lparr>integrate_dr = (\<lambda>lat lon v h dt. (lat, lon)), weapon_list_deg = (\<lambda>t. 0), channel_trim = (\<lambda>t. 0),
     bank_force = (\<lambda>t dt. 0), wave_index = (\<lambda>r y t dt. 1), coriolis_deg = (\<lambda>v l. 0)\<rparr>"

definition bench_wiring :: wiring where
  "bench_wiring = \<lparr>weapon_coupling = (\<lambda>c g. Some 0), poke_bound = True, engine_parts = bench_parts, show_num = (\<lambda>x. [])\<rparr>"

definition bench_core :: bridge_core where
  "bench_core = the (bootstrap_core (readings (map_of fallback_profile)) 0 Map.empty True)"

definition bench_input :: cycle_input where
  "bench_input = \<lparr>clock = (\<lambda>n. 0), gun_line = [], cog_update = None\<rparr>"

lemma fallback_boots: "bootstrap_core (readings (map_of fallback_profile)) 0 Map.empty True = Some bench_core"
  by (simp add: bench_core_def bootstrap_core_def readings_def fallback_profile_def)

lemma bench_repaired: "repaired bench_wiring"
  by (simp add: repaired_def bench_wiring_def)

text \<open>A first sensor line, then one turn.\<close>

lemma bench_run: "\<exists>s. main_run bench_wiring bench_core [Net (Serial_Line [] 0)] = (s, None) \<and> tx_queue s = []"
  using bootstrap_idle(2) [OF fallback_boots] by (simp add: main_run_def)


lemma bench_turn: "\<exists>s1 s l. main_run bench_wiring bench_core [Net (Serial_Line [] 0), Cog_Write c] = (s1, None) \<and> latest_cognitive_output s1 = c
    \<and> main_run bench_wiring bench_core [Net (Serial_Line [] 0), Cog_Write c, Cycle bench_input] = (s, None)
    \<and> main_cycle bench_wiring bench_input s1 = (s, l, None) \<and> length (tx_queue s) = 5"
proof -
  obtain s0 where s0: "main_run bench_wiring bench_core [Net (Serial_Line [] 0)] = (s0, None)" "tx_queue s0 = []" using bench_run by blast
  define s1 where "s1 = s0\<lparr>latest_cognitive_output := c\<rparr>"
  have s1: "main_run bench_wiring bench_core [Net (Serial_Line [] 0), Cog_Write c] = (s1, None)" "tx_queue s1 = []"
    using s0 by (simp_all add: s1_def main_run_def)
  obtain s l e where turn: "main_cycle bench_wiring bench_input s1 = (s, l, e)" by (metis prod.exhaust_sel)
  have idle: "idle_core True s1" "aliased (net s1)"
    using idle_run [OF bench_repaired bootstrap_idle(1,2) [OF fallback_boots] s1(1)] by auto
  from idle_turn [OF bench_repaired idle(1) turn] idle(2) s1(2) have q: "queued (idle_frames True) [] (tx_queue s) e" by simp
  then have "e = None" "length (tx_queue s) = 5" by (auto simp: queued_def idle_frames_def dest: list_all2_lengthD)
  moreover have "latest_cognitive_output s1 = c" by (simp add: s1_def)
  ultimately show ?thesis using s1(1) turn by (auto simp: main_run_def)
qed

theorem transmit_queue_overrun_witness:
  "5 * length (filter is_cycle [Net (Serial_Line [] 0), Cog_Write [], Cycle bench_input]) \<le> 200 + length (filter is_take [Net (Serial_Line [] 0), Cog_Write [], Cycle bench_input])"
proof -
  obtain s where "main_run bench_wiring bench_core [Net (Serial_Line [] 0), Cog_Write [], Cycle bench_input] = (s, None)" using bench_turn by blast
  from transmit_queue_overrun [OF bench_repaired fallback_boots this] show ?thesis .
qed

theorem main_frames_sealed_witness:
  "\<exists>s frame port. main_run bench_wiring bench_core [Net (Serial_Line [] 0), Cog_Write [], Cycle bench_input] = (s, None)
     \<and> (frame, port) \<in> set (tx_queue s) \<and> validate_checksum (py_strip frame)"
proof -
  obtain s where s: "main_run bench_wiring bench_core [Net (Serial_Line [] 0), Cog_Write [], Cycle bench_input] = (s, None)" "length (tx_queue s) = 5"
    using bench_turn by blast
  then obtain frame port where "(frame, port) \<in> set (tx_queue s)" by (cases "tx_queue s") auto
  with main_frames_sealed [OF fallback_boots s(1), of frame port] s(1) show ?thesis by auto
qed


theorem interlocks_only_restrain_witness:
  "\<exists>s s' l. latest_cognitive_output s = [(''deck_vibration_hz'', 13)] \<and> main_cycle bench_wiring bench_input s = (s', l, None)
     \<and> dget (latest_engine_commands (net s')) ''active_rpm_cap'' 0 \<le> 140"
proof -
  obtain s s' l where turn: "latest_cognitive_output s = [(''deck_vibration_hz'', 13)]" "main_cycle bench_wiring bench_input s = (s', l, None)"
    using bench_turn by blast
  have "dget (map_of [(''deck_vibration_hz'', 13)]) ''deck_vibration_hz'' 0 = 13" by (simp add: dget_def)
  with interlocks_only_restrain [OF turn(2)] turn show ?thesis by auto
qed

text \<open>On shutdown only the flag logger is stopped.\<close>

lemma shutdown_incomplete:
  assumes "shutdown s = (s', e)"
  shows "e = Some ''AttributeError'' \<and> \<not> is_logging (flag_log s') \<and> is_logging (bilge_log s') = is_logging (bilge_log s)
    \<and> m_logging (mission_log s') = m_logging (mission_log s) \<and> net s' = net s"
  using assms by (auto simp: shutdown_def stop_logger_services_def)

end
