(* ===== verification/Main_Fragments.thy ===== *)
theory Main_Fragments
  imports Main_Watch Museum_Final Hal "HOL-Library.AList" "HOL-Library.Monad_Syntax"
begin

unbundle bit_operations_syntax

text \<open>
  The pieces of other versions that are pasted around the loop of \<open>main.py\<close>: the light valve and
  hexadecimal spectrum blocks, the native word orders of the abstraction layer, the handshake address
  of the boot, and the two bodies of the cognitive worker. The shipped file cannot run them (it does not
  parse, and the worker's thread is started only inside the worker's own loop); each is modelled as a
  function of the names it reads, and the theorems say what it would do in the loop.
\<close>

section \<open>Light valve and spectrum\<close>

text \<open>The valve with the amplification of the bootstrap, the default plate resistance and the plate
  voltage of the block; its saturation caps the shaft.\<close>

definition valve_block :: "real \<Rightarrow> cycle_locals \<Rightarrow> (valve_state \<times> cycle_locals) option" where
  "valve_block now l =
     (let live_grid_potential_v = dget (live_telemetry l) ''joystick_analog_voltage_v'' 0
      in map_option (\<lambda>v. (v, if valve_saturation_fault v then cap_rpm 200 l else l))
           (led_vacuum_transfer_step 25 8500 now live_grid_potential_v 220))"

definition cap_rudder :: "real \<Rightarrow> cycle_locals \<Rightarrow> cycle_locals" where
  "cap_rudder limit l = l\<lparr>actuator_commands := (actuator_commands l)\<lparr>command_rudder_angle_deg :=
     clamp (- limit) limit (command_rudder_angle_deg (actuator_commands l))\<rparr>\<rparr>"

text \<open>The modulator of four volts on the flux of a valve snapshot.\<close>

definition spectrum_block :: "real \<Rightarrow> valve_state \<Rightarrow> cycle_locals \<Rightarrow> spectrum_cache \<times> cycle_locals" where
  "spectrum_block now v l =
     (let p = modulate_flux_to_hex_spectrum 4 now (simulated_led_photon_flux_lumen v)
      in (p, if signal_saturation_alert p then cap_rudder 15 l else l))"

definition optic_blocks :: "real \<Rightarrow> cycle_locals \<Rightarrow> (spectrum_cache \<times> cycle_locals) option" where
  "optic_blocks now l = map_option (\<lambda>(v, l). spectrum_block now v l) (valve_block now l)"

section \<open>Native words\<close>

text \<open>The layer at boot, the rudder order in hundredths of a degree and its bytes, and the bus word of a
  telemetry string; \<open>None\<close> is the \<open>ValueError\<close> of a string that is no hexadecimal number.\<close>

definition boot_hal :: hal where
  "boot_hal = fst (clear_interlocks_for_model hal_init ''AN/UYK-43'')"

definition target_rudder_integer :: "cycle_locals \<Rightarrow> int" where
  "target_rudder_integer l = py_int (command_rudder_angle_deg (actuator_commands l) * 100)"

definition native_rudder_order :: "hal \<Rightarrow> cycle_locals \<Rightarrow> (nat list \<times> string) option" where
  "native_rudder_order h l = unpack_64bit_to_native_bytes h (target_rudder_integer l)"

definition sanitized_bus_word :: "hal \<Rightarrow> string option \<Rightarrow> int option" where
  "sanitized_bus_word h raw_bus_word_hex =
     (case py_int16 (case raw_bus_word_hex of None \<Rightarrow> ''0x0000'' | Some s \<Rightarrow> s) of
        None \<Rightarrow> None
      | Some raw_unmasked_bearing_word \<Rightarrow> pack_native_word_to_64bit h raw_unmasked_bearing_word)"

section \<open>Handshake address\<close>

text \<open>The class named by the manifest metadata of the profile, where there is one.\<close>

definition boot_handshake :: "(string \<rightharpoonup> string) option \<Rightarrow> real \<Rightarrow> alignment_state" where
  "boot_handshake metadata now =
     (let vessel_profile_key = dget (case metadata of None \<Rightarrow> Map.empty | Some m \<Rightarrow> m) ''vessel_hull_class'' ''EARLY_AEGIS_DESTROYER''
      in compute_lowest_possible_handshake_mac vessel_profile_key now 1 0 0 0)"

section \<open>The cognitive worker\<close>

type_synonym register = "(string \<times> real) list"

text \<open>One turn of the first body: it writes four entries of the shared register. The truth value is 1.\<close>

definition resonance_turn :: "num_dict \<Rightarrow> real \<Rightarrow> num_dict \<Rightarrow> register \<Rightarrow> register" where
  "resonance_turn vessel_profile now tele out =
     (let live_platform_stiffness = dget tele ''structural_stiffness_nm'' 450000;
          live_platform_mass = dget vessel_profile ''displacement_tonnes'' 4500 * 0.1;
          calculated_deck_resonance_hz = equation_body_vibration_resonance live_platform_stiffness live_platform_mass;
          live_amplitude = dget tele ''roll_rate_rads'' 0 * 0.05;
          calculated_counter_force = equation_adaptive_frequency_cancellation live_amplitude 0.24 calculated_deck_resonance_hz now
      in AList.update ''serial_pattern_match_ratio'' 0.14
           (AList.update ''right_wrong_logic_nominal'' 1
             (AList.update ''hydraulic_dampening_command_n'' calculated_counter_force
               (AList.update ''deck_vibration_hz'' calculated_deck_resonance_hz out))))"

definition cognitive_dict :: "cognitive_report \<Rightarrow> register" where
  "cognitive_dict c = [(''tesla_radiated_power_watts'', tesla_radiated_power_watts c),
     (''mimic_decoy_phase_shift_rad'', mimic_decoy_phase_shift_rad c),
     (''legal_boundary_alert_active'', truth (legal_boundary_alert_active c)),
     (''operator_attention_percentage'', operator_attention_percentage c)]"

text \<open>One turn of the second body. It decodes a shaft word into the telemetry of the loop, steps the
  engine of the loop, pokes the watchdog and replaces the register by the results of the cognitive ring
  on a snapshot of its own; the status text of the results has no number and is left out. \<open>Inl\<close> is
  the exception; what was written before it stays.\<close>

definition ring_turn :: "wiring \<Rightarrow> gray_telemetry \<times> bridge_engine \<times> num_dict \<Rightarrow> num_dict \<Rightarrow> string option \<Rightarrow> num_dict \<Rightarrow> real
    \<Rightarrow> (gray_telemetry \<times> bridge_engine \<times> num_dict) \<times> (string + bridge_commands \<times> register)" where
  "ring_turn w x targets raw_cray_gray_word current_telemetry_snapshot now =
     (let (g, e, tele) = x in
      case py_int16 (case raw_cray_gray_word of None \<Rightarrow> ''0x00'' | Some s \<Rightarrow> s) of
        None \<Rightarrow> (x, Inl ''ValueError'')
      | Some word \<Rightarrow>
          let g = decode_cray_gray_word g now word 12;
              tele = tele(''cray_shaft_angle_deg'' \<mapsto> calibrated_shaft_angle_deg g);
              (e, tele, cmds) = execute_bridge_loop (engine_parts w) e targets tele (1 / 50)
          in ((g, e, tele), if \<not> poke_bound w then Inl ''AttributeError''
                           else Inr (cmds, cognitive_dict (process_cognitive_step current_telemetry_snapshot))))"

section \<open>Blocks on an unbound object\<close>

text \<open>Two blocks call formulas as methods of \<open>bilge_gate_manager\<close>, a name nothing binds. The object is a
  parameter: \<open>None\<close> is the unbound name, otherwise a record of its methods, each of which may raise.\<close>

record gate_methods =
  crosseye :: "real \<Rightarrow> real \<Rightarrow> real \<Rightarrow> real option"
  levitation :: "real \<Rightarrow> int \<Rightarrow> real \<Rightarrow> real \<Rightarrow> real option"
  coral :: "real \<Rightarrow> real \<Rightarrow> real \<Rightarrow> real option"
  seiche :: "real \<Rightarrow> real \<Rightarrow> real option"
  harmonic_tide :: "real \<Rightarrow> real \<Rightarrow> real \<Rightarrow> real option"
  collapse :: "real \<Rightarrow> real \<Rightarrow> real \<Rightarrow> real option"

text \<open>The formulas of the museum catalogue under these names.\<close>

definition museum_gate :: gate_methods where
  "museum_gate = \<lparr>crosseye = (\<lambda>b r f. Some (equation_radar_crosseye_phase b r f)),
     levitation = (\<lambda>i n g a. Some (equation_inductive_levitation_force i n g a)),
     coral = equation_coral_drag_amplification, seiche = (\<lambda>l d. Some (equation_lake_seiche_period l d)),
     harmonic_tide = (\<lambda>t a b. Some (equation_ocean_harmonic_tide t a b)), collapse = equation_titanium_hull_collapse\<rparr>"

text \<open>The radar and levitation block: the three rounded metrics, and the cap of the shaft under
  biofouling.\<close>

definition tricks_block :: "gate_methods option \<Rightarrow> cycle_locals \<Rightarrow> (num_dict \<times> cycle_locals) option" where
  "tricks_block gate l =
     do { bilge_gate_manager \<leftarrow> gate;
          let live_radar_freq = dget (live_telemetry l) ''enemy_radar_frequency_hz'' 3000000000;
          calculated_decoy_phase \<leftarrow> crosseye bilge_gate_manager 12.5 15000 live_radar_freq;
          required_lifting_current \<leftarrow> levitation bilge_gate_manager
            (dget (live_telemetry l) ''tesla_input_current_amps'' 450) 1200 0.045 0.25;
          adjusted_hull_drag \<leftarrow> coral bilge_gate_manager 0.0045 12.4 (dget (live_telemetry l) ''speed_ms'' 0);
          Some ([''crosseye_radar_phase_shift_rad'' \<mapsto> py_round 4 calculated_decoy_phase,
                 ''magnetic_levitation_lift_force_n'' \<mapsto> py_round 1 required_lifting_current,
                 ''adjusted_biofouling_drag_coefficient'' \<mapsto> py_round 5 adjusted_hull_drag],
                if 0.0085 < adjusted_hull_drag then cap_rpm 450 l else l) }"

text \<open>The tide block: the time is what the turn has taken so far; the tide is added to the sounded depth.\<close>

definition tide_block :: "gate_methods option \<Rightarrow> real \<Rightarrow> real \<Rightarrow> cycle_locals \<Rightarrow> (num_dict \<times> cycle_locals) option" where
  "tide_block gate now start_cycle_time l =
     do { bilge_gate_manager \<leftarrow> gate;
          let current_voyage_time_hours = (now - start_cycle_time) / 3600;
          calculated_seiche_window \<leftarrow> seiche bilge_gate_manager 8000 (dget (live_telemetry l) ''depth'' 12.5);
          simulated_tidal_shift_m \<leftarrow> harmonic_tide bilge_gate_manager current_voyage_time_hours 1.4 0.45;
          p \<leftarrow> collapse bilge_gate_manager 850000000 2.1 1.95;
          depth \<leftarrow> live_telemetry l ''depth'';
          Some ([''predicted_harmonic_tidal_height_m'' \<mapsto> py_round 2 simulated_tidal_shift_m,
                 ''lake_seiche_resonance_period_sec'' \<mapsto> py_round 1 calculated_seiche_window,
                 ''titanium_hull_collapse_depth_m'' \<mapsto> py_round 1 (p / 10055)],
                l\<lparr>live_telemetry := (live_telemetry l)(''depth'' \<mapsto> depth + simulated_tidal_shift_m)\<rparr>) }"

section \<open>What the blocks would do\<close>

lemma router_reading:
  assumes "k \<notin> insert ''hardware_fault_triggered'' sensor_keys"
  shows "readings (get_synchronized_telemetry (router_run (router_init code) es)) k = None"
proof -
  let ?r = "router_run (router_init code) es"
  have "dom (get_synchronized_telemetry ?r) \<subseteq> insert ''hardware_fault_triggered'' sensor_keys"
    using cache_shape_run [of code es] sensor_keys_mem(4)
    unfolding cache_shape_def get_synchronized_telemetry_def live_telemetry_cache_def feedback_keys_def by auto
  with assms have "get_synchronized_telemetry ?r k = None" by blast
  then show ?thesis by (simp add: readings_def)
qed

lemma valve_flux_mono:
  assumes "0 < a" "a \<le> b"
  shows "py_round 2 (12.5 * a powr 1.5) \<le> py_round 2 (12.5 * b powr 1.5)"
  using assms by (intro py_round_mono mult_left_mono powr_mono2) auto

lemma powr_three_halves: "0 < v \<Longrightarrow> v powr 1.5 = v * sqrt v"
  using powr_add [of v 1 "1 / 2"] by (simp add: powr_half_sqrt)

lemma valve_flux_marks:
  "py_round 2 (12.5 * 3.8 powr 1.5) < 1400 / 15" "1400 / 15 < py_round 2 (12.5 * 3.9 powr 1.5)"
proof -
  have low: "3.8 powr 1.5 = 3.8 * sqrt (3.8::real)" and high: "3.9 powr 1.5 = 3.9 * sqrt (3.9::real)"
    by (rule powr_three_halves, simp)+
  have "sqrt 3.8 \<le> 1.95" by (rule real_le_lsqrt) (simp_all add: power2_eq_square)
  then have "12.5 * (3.8 * sqrt 3.8) \<le> 12.5 * (3.8 * 1.95 :: real)" by (intro mult_left_mono) simp_all
  also have "\<dots> \<le> 92.7" by simp
  finally have "py_round 2 (12.5 * (3.8 * sqrt 3.8)) \<le> 92.7" by (rule py_round_le [where k = 9270]) simp
  then show "py_round 2 (12.5 * 3.8 powr 1.5) < 1400 / 15" unfolding low by (rule order.strict_trans1) simp
  have "1.97 \<le> sqrt 3.9" by (rule real_le_rsqrt) (simp add: power2_eq_square)
  then have "12.5 * (3.9 * 1.97 :: real) \<le> 12.5 * (3.9 * sqrt 3.9)" by (intro mult_left_mono) simp_all
  moreover have "95 \<le> 12.5 * (3.9 * 1.97 :: real)" by simp
  ultimately have "95 \<le> 12.5 * (3.9 * sqrt (3.9 :: real))" by (rule order_trans [rotated])
  then have "95 \<le> py_round 2 (12.5 * (3.9 * sqrt 3.9))" by (rule py_round_ge [where k = 9500]) simp
  then show "1400 / 15 < py_round 2 (12.5 * 3.9 powr 1.5)" unfolding high by (rule order.strict_trans2 [rotated]) simp
qed

lemma spectrum_alert: "signal_saturation_alert (modulate_flux_to_hex_spectrum c now x) \<longleftrightarrow> 1400 / 15 \<le> x"
proof -
  have "14 \<le> quantized_step x \<longleftrightarrow> 14 \<le> clamp 0 100 x / 100 * 15"
    by (simp add: quantized_step_def le_nat_iff le_floor_iff)
  also have "\<dots> \<longleftrightarrow> 1400 / 15 \<le> x" by (auto simp: clamp_def min_def max_def field_simps)
  finally show ?thesis by (simp add: modulate_flux_to_hex_spectrum_def Let_def)
qed

lemma led_vacuum_transfer_step_total: "\<exists>v. led_vacuum_transfer_step 25 8500 now grid 220 = Some v"
  by (simp add: led_vacuum_transfer_step_def Let_def)

lemma valve_alert:
  assumes "valve_block now l = Some (v, l')"
  defines "g \<equiv> dget (live_telemetry l) ''joystick_analog_voltage_v'' 0"
  shows "- 4.9 \<le> g \<Longrightarrow> 1400 / 15 \<le> simulated_led_photon_flux_lumen v"
    and "g \<le> - 5 \<Longrightarrow> simulated_led_photon_flux_lumen v < 1400 / 15"
    and "l' = (if 42.2 < g then cap_rpm 200 l else l)"
proof -
  have v: "led_vacuum_transfer_step 25 8500 now g 220 = Some v" and l': "l' = (if valve_saturation_fault v then cap_rpm 200 l else l)"
    using assms by (auto simp: valve_block_def)
  have flux: "simulated_led_photon_flux_lumen v = (if g + 8.8 \<le> 0 then 0 else py_round 2 (12.5 * (g + 8.8) powr 1.5))"
    using v by (auto simp: led_vacuum_transfer_step_def Let_def split: if_splits)
  show "1400 / 15 \<le> simulated_led_photon_flux_lumen v" if "- 4.9 \<le> g"
    using that flux valve_flux_marks(2) valve_flux_mono [of "3.9" "g + 8.8"] by auto
  show "simulated_led_photon_flux_lumen v < 1400 / 15" if "g \<le> - 5"
    using that flux valve_flux_marks(1) valve_flux_mono [of "g + 8.8" "3.8"] by auto
  have "valve_saturation_fault v \<longleftrightarrow> 42.2 < g"
    using v by (auto simp: led_vacuum_transfer_step_def Let_def field_simps split: if_splits)
  with l' show "l' = (if 42.2 < g then cap_rpm 200 l else l)" by simp
qed

text \<open>With the optic blocks in the loop the rudder would never exceed 15 degrees. They always
  return; the spectrum alert, which limits the rudder order to 15 degrees either way, is raised for every
  grid voltage from -4.9 V up and for none below -5 V; the shaft is capped at 200 rpm above 42.2 V only; the
  torque is left alone. And since no sensor reports the grid voltage the blocks see 0 V: on every
  telemetry the router can hand out the alert is up and the shaft cap unused.
\<close>

theorem rudder_always_limited:
  "\<exists>p l'. optic_blocks now l = Some (p, l')
    \<and> (let g = dget (live_telemetry l) ''joystick_analog_voltage_v'' 0; c = actuator_commands l; c' = actuator_commands l' in
        (- 4.9 \<le> g \<longrightarrow> signal_saturation_alert p \<and> command_rudder_angle_deg c' = clamp (- 15) 15 (command_rudder_angle_deg c))
        \<and> (g \<le> - 5 \<longrightarrow> \<not> signal_saturation_alert p \<and> command_rudder_angle_deg c' = command_rudder_angle_deg c)
        \<and> active_rpm_cap c' = (if 42.2 < g then min (active_rpm_cap c) 200 else active_rpm_cap c)
        \<and> command_motor_torque_nm c' = command_motor_torque_nm c
        \<and> (live_telemetry l = readings (get_synchronized_telemetry (router_run (router_init code) es)) \<longrightarrow>
             \<bar>command_rudder_angle_deg c'\<bar> \<le> 15 \<and> active_rpm_cap c' = active_rpm_cap c))"
proof -
  let ?g = "dget (live_telemetry l) ''joystick_analog_voltage_v'' 0"
  obtain v l1 where valve: "valve_block now l = Some (v, l1)"
    using led_vacuum_transfer_step_total [of now ?g] by (fastforce simp: valve_block_def)
  obtain p l' where p: "spectrum_block now v l1 = (p, l')" by (metis prod.exhaust_sel)
  then have run: "optic_blocks now l = Some (p, l')" by (simp add: optic_blocks_def valve)
  note marks = valve_alert [OF valve]
  have alert: "signal_saturation_alert p \<longleftrightarrow> 1400 / 15 \<le> simulated_led_photon_flux_lumen v"
    and l': "l' = (if signal_saturation_alert p then cap_rudder 15 l1 else l1)"
    using p by (auto simp: spectrum_block_def spectrum_alert Let_def split: if_splits)
  have idle: "?g = 0" if "live_telemetry l = readings (get_synchronized_telemetry (router_run (router_init code) es))"
    using router_reading [of "''joystick_analog_voltage_v''" code es] that by (simp add: dget_def sensor_keys_def)
  have one: "command_rudder_angle_deg (actuator_commands l1) = command_rudder_angle_deg (actuator_commands l)"
    "command_motor_torque_nm (actuator_commands l1) = command_motor_torque_nm (actuator_commands l)"
    "active_rpm_cap (actuator_commands l1) = (if 42.2 < ?g then min (active_rpm_cap (actuator_commands l)) 200 else active_rpm_cap (actuator_commands l))"
    using marks(3) by (simp_all add: cap_rpm_commands)
  have two: "command_rudder_angle_deg (actuator_commands l') = (if signal_saturation_alert p
      then clamp (- 15) 15 (command_rudder_angle_deg (actuator_commands l1)) else command_rudder_angle_deg (actuator_commands l1))"
    "command_motor_torque_nm (actuator_commands l') = command_motor_torque_nm (actuator_commands l1)"
    "active_rpm_cap (actuator_commands l') = active_rpm_cap (actuator_commands l1)"
    using l' by (simp_all add: cap_rudder_def)
  have "\<bar>clamp (- 15) 15 (x::real)\<bar> \<le> 15" for x by (auto simp: clamp_def min_def max_def)
  then show ?thesis
    using run one two alert marks(1,2) idle by (intro exI [of _ p] exI [of _ l']) (auto simp: Let_def)
qed

theorem rudder_always_limited_witness:
  "\<exists>p l'. optic_blocks 0 (unbound_locals\<lparr>live_telemetry := [''joystick_analog_voltage_v'' \<mapsto> - 6],
      actuator_commands := (actuator_commands unbound_locals)\<lparr>command_rudder_angle_deg := 30\<rparr>\<rparr>) = Some (p, l')
    \<and> command_rudder_angle_deg (actuator_commands l') = 30"
  using rudder_always_limited [where now = 0 and code = "[]" and es = "[]" and l = "unbound_locals\<lparr>live_telemetry := [''joystick_analog_voltage_v'' \<mapsto> - 6],
      actuator_commands := (actuator_commands unbound_locals)\<lparr>command_rudder_angle_deg := 30\<rparr>\<rparr>"]
  by (elim exE conjE) (intro exI conjI, assumption, simp add: dget_def Let_def)

section \<open>The rudder on the native bus\<close>

lemma boot_hal: "boot_hal = ''AN/UYK-43''"
  by (simp add: boot_hal_def clear_interlocks_for_model_def model_registry_def py_upper_def py_strip_def is_space_def upper_char_def)

lemma native_bytes_32:
  "\<exists>bytes. unpack_64bit_to_native_bytes boot_hal w = Some (bytes, ''NTDS_SERIAL_E'') \<and> length bytes = 4
     \<and> from_bytes bytes = take_bit 32 w"
proof -
  let ?w = "take_bit 32 w"
  have word: "w AND 0xFFFFFFFF = ?w" by (simp add: take_bit_eq_mask mask_eq_exp_minus_1)
  have fits: "0 \<le> ?w" "?w < 256 ^ 4" using take_bit_int_less_exp [of 32 w] by simp_all
  then show ?thesis
    using from_to_bytes [OF fits] by (simp add: boot_hal unpack_64bit_to_native_bytes_def model_registry_def word to_bytes_big_def)
qed

lemma py_int_near: "\<bar>x - of_int (py_int x)\<bar> < 1" "\<bar>of_int (py_int x)\<bar> \<le> \<bar>x\<bar>"
  by (auto simp: py_int_def; linarith)+

text \<open>Property C33. The rudder order survives the 32-bit bus. For every order the word can hold, the layer set up at
  boot sends four bytes that read back, as a big-endian two's complement number, to the order in
  hundredths of a degree, cut towards zero: the receiver is within one hundredth of a degree of the
  command and never beyond it, to port as to starboard.
\<close>

theorem native_rudder_roundtrip:
  assumes "\<bar>command_rudder_angle_deg (actuator_commands l)\<bar> \<le> 21474836"
  shows "\<exists>bytes. native_rudder_order boot_hal l = Some (bytes, ''NTDS_SERIAL_E'') \<and> length bytes = 4
    \<and> (let received = of_int (signed_take_bit 31 (from_bytes bytes)) / 100; sent = command_rudder_angle_deg (actuator_commands l)
       in signed_take_bit 31 (from_bytes bytes) = target_rudder_integer l
          \<and> \<bar>sent - received\<bar> < 1 / 100 \<and> \<bar>received\<bar> \<le> \<bar>sent\<bar>)"
proof -
  let ?a = "command_rudder_angle_deg (actuator_commands l)" and ?k = "target_rudder_integer l"
  note near = py_int_near [of "?a * 100", folded target_rudder_integer_def]
  have "\<bar>of_int ?k\<bar> \<le> (2147483600 :: real)" using near(2) assms by (simp add: abs_mult)
  then have "\<bar>?k\<bar> \<le> 2147483600" by linarith
  then have signed: "signed_take_bit 31 (take_bit 32 ?k) = ?k"
    by (simp add: signed_take_bit_take_bit) (rule signed_take_bit_int_eq_self; simp)
  have "\<bar>x - k / 100\<bar> < 1 / 100" if "\<bar>x * 100 - k\<bar> < 1" for x k :: real using that unfolding abs_less_iff by linarith
  from this [OF near(1)] have "\<bar>?a - of_int ?k / 100\<bar> < 1 / 100" .
  moreover have "\<bar>of_int ?k / 100\<bar> \<le> \<bar>?a\<bar>" using near(2) by (simp add: abs_mult)
  ultimately show ?thesis using signed native_bytes_32 [of ?k] by (auto simp: native_rudder_order_def Let_def)
qed

theorem native_rudder_roundtrip_witness:
  "\<exists>bytes. native_rudder_order boot_hal (unbound_locals\<lparr>actuator_commands := (actuator_commands unbound_locals)\<lparr>command_rudder_angle_deg := - 35\<rparr>\<rparr>)
     = Some (bytes, ''NTDS_SERIAL_E'') \<and> signed_take_bit 31 (from_bytes bytes) = - 3500"
proof -
  let ?l = "unbound_locals\<lparr>actuator_commands := (actuator_commands unbound_locals)\<lparr>command_rudder_angle_deg := - 35\<rparr>\<rparr>"
  have "target_rudder_integer ?l = - 3500" by (simp add: target_rudder_integer_def py_int_def)
  with native_rudder_roundtrip [of ?l] show ?thesis by (auto simp: Let_def)
qed

lemma default_bus_word: "sanitized_bus_word boot_hal None = Some 0"
  by (simp add: sanitized_bus_word_def boot_hal pack_native_word_to_64bit_def model_registry_def py_int16_def py_strip_def is_space_def
      is_hex_def is_digit_def hex_val_def split_sign_def)

lemma default_handshake: "computed_alignment_mac (boot_handshake None now) = ''00:01:4A:00:00:05''"
proof -
  have "py_strip (py_upper ''EARLY_AEGIS_DESTROYER'') = ''EARLY_AEGIS_DESTROYER''"
    by (simp add: py_upper_def py_strip_def is_space_def upper_char_def)
  then show ?thesis
    by (simp add: boot_handshake_def compute_lowest_possible_handshake_mac_def vessel_oui_catalog_def dget_def latch_octet_cases
        fmt_02X_byte hex_digit_def Let_def)
qed

section \<open>The cognitive register\<close>

text \<open>The registers the two bodies can leave, over telemetry the router handed out.\<close>

inductive worker_register :: "num_dict \<Rightarrow> register \<Rightarrow> bool" for vessel_profile where
  Start: "worker_register vessel_profile []"
| Resonance: "worker_register vessel_profile out \<Longrightarrow>
    worker_register vessel_profile
      (resonance_turn vessel_profile now (readings (get_synchronized_telemetry (router_run (router_init code) es))) out)"
| Ring: "ring_turn w x targets word (readings (get_synchronized_telemetry (router_run (router_init code) es))) now = (y, Inr (cmds, out)) \<Longrightarrow>
    worker_register vessel_profile out"

lemma pi_ge_three: "3 \<le> pi"
  using sin_x_le_x [of "pi / 6"] by (simp add: sin_30)

lemma resonance_low:
  assumes "80 < m"
  shows "equation_body_vibration_resonance 450000 m < 12.5"
proof -
  have "450000 / m < 75\<^sup>2" using assms by (simp add: field_simps)
  then have "sqrt (450000 / m) < sqrt (75\<^sup>2)" by (rule real_sqrt_less_mono)
  also have "\<dots> \<le> 25 * pi" using pi_ge_three by simp
  finally show ?thesis using assms by (simp add: equation_body_vibration_resonance_def field_simps)
qed

lemma router_roll_rate:
  "dget (readings (get_synchronized_telemetry (router_run (router_init code) es))) ''roll_rate_rads'' 0 = 0"
proof -
  have "telemetry_cache (r_parser (router_run (router_init code) es)) ''roll_rate_rads'' = Some (Fin 0)"
  proof (induction es rule: rev_induct)
    case Nil
    then show ?case by (simp add: router_run_def router_init_def nmea_parser_init_def)
  qed (simp add: router_run_def router_keeps)
  moreover have "own_cache (router_run (router_init code) es) ''roll_rate_rads'' = None"
    using cache_shape_run [of code es] by (auto simp: cache_shape_def feedback_keys_def)
  ultimately show ?thesis
    by (simp add: dget_def readings_def get_synchronized_telemetry_def live_telemetry_cache_def)
qed

lemma resonance_turn_entries:
  "dget (map_of (resonance_turn vp now tele out)) ''deck_vibration_hz'' d =
     equation_body_vibration_resonance (dget tele ''structural_stiffness_nm'' 450000) (dget vp ''displacement_tonnes'' 4500 * 0.1)"
  "dget (map_of (resonance_turn vp now tele out)) ''hydraulic_dampening_command_n'' d =
     equation_adaptive_frequency_cancellation (dget tele ''roll_rate_rads'' 0 * 0.05) 0.24
       (equation_body_vibration_resonance (dget tele ''structural_stiffness_nm'' 450000) (dget vp ''displacement_tonnes'' 4500 * 0.1)) now"
  "dget (map_of (resonance_turn vp now tele out)) ''legal_boundary_alert_active'' d = dget (map_of out) ''legal_boundary_alert_active'' d"
  by (simp_all add: resonance_turn_def Let_def update_conv' dget_def)

text \<open>Property C35. The cognitive worker could never restrain the ship. Whichever of its two bodies runs, in any
  alternation and over any history of the sensors, a hull of more than 800 tonnes keeps the shaft cap it
  has: the register never reports 12.5 Hz and never a legal boundary, so neither cap engages, and
  the hydraulic counter force it publishes is always zero, since no sensor reports a roll rate, a
  stiffness or a latitude in degrees.
\<close>

theorem cognitive_worker_restrains_nothing:
  assumes "worker_register vessel_profile out" and "800 < dget vessel_profile ''displacement_tonnes'' 4500"
    and "cog_update i \<in> {None, Some out}" and "latest_cognitive_output s = out"
  shows "dget (map_of out) ''deck_vibration_hz'' 0 < 12.5 \<and> dget (map_of out) ''hydraulic_dampening_command_n'' 0 = 0
    \<and> actuator_commands (snd (fst (vibration_stage (s, l)))) = actuator_commands l
    \<and> actuator_commands (snd (fst (legal_stage i (s, l)))) = actuator_commands l"
proof -
  have "dget (map_of out) ''deck_vibration_hz'' 0 < 12.5 \<and> dget (map_of out) ''hydraulic_dampening_command_n'' 0 = 0
    \<and> \<not> dflag (map_of out) ''legal_boundary_alert_active''"
    using assms(1)
  proof induction
    case Start
    then show ?case by (simp add: dget_def dflag_def)
  next
    case (Resonance out now code es)
    let ?tele = "readings (get_synchronized_telemetry (router_run (router_init code) es))"
    have "dget ?tele ''structural_stiffness_nm'' 450000 = 450000"
      using router_reading [of "''structural_stiffness_nm''" code es] by (simp add: dget_def sensor_keys_def)
    with Resonance.IH router_roll_rate [of code es] resonance_low [of "dget vessel_profile ''displacement_tonnes'' 4500 * 0.1"] assms(2)
    show ?case by (simp add: resonance_turn_entries dflag_def equation_adaptive_frequency_cancellation_def)
  next
    case (Ring w x targets word code es now y cmds out)
    then have out: "out = cognitive_dict (process_cognitive_step (readings (get_synchronized_telemetry (router_run (router_init code) es))))"
      by (auto simp: ring_turn_def Let_def split: prod.splits option.splits if_splits)
    have "dget (readings (get_synchronized_telemetry (router_run (router_init code) es))) ''latitude_decimal'' 0 = 0"
      using router_reading [of "''latitude_decimal''" code es] by (simp add: dget_def sensor_keys_def)
    then show ?case by (simp add: out cognitive_dict_def process_cognitive_step_def dget_def dflag_def truth_def)
  qed
  with assms(3,4) show ?thesis by (auto simp: vibration_stage_def legal_stage_def Let_def)
qed

theorem cognitive_worker_restrains_nothing_witness:
  "dget (map_of (resonance_turn Map.empty 7 (readings (get_synchronized_telemetry (router_run (router_init ''UNVC'') []))) []))
     ''deck_vibration_hz'' 0 < 12.5"
proof -
  let ?out = "resonance_turn Map.empty 7 (readings (get_synchronized_telemetry (router_run (router_init ''UNVC'') []))) []"
  have "worker_register Map.empty ?out" by (rule worker_register.intros)+
  moreover have "800 < dget Map.empty ''displacement_tonnes'' (4500::real)" by (simp add: dget_def)
  moreover have "cog_update bench_input \<in> {None, Some ?out}" by (simp add: bench_input_def)
  ultimately show ?thesis
    using cognitive_worker_restrains_nothing [of Map.empty ?out bench_input "bench_core\<lparr>latest_cognitive_output := ?out\<rparr>"] by simp
qed

section \<open>Drag and tide\<close>

lemma ln_growth: "2 \<le> ln (13.4 :: real)"
proof -
  have "exp (1::real) \<le> 3" by (rule exp_le)
  then have "exp 1 * exp 1 \<le> (3::real) * 3" by (intro mult_mono) simp_all
  then have "exp (2::real) \<le> 13.4" by (simp add: exp_add [symmetric])
  then show ?thesis by (subst ln_ge_iff) simp_all
qed

lemma coral_growth:
  assumes "0.002 \<le> v"
  shows "\<exists>z. equation_coral_drag_amplification 0.0045 12.4 v = Some z \<and> 0.0085 < z"
proof -
  have "0.041 \<le> sqrt v" using assms by (intro real_le_rsqrt) (simp add: power2_eq_square)
  then have "2 * 0.041 \<le> ln 13.4 * sqrt v" using ln_growth by (intro mult_mono) simp_all
  moreover have "v powr 0.5 = sqrt v" using assms powr_half_sqrt [of v] by simp
  ultimately have "0.082 \<le> ln 13.4 * (v powr 0.5)" by simp
  moreover have "equation_coral_drag_amplification 0.0045 12.4 v = Some (0.0045 + 0.05 * (ln 13.4 * (v powr 0.5)))"
    using assms by (simp add: equation_coral_drag_amplification_def)
  moreover have "0.0085 < 0.0045 + 0.05 * x" if "0.082 \<le> x" for x :: real using that by simp
  ultimately show ?thesis by blast
qed

lemma coral_rest: "equation_coral_drag_amplification 0.0045 12.4 0 = Some 0.0045"
  by (simp add: equation_coral_drag_amplification_def)

lemma coral_sternway: "v < 0 \<Longrightarrow> equation_coral_drag_amplification 0.0045 12.4 v = None"
  by (simp add: equation_coral_drag_amplification_def py_pow_def)

lemma cos_ge_parabola: "1 - x\<^sup>2 / 2 \<le> cos (x::real)"
proof -
  have "(sin (x / 2))\<^sup>2 \<le> (x / 2)\<^sup>2" using abs_sin_x_le_abs_x [of "x / 2"] by (simp only: abs_le_square_iff)
  then show ?thesis using cos_double_sin [of "x / 2"] by (simp add: power_divide)
qed

lemma cos_near_one:
  assumes "0 \<le> z" "z \<le> 1 / 90"
  shows "0.999 \<le> cos (z::real)"
proof -
  have "z\<^sup>2 \<le> (1 / 90)\<^sup>2" using assms by (rule power_mono [rotated])
  then have "z\<^sup>2 \<le> 1 / 8100" by (simp add: power2_eq_square)
  with cos_ge_parabola [of z] have "999 / 1000 \<le> cos z" by linarith
  then show ?thesis by simp
qed

text \<open>The tide of the first minute of a voyage is its crest.\<close>

lemma tide_at_start:
  assumes "0 \<le> t" "t \<le> 1 / 60"
  shows "1.84 \<le> equation_ocean_harmonic_tide t 1.4 0.45" "equation_ocean_harmonic_tide t 1.4 0.45 \<le> 1.85"
proof -
  have wave: "0.999 \<le> cos (2 * pi / p * t)" if "12 \<le> p" for p :: real
  proof -
    have "2 * pi / p * t \<le> (8 / 12) * (1 / 60)"
      using assms that pi_less_4 by (intro mult_mono frac_le) simp_all
    then show ?thesis using assms(1) that by (intro cos_near_one) simp_all
  qed
  have tide: "equation_ocean_harmonic_tide t 1.4 0.45 = 1.4 * cos (2 * pi / 12.42 * t) + 0.45 * cos (2 * pi / 12 * t)"
    by (simp add: equation_ocean_harmonic_tide_def)
  have "(1.84 :: real) \<le> 1.4 * 0.999 + 0.45 * 0.999" by simp
  also have "\<dots> \<le> equation_ocean_harmonic_tide t 1.4 0.45" unfolding tide by (intro add_mono mult_left_mono wave; simp)
  finally show "1.84 \<le> equation_ocean_harmonic_tide t 1.4 0.45" .
  have "equation_ocean_harmonic_tide t 1.4 0.45 \<le> 1.4 * 1 + 0.45 * 1" unfolding tide by (intro add_mono mult_left_mono cos_le_one; simp)
  also have "\<dots> = 1.85" by simp
  finally show "equation_ocean_harmonic_tide t 1.4 0.45 \<le> 1.85" .
qed

text \<open>As shipped neither block returns. Bound to the formulas of the museum catalogue they would
  distort the ship: the biofouling cap of 450 rpm is in force at every speed of at least two
  millimetres per second and never at rest, and sternway raises; and since the voyage time is taken
  from the start of the turn, every turn of less than a minute adds the crest of the tide, 1.84 to
  1.85 metres, to the depth that was sounded, which already contains the tide.
\<close>

theorem gate_blocks_distort:
  assumes "live_telemetry l ''depth'' = Some d" and "0 \<le> now - start" "now - start \<le> 60"
  defines "speed \<equiv> dget (live_telemetry l) ''speed_ms'' 0"
  shows "tricks_block None l = None \<and> tide_block None now start l = None
    \<and> (0.002 \<le> speed \<longrightarrow> (\<exists>m. tricks_block (Some museum_gate) l = Some (m, cap_rpm 450 l)))
    \<and> (speed = 0 \<longrightarrow> (\<exists>m. tricks_block (Some museum_gate) l = Some (m, l)))
    \<and> (speed < 0 \<longrightarrow> tricks_block (Some museum_gate) l = None)
    \<and> (\<exists>m l' d'. tide_block (Some museum_gate) now start l = Some (m, l') \<and> live_telemetry l' ''depth'' = Some d'
         \<and> d + 1.84 \<le> d' \<and> d' \<le> d + 1.85)"
proof (intro conjI impI)
  show "tricks_block None l = None" "tide_block None now start l = None" by (simp_all add: tricks_block_def tide_block_def)
  let ?drag = "equation_coral_drag_amplification 0.0045 12.4 speed"
  have tricks: "\<exists>m. tricks_block (Some museum_gate) l = map_option (\<lambda>d. (m, if 0.0085 < d then cap_rpm 450 l else l)) ?drag"
    by (cases ?drag) (simp_all add: tricks_block_def museum_gate_def speed_def)
  show "\<exists>m. tricks_block (Some museum_gate) l = Some (m, cap_rpm 450 l)" if "0.002 \<le> speed"
    using tricks coral_growth [OF that] by auto
  show "\<exists>m. tricks_block (Some museum_gate) l = Some (m, l)" if "speed = 0"
    using tricks that coral_rest by auto
  show "tricks_block (Some museum_gate) l = None" if "speed < 0"
    using tricks coral_sternway [OF that] by auto
  obtain p where "equation_titanium_hull_collapse 850000000 2.1 1.95 = Some p"
    using hull_collapse_bounds [of "1.95" "2.1" 850000000] by auto
  moreover have "0 \<le> (now - start) / 3600" "(now - start) / 3600 \<le> 1 / 60" using assms(2,3) by simp_all
  note tide_at_start [OF this]
  ultimately show "\<exists>m l' d'. tide_block (Some museum_gate) now start l = Some (m, l') \<and> live_telemetry l' ''depth'' = Some d'
      \<and> d + 1.84 \<le> d' \<and> d' \<le> d + 1.85"
    using assms(1) by (simp add: tide_block_def museum_gate_def)
qed

theorem gate_blocks_distort_witness:
  "\<exists>m l' d'. tide_block (Some museum_gate) 7 7 (unbound_locals\<lparr>live_telemetry := [''depth'' \<mapsto> 9]\<rparr>) = Some (m, l')
     \<and> live_telemetry l' ''depth'' = Some d' \<and> 10.84 \<le> d' \<and> d' \<le> 10.85"
  using gate_blocks_distort [of "unbound_locals\<lparr>live_telemetry := [''depth'' \<mapsto> 9]\<rparr>" 9 7 7] by simp

end
