(* ===== verification/Main_Boot.thy ===== *)
theory Main_Boot
  imports Main_Watch Boot_Manifest
begin

text \<open>
  The bootstrap of \<open>main.py\<close> as a sequence, from the boot suite over the configuration loader to the objects
  of the loop, and what the checks of the loader mean for the orders the loop sends. Values of the profile
  that are no finite numbers, which the loader lets through on unchecked keys, count as missing.
\<close>

section \<open>The boot sequence\<close>

datatype boot_end = Raised string | Exited | Running bridge_core

definition boot_error_text :: "boot_error \<Rightarrow> string" where
  "boot_error_text e = (case e of Attribute_Error a \<Rightarrow> ''AttributeError'' | Assertion_Error n \<Rightarrow> ''AssertionError'')"

text \<open>The first argument is what constructing the suite raises, if anything.\<close>

definition boot_sequence :: "boot_error option \<Rightarrow> (string \<Rightarrow> string) \<Rightarrow> (string list \<times> (string \<Rightarrow> log_file)) option
    \<Rightarrow> bool \<Rightarrow> config_file \<Rightarrow> real \<Rightarrow> file_system \<Rightarrow> bool \<Rightarrow> boot_end" where
  "boot_sequence suite sha256 log_dir writable config now fs ports =
     (case suite of
        Some e \<Rightarrow> Raised (boot_error_text e)
      | None \<Rightarrow>
          if \<not> execute_full_suite sha256 log_dir then Exited
          else (case fst (load_system_specifications writable config) of
              Exn e \<Rightarrow> Raised e
            | Ret vessel_profile \<Rightarrow>
                (case bootstrap_core (readings (map_of vessel_profile)) now fs ports of
                   None \<Rightarrow> Raised ''KeyError''
                 | Some s \<Rightarrow> Running s)))"

section \<open>Limits of the engine over a watch\<close>

definition engine_limits :: "real \<Rightarrow> real \<Rightarrow> bridge_core \<Rightarrow> bool" where
  "engine_limits m k s \<longleftrightarrow> engine_max_torque (engine s) = m \<and> max_rudder_deg (engine s) = k"

lemma stage_limits: "f \<in> set (main_stages w i) \<Longrightarrow> engine_limits m k (fst x) \<Longrightarrow> engine_limits m k (fst (fst (f x)))"
  by (cases x)
    (auto simp: main_stages_def engine_limits_def ingest_stage_def coupling_stage_def engine_stage_def anchor_stage_def vibration_stage_def
      legal_stage_def poke_def bilge_stage_def flag_stage_def stabilizer_stage_def shore_stage_def compliance_stage_def dispatch_stage_def
      Let_def case_prod_beta split: option.split)

lemma main_cycle_limits: "engine_limits m k s \<Longrightarrow> engine_limits m k (fst (main_cycle w i s))"
  using run_stages_keeps [of "main_stages w i" "\<lambda>x. engine_limits m k (fst x)" "(s, unbound_locals)"] stage_limits [of _ w i]
  by (simp add: main_cycle_def Let_def case_prod_beta)

lemma worker_engine [simp]: "engine (serial_tx_worker b s) = engine s"
  by (simp add: serial_tx_worker_def split: list.split)

lemma main_step_limits: "engine_limits m k (fst x) \<Longrightarrow> engine_limits m k (fst (main_step w x ev))"
  using main_cycle_limits [of m k "fst x" w]
  by (cases "(w, x, ev)" rule: main_step.cases) (auto simp: engine_limits_def case_prod_beta)

lemma main_run_limits: "engine_limits m k s0 \<Longrightarrow> engine_limits m k (fst (main_run w s0 es))"
  by (induction es rule: rev_induct) (simp_all add: main_step_limits)

lemma booted_limits:
  assumes "boot_sequence None sha256 log_dir writable config now fs ports = Running s0"
  obtains p m k where "fst (load_system_specifications writable config) = Ret p" "engine_limits m k s0"
    "map_of p ''max_torque'' = Some (Fin m)" "100 \<le> m" "m \<le> 500000"
    "map_of p ''max_rudder_deg'' = Some (Fin k)" "5 \<le> k" "k \<le> 70"
proof -
  obtain p where p: "fst (load_system_specifications writable config) = Ret p"
    "bootstrap_core (readings (map_of p)) now fs ports = Some s0"
    using assms by (auto simp: boot_sequence_def split: if_splits outcome.splits option.splits)
  then have "in_bounds p" using loader_in_bounds [of writable config p] by (metis prod.collapse)
  then obtain m k where mk: "map_of p ''max_torque'' = Some (Fin m)" "100 \<le> m" "m \<le> 500000"
    "map_of p ''max_rudder_deg'' = Some (Fin k)" "5 \<le> k" "k \<le> 70"
    by (auto simp: in_bounds_def range_checks_def)
  have "engine s0 = bridge_engine_init (readings (map_of p))"
    using p(2) by (auto simp: bootstrap_core_def split: if_splits option.splits)
  then have "engine_limits m k s0" using mk by (simp add: engine_limits_def bridge_engine_init_def readings_def dget_def)
  with p(1) mk show thesis by (intro that)
qed

lemma turn_orders:
  assumes "main_cycle w i s = (s', l, None)"
  shows "\<exists>t tele tele' cmds. execute_bridge_loop (engine_parts w) (engine s) t tele (1 / 50) = (engine s', tele', cmds)
    \<and> dget (latest_engine_commands (net s')) ''command_motor_torque_nm'' 0 = (if l_faulted (ledger_guard s) then 0 else command_motor_torque_nm cmds)
    \<and> dget (latest_engine_commands (net s')) ''command_rudder_angle_deg'' 0 = command_rudder_angle_deg cmds"
  by (rule completed_turn [OF assms])
     (rule exI, rule exI, rule exI, rule exI, rule conjI, assumption, simp add: command_dict_def dget_def cap_rpm_commands)

text \<open>Property C5. The checks of the configuration loader reach the actuators. Whatever the configuration file holds, on
  a ship that booted every turn that completes, after any history of sensors, operators, feedback, ledgers
  and earlier turns, leaves with the router a motor torque within the profile's limit, so within 500 kNm,
  and a rudder angle within the profile's stop, so within 70 degrees. As shipped no ship boots: whatever
  attributes the boot suite has, constructing it raises.
\<close>

theorem booted_ship_orders_bounded:
  assumes "boot_sequence None sha256 log_dir writable config now fs ports = Running s0"
    and "main_run w s0 es = (s, None)" and "main_cycle w i s = (s', l, None)"
  shows "(\<exists>p m k. fst (load_system_specifications writable config) = Ret p
      \<and> map_of p ''max_torque'' = Some (Fin m) \<and> m \<le> 500000 \<and> map_of p ''max_rudder_deg'' = Some (Fin k) \<and> k \<le> 70
      \<and> \<bar>dget (latest_engine_commands (net s')) ''command_motor_torque_nm'' 0\<bar> \<le> py_round 1 m
      \<and> \<bar>dget (latest_engine_commands (net s')) ''command_rudder_angle_deg'' 0\<bar> \<le> py_round 2 k)
    \<and> \<bar>dget (latest_engine_commands (net s')) ''command_motor_torque_nm'' 0\<bar> \<le> 500000
    \<and> \<bar>dget (latest_engine_commands (net s')) ''command_rudder_angle_deg'' 0\<bar> \<le> 70
    \<and> (\<exists>e. boot_sequence (boot_suite_init attrs) sha256 log_dir writable config now fs ports = Raised e)"
proof -
  obtain p m k where p: "fst (load_system_specifications writable config) = Ret p" "engine_limits m k s0"
    "map_of p ''max_torque'' = Some (Fin m)" "100 \<le> m" "m \<le> 500000"
    "map_of p ''max_rudder_deg'' = Some (Fin k)" "5 \<le> k" "k \<le> 70" using booted_limits [OF assms(1)] by blast
  have s: "engine_max_torque (engine s) = m" "max_rudder_deg (engine s) = k"
    using main_run_limits [OF p(2), of w es] assms(2) by (simp_all add: engine_limits_def)
  obtain t tele tele' cmds where turn: "execute_bridge_loop (engine_parts w) (engine s) t tele (1 / 50) = (engine s', tele', cmds)"
    "dget (latest_engine_commands (net s')) ''command_motor_torque_nm'' 0 = (if l_faulted (ledger_guard s) then 0 else command_motor_torque_nm cmds)"
    "dget (latest_engine_commands (net s')) ''command_rudder_angle_deg'' 0 = command_rudder_angle_deg cmds"
    using turn_orders [OF assms(3)] by blast
  have "\<bar>command_motor_torque_nm cmds\<bar> \<le> py_round 1 m" "\<bar>command_rudder_angle_deg cmds\<bar> \<le> py_round 2 k"
    using loop_torque [of "engine s" "engine_parts w" t tele "1 / 50"] loop_rudder_stop [of "engine s" "engine_parts w" t tele "1 / 50"]
      s p(4,7) turn(1) by simp_all
  moreover have "0 \<le> py_round 1 m" using p(4) by (simp add: py_round_nonneg)
  ultimately have bounds: "\<bar>dget (latest_engine_commands (net s')) ''command_motor_torque_nm'' 0\<bar> \<le> py_round 1 m"
    "\<bar>dget (latest_engine_commands (net s')) ''command_rudder_angle_deg'' 0\<bar> \<le> py_round 2 k"
    using turn(2,3) by simp_all
  have "py_round 1 m \<le> 500000" "py_round 2 k \<le> 70"
    using p(5,8) py_round_le [of m 500000 1 5000000] py_round_le [of k 70 2 7000] by simp_all
  with bounds have "\<bar>dget (latest_engine_commands (net s')) ''command_motor_torque_nm'' 0\<bar> \<le> 500000"
    "\<bar>dget (latest_engine_commands (net s')) ''command_rudder_angle_deg'' 0\<bar> \<le> 70" by linarith+
  moreover have "\<exists>e. boot_sequence (boot_suite_init attrs) sha256 log_dir writable config now fs ports = Raised e"
    using boot_suite_never_constructed [of attrs] by (auto simp: boot_sequence_def)
  ultimately show ?thesis using p bounds by blast
qed

theorem booted_ship_orders_bounded_witness:
  "\<exists>s s' l. main_run bench_wiring bench_core [Net (Serial_Line [] 0), Cog_Write []] = (s, None)
     \<and> main_cycle bench_wiring bench_input s = (s', l, None)
     \<and> \<bar>dget (latest_engine_commands (net s')) ''command_rudder_angle_deg'' 0\<bar> \<le> 70"
proof -
  have boot: "boot_sequence None id None False Missing 0 Map.empty True = Running bench_core"
    by (simp add: boot_sequence_def execute_full_suite_def verify_cryptographic_ledger_integrity_def load_system_specifications_def fallback_boots)
  obtain s s' l where turn: "main_run bench_wiring bench_core [Net (Serial_Line [] 0), Cog_Write []] = (s, None)"
    "main_cycle bench_wiring bench_input s = (s', l, None)" using bench_turn by blast
  from booted_ship_orders_bounded [OF boot turn] turn show ?thesis by blast
qed

end
