(* ===== verification/Pacing.thy ===== *)
theory Pacing
  imports Watchdogs
begin

text \<open>
  The timing of the background loops. Two idioms pace them: the monitors of the watchdogs and the
  cognitive worker do their work and then sleep a fixed pause; the main loop, the UDP transmitter and
  the tracking workers of the consoles sleep what is left of their interval, and not at all after an
  overrun. \<open>e k\<close> is how long the work of round \<open>k\<close> takes; sleeping is taken to be exact. From
  this follow how soon a frozen thread is noticed and how many rounds a span of time can hold.
\<close>

section \<open>Rounds\<close>

text \<open>When the next round starts, for a round that starts at \<open>t\<close> and works for \<open>e\<close>.\<close>

definition rest_pause :: "real \<Rightarrow> real \<Rightarrow> real \<Rightarrow> real" where
  "rest_pause pause t e = t + e + pause"

definition hold_rate :: "real \<Rightarrow> real \<Rightarrow> real \<Rightarrow> real" where
  "hold_rate interval t elapsed =
     (let sleep_time = interval - elapsed
      in if sleep_time > 0 then t + elapsed + sleep_time else t + elapsed)"

primrec instants :: "(real \<Rightarrow> real \<Rightarrow> real) \<Rightarrow> real \<Rightarrow> (nat \<Rightarrow> real) \<Rightarrow> nat \<Rightarrow> real" where
  "instants advance t0 e 0 = t0"
| "instants advance t0 e (Suc k) = advance (instants advance t0 e k) (e k)"

text \<open>What every pacing idiom promises: a round takes at least \<open>lo\<close>, and at most its work longer.\<close>

locale pacer =
  fixes advance :: "real \<Rightarrow> real \<Rightarrow> real" and lo :: real
  assumes lo_pos: "0 < lo"
    and not_early: "0 \<le> w \<Longrightarrow> t + lo \<le> advance t w"
    and not_late: "0 \<le> w \<Longrightarrow> advance t w \<le> t + w + lo"
begin

lemma spread:
  assumes "\<forall>k. 0 \<le> e k" "i \<le> j"
  shows "instants advance t0 e i + real (j - i) * lo \<le> instants advance t0 e j"
  using assms(2)
proof (induction rule: dec_induct)
  case (step j)
  have "instants advance t0 e j + lo \<le> instants advance t0 e (Suc j)"
    using assms(1) not_early by simp
  moreover have "real (Suc j - i) * lo = real (j - i) * lo + lo"
    using step.hyps by (simp add: Suc_diff_le algebra_simps)
  ultimately show ?case using step.IH by linarith
qed simp

lemma ordered: "\<forall>k. 0 \<le> e k \<Longrightarrow> i \<le> j \<Longrightarrow> instants advance t0 e i \<le> instants advance t0 e j"
  using spread [of e i j t0] lo_pos by (smt (verit) mult_nonneg_nonneg of_nat_0_le_iff)

lemma strictly_ordered: "\<forall>k. 0 \<le> e k \<Longrightarrow> i < j \<Longrightarrow> instants advance t0 e i < instants advance t0 e j"
  using spread [of e i j t0] lo_pos by (smt (verit) mult_pos_pos of_nat_0_less_iff zero_less_diff less_imp_le)

text \<open>Some round starts soon after any moment, and the one before it did not.\<close>

lemma soon:
  assumes "\<forall>k. 0 \<le> e k \<and> e k \<le> d" "t0 \<le> x"
  obtains k where "x < instants advance t0 e (Suc k)" "instants advance t0 e (Suc k) \<le> x + d + lo" "instants advance t0 e k \<le> x"
proof -
  let ?c = "instants advance t0 e"
  have nonneg: "\<forall>k. 0 \<le> e k" using assms(1) by simp
  obtain n :: nat where "(x - t0) / lo < real n" using reals_Archimedean2 by blast
  then have "x < t0 + real n * lo" using lo_pos by (simp add: field_simps)
  also have "\<dots> \<le> ?c n" using spread [OF nonneg, of 0 n t0] by simp
  finally have beyond: "x < ?c n" .
  define m where "m = (LEAST n. x < ?c n)"
  have m: "x < ?c m" "\<And>j. j < m \<Longrightarrow> ?c j \<le> x"
    unfolding m_def using LeastI [of "\<lambda>n. x < ?c n", OF beyond] by (simp, meson not_less not_less_Least)
  then obtain k where k: "m = Suc k" using assms(2) by (cases m) auto
  have "?c (Suc k) \<le> ?c k + e k + lo" using nonneg not_late by simp
  then show ?thesis using that [of k] m k assms(1) by (smt (verit) lessI)
qed

text \<open>A span of time holds only so many rounds.\<close>

lemma few:
  assumes "\<forall>k. 0 \<le> e k" "finite K" "\<forall>k \<in> K. a \<le> instants advance t0 e k \<and> instants advance t0 e k \<le> a + T" "0 \<le> T"
  shows "real (card K) \<le> T / lo + 1"
proof (cases "K = {}")
  case False
  let ?c = "instants advance t0 e" and ?m = "Min K" and ?M = "Max K"
  have ends: "?m \<in> K" "?M \<in> K" "?m \<le> ?M" using False assms(2) by auto
  have "K \<subseteq> {?m..?M}" using assms(2) by auto
  then have "card K \<le> Suc ?M - ?m" using card_mono [of "{?m..?M}" K] by simp
  then have "real (card K) \<le> real (?M - ?m) + 1" using ends(3) by linarith
  moreover have "?c ?m + real (?M - ?m) * lo \<le> ?c ?M" by (rule spread [OF assms(1) ends(3)])
  moreover have "a \<le> ?c ?m" "?c ?M \<le> a + T" using ends assms(3) by blast+
  ultimately show ?thesis using lo_pos by (smt (verit) pos_le_divide_eq)
qed (use assms(4) lo_pos in simp)

end

lemma hold_rate_eq: "hold_rate interval t elapsed = t + max interval elapsed"
  by (simp add: hold_rate_def Let_def)

text \<open>The monitors rest a tenth of a second, the cognitive worker a twentieth; the main loop and the
  transmitter run at 50 Hz, the trackers of the consoles at 100 Hz.\<close>

interpretation monitor: pacer "rest_pause (1 / 10)" "1 / 10"
  by unfold_locales (simp_all add: rest_pause_def)

interpretation cognition: pacer "rest_pause (1 / 20)" "1 / 20"
  by unfold_locales (simp_all add: rest_pause_def)

interpretation frames: pacer "hold_rate (1 / 50)" "1 / 50"
  by unfold_locales (auto simp: hold_rate_eq)

interpretation tracking: pacer "hold_rate (1 / 100)" "1 / 100"
  by unfold_locales (auto simp: hold_rate_eq)

section \<open>The clocked watchdog\<close>

text \<open>
  What the thread watchdog has seen when its \<open>k\<close>-th check begins: the pokes \<open>ps\<close> (thread and time,
  in the order of time) up to then, with the earlier checks at their instants \<open>c\<close> between them.
\<close>

definition pokes_between :: "real \<Rightarrow> real \<Rightarrow> (string \<times> real) list \<Rightarrow> watch_event list" where
  "pokes_between a b ps = map (\<lambda>(n, t). Poke n t) (filter (\<lambda>p. a \<le> snd p \<and> snd p < b) ps)"

primrec watched :: "(string \<times> real) list \<Rightarrow> real \<Rightarrow> (nat \<Rightarrow> real) \<Rightarrow> nat \<Rightarrow> watch_event list" where
  "watched ps t0 c 0 = pokes_between t0 (c 0) ps"
| "watched ps t0 c (Suc k) = watched ps t0 c k @ Check (c k) # pokes_between (c k) (c (Suc k)) ps"

text \<open>The threads the \<open>k\<close>-th check trips.\<close>

definition trips :: "real \<Rightarrow> real \<Rightarrow> (string \<times> real) list \<Rightarrow> (nat \<Rightarrow> real) \<Rightarrow> nat \<Rightarrow> string list" where
  "trips limit t0 ps c k =
     (let w = monitor_check (watch_run (started limit t0) (watched ps t0 c k)) (c k)
      in if system_faulted w then lists w ! tripped_subsystems w else [])"

lemma pokes_pokes_between: "pokes (pokes_between a b ps) = filter (\<lambda>p. a \<le> snd p \<and> snd p < b) ps"
  by (induction ps) (auto simp: pokes_between_def)

lemma filter_span:
  assumes "sorted (map snd ps)" "a \<le> b" "b \<le> (c :: real)"
  shows "filter (\<lambda>p. a \<le> snd p \<and> snd p < b) ps @ filter (\<lambda>p. b \<le> snd p \<and> snd p < c) ps = filter (\<lambda>p. a \<le> snd p \<and> snd p < c) ps"
  using assms
proof (induction ps)
  case (Cons p ps)
  show ?case
  proof (cases "snd p < b")
    case False
    then have "filter (\<lambda>p. a \<le> snd p \<and> snd p < b) (p # ps) = []"
      using Cons.prems(1) by (auto simp: filter_empty_conv)
    moreover have "filter (\<lambda>q. b \<le> snd q \<and> snd q < c) (p # ps) = filter (\<lambda>q. a \<le> snd q \<and> snd q < c) (p # ps)"
      using False Cons.prems by (intro filter_cong) auto
    ultimately show ?thesis by simp
  qed (use Cons in auto)
qed simp

lemma pokes_watched:
  assumes "sorted (map snd ps)" "\<And>k. c k \<le> c (Suc k)" "t0 \<le> c 0"
  shows "pokes (watched ps t0 c k) = filter (\<lambda>p. t0 \<le> snd p \<and> snd p < c k) ps \<and> t0 \<le> c k"
proof (induction k)
  case (Suc k)
  then show ?case
    using filter_span [OF assms(1), of t0 "c k" "c (Suc k)"] assms(2) [of k] by (auto simp: pokes_pokes_between)
qed (use assms(3) in \<open>simp add: pokes_pokes_between\<close>)

text \<open>The last heartbeat of a thread.\<close>

definition last_poke :: "real \<Rightarrow> (string \<times> real) list \<Rightarrow> string \<Rightarrow> real" where
  "last_poke t0 ps n = (case filter (\<lambda>p. fst p = n) (rev ps) of [] \<Rightarrow> t0 | p # _ \<Rightarrow> snd p)"

lemma last_poke_le:
  assumes "\<And>t. (n, t) \<in> set ps \<Longrightarrow> t \<le> a" "t0 \<le> a"
  shows "last_poke t0 ps n \<le> a"
proof (cases "filter (\<lambda>p. fst p = n) (rev ps)")
  case (Cons p q)
  then have "p \<in> set ps \<and> fst p = n" using set_filter [of "\<lambda>p. fst p = n" "rev ps"] by auto
  then show ?thesis using assms(1) [of "snd p"] Cons by (cases p) (simp add: last_poke_def)
qed (use assms in \<open>simp add: last_poke_def\<close>)

lemma last_poke_ge:
  assumes "sorted (map snd ps)" "(n, t) \<in> set ps"
  shows "t \<le> last_poke t0 ps n"
  using assms
proof (induction ps rule: rev_induct)
  case (snoc p ps)
  then show ?case by (cases p) (auto simp: last_poke_def sorted_append split: list.splits)
qed simp

lemma trips_exact:
  assumes "sorted (map snd ps)" "\<And>k. c k \<le> c (Suc k)" "t0 \<le> c 0" "\<forall>p \<in> set ps. t0 \<le> snd p"
  shows "trips limit t0 ps c k = filter (\<lambda>n. limit < c k - last_poke t0 (filter (\<lambda>p. snd p < c k) ps) n) thread_names"
proof -
  have "filter (\<lambda>p. t0 \<le> snd p \<and> snd p < c k) ps = filter (\<lambda>p. snd p < c k) ps"
    using assms(4) by (intro filter_cong) auto
  then have "last_beat t0 (watched ps t0 c k) n = last_poke t0 (filter (\<lambda>p. snd p < c k) ps) n" for n
    using pokes_watched [OF assms(1-3), of k] by (simp add: last_beat_def last_poke_def)
  then show ?thesis
    using watchdog_verdict_exact [of limit t0 "watched ps t0 c k" "c k"] by (auto simp: trips_def Let_def)
qed

text \<open>Property C28. The thread watchdog neither cries wolf nor sleeps. Whatever the threads do, a check that trips a thread
  finds every heartbeat it has given older than the timeout; and a thread that stays silent after \<open>a\<close> for the
  timeout, the pause of a tenth of a second and the time \<open>d\<close> one check takes at most is tripped within that span.
\<close>

theorem silent_thread_caught:
  assumes "sorted (map snd ps)" "\<forall>p \<in> set ps. t0 \<le> snd p" "\<forall>k. 0 \<le> e k \<and> e k \<le> d"
    and "n \<in> set thread_names" "0 \<le> limit"
  defines "c \<equiv> instants (rest_pause (1 / 10)) t0 e"
  shows "(\<forall>k t. n \<in> set (trips limit t0 ps c k) \<and> (n, t) \<in> set ps \<and> t < c k \<longrightarrow> limit < c k - t)
    \<and> (\<forall>a \<ge> t0. (\<forall>t. (n, t) \<in> set ps \<longrightarrow> t \<le> a \<or> a + limit + d + 1 / 10 < t) \<longrightarrow>
        (\<exists>k. a + limit < c k \<and> c k \<le> a + limit + d + 1 / 10 \<and> n \<in> set (trips limit t0 ps c k)))"
proof -
  have mono: "c k \<le> c (Suc k)" for k
    unfolding c_def using assms(3) monitor.ordered [of e k "Suc k" t0] by simp
  have exact: "n \<in> set (trips limit t0 ps c k) \<longleftrightarrow> limit < c k - last_poke t0 (filter (\<lambda>p. snd p < c k) ps) n" for k
    using trips_exact [of ps c t0 limit k, OF assms(1) mono _ assms(2)] assms(4) by (simp add: c_def)
  have "limit < c k - t" if "n \<in> set (trips limit t0 ps c k)" "(n, t) \<in> set ps" "t < c k" for k t
  proof -
    have "sorted (map snd (filter (\<lambda>p. snd p < c k) ps))" using assms(1) by (rule sorted_filter)
    then have "t \<le> last_poke t0 (filter (\<lambda>p. snd p < c k) ps) n" using that by (intro last_poke_ge) auto
    moreover have "limit < c k - last_poke t0 (filter (\<lambda>p. snd p < c k) ps) n" using that(1) by (simp only: exact)
    ultimately show ?thesis by linarith
  qed
  moreover have "\<exists>k. a + limit < c k \<and> c k \<le> a + limit + d + 1 / 10 \<and> n \<in> set (trips limit t0 ps c k)"
    if "t0 \<le> a" and silent: "\<forall>t. (n, t) \<in> set ps \<longrightarrow> t \<le> a \<or> a + limit + d + 1 / 10 < t" for a
  proof -
    have start: "t0 \<le> a + limit" using that(1) assms(5) by simp
    obtain k where k: "a + limit < c (Suc k)" "c (Suc k) \<le> a + limit + d + 1 / 10"
      unfolding c_def by (rule monitor.soon [OF assms(3) start]) blast
    have "last_poke t0 (filter (\<lambda>p. snd p < c (Suc k)) ps) n \<le> a"
    proof (rule last_poke_le [OF _ that(1)])
      fix t
      assume "(n, t) \<in> set (filter (\<lambda>p. snd p < c (Suc k)) ps)"
      then show "t \<le> a" using silent k(2) by auto
    qed
    then have "n \<in> set (trips limit t0 ps c (Suc k))" unfolding exact using k(1) by linarith
    with k show ?thesis by blast
  qed
  ultimately show ?thesis by blast
qed

theorem silent_thread_caught_witness:
  "\<exists>k. 2 < instants (rest_pause (1 / 10)) 0 (\<lambda>_. 0) k \<and> instants (rest_pause (1 / 10)) 0 (\<lambda>_. 0) k \<le> 2 + 1 / 10
     \<and> ''MAIN_CORE_MATH'' \<in> set (trips 1 0 [(''MAIN_CORE_MATH'', 1)] (instants (rest_pause (1 / 10)) 0 (\<lambda>_. 0)) k)"
proof -
  let ?ps = "[(''MAIN_CORE_MATH'', 1 :: real)]" and ?e = "\<lambda>_ :: nat. 0 :: real"
  have "sorted (map snd ?ps)" "\<forall>p \<in> set ?ps. 0 \<le> snd p" "\<forall>k. 0 \<le> ?e k \<and> ?e k \<le> 0"
    "''MAIN_CORE_MATH'' \<in> set thread_names" "(0 :: real) \<le> 1"
    by (simp_all add: thread_names_def)
  from silent_thread_caught [OF this, THEN conjunct2, rule_format, of 1] show ?thesis by simp
qed

end
