(* ===== verification/Main_Timing.thy ===== *)
theory Main_Timing
  imports Main_Watch Pacing
begin

text \<open>
  The loop of the main program in time: its frames against the wall clock, and how soon an audit
  ledger that stops writing takes the torque off the shaft. The checks of the ledger watchdog come
  at the instants of a monitor loop, everything else at any time.
\<close>

section \<open>Fifty frames a second\<close>

text \<open>The warning at the end of a turn, and the wall clock against the time the engine integrates, a
  fiftieth of a second per turn.\<close>

definition frame_dropped :: "real \<Rightarrow> bool" where
  "frame_dropped execution_time \<longleftrightarrow> \<not> 0 < 1 / 50 - execution_time"

definition frame_starts :: "real \<Rightarrow> (nat \<Rightarrow> real) \<Rightarrow> nat \<Rightarrow> real" where
  "frame_starts t0 e = instants (hold_rate (1 / 50)) t0 e"

lemma frame_starts_debt:
  "frame_starts t0 e n = t0 + real n / 50 + (\<Sum>k\<leftarrow>filter (\<lambda>k. frame_dropped (e k)) [0..<n]. e k - 1 / 50)"
  by (induction n) (auto simp: frame_starts_def frame_dropped_def hold_rate_eq max_def field_simps)



text \<open>The UDP transmitter is started at the same rate: round \<open>k\<close> finds the register in the state \<open>u k\<close>. Whatever
  the rest of the program does to the register, a span of \<open>T\<close> seconds carries at most \<open>50 T + 1\<close> datagrams.\<close>

definition datagrams :: "(nat \<Rightarrow> udp_interface) \<Rightarrow> nat set \<Rightarrow> nat" where
  "datagrams u K = (\<Sum>k\<in>K. length (udp_tx_round (u k)))"

theorem datagram_rate_bounded:
  assumes "\<forall>k. 0 \<le> e k" "finite K" "0 \<le> T"
    and "\<forall>k \<in> K. a \<le> instants (hold_rate (1 / 50)) t0 e k \<and> instants (hold_rate (1 / 50)) t0 e k \<le> a + T"
  shows "real (datagrams u K) \<le> 50 * T + 1"
proof -
  have "length (udp_tx_round i) \<le> 1" for i by (simp add: udp_tx_round_def split: option.split)
  then have "datagrams u K \<le> card K" unfolding datagrams_def using sum_bounded_above [of K "\<lambda>k. length (udp_tx_round (u k))" 1] by simp
  also have "real (card K) \<le> T / (1 / 50) + 1" by (rule frames.few [OF assms(1,2,4,3)])
  finally show ?thesis by simp
qed

section \<open>The ledger watchdog in a run\<close>

fun guard_step :: "ledger_watchdog \<Rightarrow> main_event \<Rightarrow> ledger_watchdog" where
  "guard_step g (Ledger_Write n d t) = log_write_success g (n, d, t)"
| "guard_step g (Ledger_Check t) = integrity_check g t"
| "guard_step g ev = g"

fun write_of :: "main_event \<Rightarrow> (string \<times> nat \<times> real) list" where
  "write_of (Ledger_Write n d t) = [(n, d, t)]"
| "write_of ev = []"

fun check_of :: "main_event \<Rightarrow> real list" where
  "check_of (Ledger_Check t) = [t]"
| "check_of ev = []"

lemma stage_guard: "f \<in> set (main_stages w i) \<Longrightarrow> ledger_guard (fst (fst (f x))) = ledger_guard (fst x)"
proof (cases x)
  fix s l
  assume "f \<in> set (main_stages w i)" "x = (s, l)"
  moreover have "ledger_guard (fst (fst (ingest_stage i (s, l)))) = ledger_guard s"
    "ledger_guard (fst (fst (coupling_stage w (s, l)))) = ledger_guard s"
    "ledger_guard (fst (fst (engine_stage w (s, l)))) = ledger_guard s" "ledger_guard (fst (fst (anchor_stage (s, l)))) = ledger_guard s"
    "ledger_guard (fst (fst (vibration_stage (s, l)))) = ledger_guard s" "ledger_guard (fst (fst (legal_stage i (s, l)))) = ledger_guard s"
    "ledger_guard (fst (fst (compliance_stage i (s, l)))) = ledger_guard s" "ledger_guard (fst (fst (dispatch_stage w i (s, l)))) = ledger_guard s"
    by (simp_all add: ingest_stage_def coupling_stage_def engine_stage_def vibration_stage_def legal_stage_def
        compliance_stage_def dispatch_stage_def anchor_stage_def Let_def case_prod_beta split: option.split)
  ultimately show ?thesis
    using same_orders_stages [of s l] same_orders_shore [of s l w] by (auto simp: main_stages_def same_orders_def)
qed

lemma main_cycle_guard: "ledger_guard (fst (main_cycle w i s)) = ledger_guard s"
  using run_stages_keeps [of "main_stages w i" "\<lambda>x. ledger_guard (fst x) = ledger_guard s" "(s, unbound_locals)"] stage_guard [of _ w i]
  by (simp add: main_cycle_def Let_def case_prod_beta)

lemma booted_guard:
  "bootstrap_core profile t0 fs ports = Some s0 \<Longrightarrow> ledger_guard s0 = start_ledger_watchdog (ledger_watchdog_init (3 / 2) t0) t0"
  by (auto simp: bootstrap_core_def split: if_splits option.splits)

lemma guard_run: "main_run w s0 es = (s, None) \<Longrightarrow> ledger_guard s = foldl guard_step (ledger_guard s0) es"
proof (induction es arbitrary: s rule: rev_induct)
  case (snoc ev es)
  then obtain s1 where s1: "main_run w s0 es = (s1, None)" "main_step w (s1, None) ev = (s, None)" using main_run_alive by blast
  show ?case
  proof (cases ev)
    case (Cycle i)
    then show ?thesis using s1 snoc.IH main_cycle_guard [of w i s1] by (auto split: prod.splits)
  next
    case (Tx_Turn b)
    then show ?thesis using s1 snoc.IH by (auto simp: serial_tx_worker_def split: list.splits)
  qed (use s1 snoc.IH in auto)
qed simp

definition reports :: "string \<Rightarrow> main_event \<Rightarrow> bool" where
  "reports n ev \<longleftrightarrow> (\<exists>e \<in> set (write_of ev). py_strip (py_upper (fst e)) = n)"

lemma guard_frame:
  "l_timeout (foldl guard_step g es) = l_timeout g" "l_monitoring (foldl guard_step g es) = l_monitoring g"
  "ledger_heartbeats (foldl guard_step g es) = ledger_heartbeats (foldl log_write_success g (concat (map write_of es)))"
  "ledger_queue_depths (foldl guard_step g es) = ledger_queue_depths (foldl log_write_success g (concat (map write_of es)))"
proof (induction es rule: rev_induct)
  case (snoc ev es)
  { case 1 show ?case using snoc by (cases ev) (auto simp: log_write_success_def integrity_check_def Let_def) }
  { case 2 show ?case using snoc by (cases ev) (auto simp: log_write_success_def integrity_check_def Let_def) }
  { case 3 show ?case using snoc by (cases ev) (auto simp: log_write_success_def integrity_check_def Let_def) }
  { case 4 show ?case using snoc by (cases ev) (auto simp: log_write_success_def integrity_check_def Let_def) }
qed simp_all

lemma guard_entry: "ledger_entry (foldl guard_step g es) n = ledger_entry (foldl log_write_success g (concat (map write_of es))) n"
  by (simp add: ledger_entry_def guard_frame)

lemma guard_unchecked: "\<forall>ev \<in> set es. check_of ev = [] \<Longrightarrow> l_faulted (foldl guard_step g es) = l_faulted g"
proof (induction es rule: rev_induct)
  case (snoc ev es)
  then show ?case by (cases ev) (auto simp: log_write_success_def Let_def)
qed simp

lemma late_trips:
  assumes "l_monitoring g" "ledger_entry g n = Some (h, q)" "l_timeout g < t - h" "0 < q"
  shows "l_faulted (integrity_check g t)"
proof -
  have "map_of (ledger_heartbeats g) n = Some h" "map_of (ledger_queue_depths g) n = Some q"
    using assms(2) by (auto simp: ledger_entry_def split: option.splits)
  then have "(n, h) \<in> set (ledger_heartbeats g)" "ledger_late g t (n, h)"
    using assms(3,4) map_of_SomeD by (fastforce simp: ledger_late_def dget_def)+
  then show ?thesis using assms(1) by (auto simp: integrity_check_def Let_def filter_empty_conv)
qed

text \<open>The last report of a ledger is what its entry holds.\<close>

lemma last_report:
  assumes "ledger_entry g n \<noteq> None" "py_strip (py_upper nm) = n" "\<forall>ev \<in> set fs. \<not> reports n ev"
  shows "ledger_entry (foldl guard_step g (es @ Ledger_Write nm q h # fs)) n = Some (h, q)"
proof -
  have "filter (\<lambda>e. py_strip (py_upper (fst e)) = n) (rev (concat (map write_of fs))) = []"
    using assms(3) by (auto simp: reports_def filter_empty_conv)
  then show ?thesis using assms(1,2) unfolding guard_entry ledgers.get_puts by simp
qed

lemma started_entry: "n \<in> set ledger_names \<Longrightarrow> ledger_entry (start_ledger_watchdog (ledger_watchdog_init limit t0) t0) n = Some (t0, 0)"
  by (auto simp: start_ledger_watchdog_def ledger_watchdog_init_def ledger_entry_def ledger_names_def)

text \<open>A timed run, up to now: the last check in it, and what it saw.\<close>

lemma secured_after_last_check:
  assumes "sorted (map fst vs)" "(t, Ledger_Check t) \<in> set vs" "\<forall>p \<in> set vs. \<forall>t'. snd p = Ledger_Check t' \<longrightarrow> t' = fst p"
    and "l_monitoring g" "ledger_entry g n = Some (h, q)" "l_timeout g < t - h" "0 < q" "\<forall>p \<in> set vs. \<not> reports n (snd p)"
  shows "l_faulted (foldl guard_step g (map snd vs))"
proof -
  obtain xs p ys where split: "vs = xs @ p # ys" "check_of (snd p) \<noteq> []" "\<forall>y \<in> set ys. check_of (snd y) = []"
    using split_list_last_prop [of vs "\<lambda>p. check_of (snd p) \<noteq> []"] assms(2) by force
  then obtain u where p: "p = (u, Ledger_Check u)"
    using assms(3) by (cases p; cases "snd p") auto
  have "t \<le> u" using assms(1,2) split p by (auto simp: sorted_append)
  let ?g = "foldl guard_step g (map snd xs)"
  have "filter (\<lambda>e. py_strip (py_upper (fst e)) = n) (rev (concat (map write_of (map snd xs)))) = []"
    using assms(8) split(1) by (auto simp: reports_def filter_empty_conv)
  then have "ledger_entry ?g n = Some (h, q)"
    using assms(5) unfolding guard_entry ledgers.get_puts by simp
  then have "l_faulted (integrity_check ?g u)"
    using late_trips [of ?g n h q u] assms(4,6,7) \<open>t \<le> u\<close> by (simp add: guard_frame)
  moreover have "l_faulted (foldl guard_step (integrity_check ?g u) (map snd ys)) = l_faulted (integrity_check ?g u)"
    using split(3) by (intro guard_unchecked) auto
  ultimately show ?thesis by (simp add: split(1) p)
qed

text \<open>Property C7. The whole path from a frozen audit ledger to the shaft, in time. The bridge was booted at \<open>t0\<close> and has
  run through the timed events \<open>tes\<close>; the ledger watchdog checks at the instants of its monitor loop, each check
  taking at most \<open>d\<close>. If the last report of a ledger came at \<open>h\<close> with rows still waiting, then every
  turn from \<open>h\<close> plus 1.6 seconds plus \<open>d\<close> on sends the propulsion a torque of zero.
\<close>

theorem frozen_ledger_secures_propulsion:
  assumes boot: "ledger_guard s0 = start_ledger_watchdog (ledger_watchdog_init (3 / 2) t0) t0"
    and work: "\<forall>k. 0 \<le> e k \<and> e k \<le> d"
    and trace: "tes = us @ (h, Ledger_Write nm q h) # vs" "sorted (map fst tes)" "t0 \<le> h"
    and stamps: "\<forall>p \<in> set tes. \<forall>t'. snd p = Ledger_Check t' \<longrightarrow> t' = fst p"
    and frozen: "py_strip (py_upper nm) = n" "n \<in> set ledger_names" "0 < q" "\<forall>p \<in> set vs. \<not> reports n (snd p)"
    and checks: "\<forall>k. instants (rest_pause (1 / 10)) t0 e k \<le> m \<longrightarrow>
      (let c = instants (rest_pause (1 / 10)) t0 e k in (c, Ledger_Check c) \<in> set tes)"
    and now: "h + 3 / 2 + d + 1 / 10 \<le> m"
    and run: "main_run w s0 (map snd tes) = (s, None)" "main_cycle w i s = (s', l, None)"
  shows "dget (latest_engine_commands (net s')) ''command_motor_torque_nm'' 0 = 0"
proof -
  let ?c = "instants (rest_pause (1 / 10)) t0 e"
  have start: "t0 \<le> h + 3 / 2" using trace(3) by simp
  obtain k where k: "h + 3 / 2 < ?c (Suc k)" "?c (Suc k) \<le> h + 3 / 2 + d + 1 / 10"
    by (rule monitor.soon [OF work start]) blast
  let ?t = "?c (Suc k)" and ?boot = "ledger_guard s0"
  let ?g = "foldl guard_step ?boot (map snd us @ [Ledger_Write nm q h])"
  have "(?t, Ledger_Check ?t) \<in> set tes" using checks k(2) now by (auto simp: Let_def simp del: instants.simps)
  moreover have "(?t, Ledger_Check ?t) \<notin> set us" using trace(2) k(1) unfolding trace(1) by (fastforce simp: sorted_append)
  ultimately have check: "(?t, Ledger_Check ?t) \<in> set vs" unfolding trace(1) by auto
  have entry: "ledger_entry ?g n = Some (h, q)"
    using last_report [of ?boot n nm "[]" "map snd us" q h] started_entry [OF frozen(2)] frozen(1) by (simp add: boot)
  have fields: "l_monitoring ?g" "l_timeout ?g = 3 / 2"
    unfolding guard_frame boot by (simp_all add: start_ledger_watchdog_def ledger_watchdog_init_def)
  have late: "l_timeout ?g < ?t - h" unfolding fields(2) using k(1) by linarith
  have "l_faulted (foldl guard_step ?g (map snd vs))"
    using secured_after_last_check [OF _ check _ fields(1) entry late frozen(3,4)] trace(2) stamps unfolding trace(1) by (auto simp: sorted_append)
  then have tripped: "l_faulted (ledger_guard s)" using guard_run [OF run(1)] by (simp add: trace(1))
  show ?thesis by (rule completed_turn [OF run(2)]) (simp add: tripped command_dict_def dget_def)
qed

text \<open>The bench with slow checks: one row waiting at time 0, checks at 0 and 2.1, a turn at 3.6.\<close>

definition frozen_trace :: "(real \<times> main_event) list" where
  "frozen_trace = [(0, Net (Serial_Line [] 0)), (0, Ledger_Check 0), (0, Ledger_Write ''MISSION_TELEMETRY'' 1 0),
     (21 / 10, Ledger_Check (21 / 10))]"

theorem frozen_ledger_secures_propulsion_witness:
  "\<exists>s s' l. main_run bench_wiring bench_core (map snd frozen_trace) = (s, None) \<and> main_cycle bench_wiring bench_input s = (s', l, None)
     \<and> dget (latest_engine_commands (net s')) ''command_motor_torque_nm'' 0 = 0"
proof -
  have boot: "ledger_guard bench_core = start_ledger_watchdog (ledger_watchdog_init (3 / 2) 0) 0"
    by (rule booted_guard [OF fallback_boots])
  obtain s0 where s0: "main_run bench_wiring bench_core [Net (Serial_Line [] 0)] = (s0, None)" "tx_queue s0 = []" using bench_run by blast
  define s where "s = s0\<lparr>ledger_guard := integrity_check (log_write_success (integrity_check (ledger_guard s0) 0)
    (''MISSION_TELEMETRY'', 1, 0)) (21 / 10)\<rparr>"
  have s: "main_run bench_wiring bench_core (map snd frozen_trace) = (s, None)" "tx_queue s = []"
    using s0 by (simp_all add: s_def frozen_trace_def main_run_def)
  obtain s' l x where turn: "main_cycle bench_wiring bench_input s = (s', l, x)" by (metis prod.exhaust_sel)
  have idle: "idle_core True s" "aliased (net s)"
    using idle_run [OF bench_repaired bootstrap_idle(1,2) [OF fallback_boots] s(1)] by (auto simp: frozen_trace_def)
  from idle_turn [OF bench_repaired idle(1) turn] idle(2) s(2) have "queued (idle_frames True) [] (tx_queue s') x" by simp
  then have ok: "main_cycle bench_wiring bench_input s = (s', l, None)"
    using turn by (auto simp: queued_def idle_frames_def dest: list_all2_lengthD)
  have c_eq: "instants (rest_pause (1 / 10)) 0 (\<lambda>_. 2) k = 21 / 10 * real k" for k
    by (induction k) (simp_all add: rest_pause_def algebra_simps)
  have "k = 0 \<or> k = 1" if "21 / 10 * real k \<le> 36 / 10" for k :: nat using that by linarith
  then have checks: "\<forall>k. instants (rest_pause (1 / 10)) 0 (\<lambda>_. 2) k \<le> 36 / 10 \<longrightarrow>
      (let c = instants (rest_pause (1 / 10)) 0 (\<lambda>_. 2) k in (c, Ledger_Check c) \<in> set frozen_trace)"
    unfolding c_eq Let_def by (fastforce simp: frozen_trace_def)
  have "dget (latest_engine_commands (net s')) ''command_motor_torque_nm'' 0 = 0"
  proof (rule frozen_ledger_secures_propulsion [OF boot _ _ _ _ _ _ _ _ _ checks _ s(1) ok])
    show "frozen_trace = [(0, Net (Serial_Line [] 0)), (0, Ledger_Check 0)] @ (0, Ledger_Write ''MISSION_TELEMETRY'' 1 0) # [(21 / 10, Ledger_Check (21 / 10))]"
      by (simp add: frozen_trace_def)
    show "py_strip (py_upper ''MISSION_TELEMETRY'') = ''MISSION_TELEMETRY''" by code_simp
  qed (auto simp: frozen_trace_def ledger_names_def reports_def)
  with s(1) ok show ?thesis by blast
qed

text \<open>As shipped no logger ever reports, since the hook they call is an unbound name; then the guard never trips and
  the propulsion is never secured, however long a ledger has been frozen.\<close>

theorem unreported_ledgers_never_secure:
  assumes "bootstrap_core profile t0 fs ports = Some s0" "\<forall>ev \<in> set es. write_of ev = []" "main_run w s0 es = (s, None)"
  shows "\<not> l_faulted (ledger_guard s)"
proof -
  note boot = booted_guard [OF assms(1)]
  have "\<not> l_faulted (foldl guard_step (ledger_guard s0) es)"
    using assms(2)
  proof (induction es rule: rev_induct)
    case (snoc ev es)
    let ?g = "foldl guard_step (ledger_guard s0) es"
    have no_writes: "concat (map write_of es) = []" using snoc.prems by auto
    have "ledger_heartbeats ?g = map (\<lambda>n. (n, t0)) ledger_names" "ledger_queue_depths ?g = map (\<lambda>n. (n, 0)) ledger_names"
      unfolding guard_frame no_writes by (simp_all add: boot start_ledger_watchdog_def ledger_watchdog_init_def)
    then have "\<not> ledger_late ?g t x" if "x \<in> set (ledger_heartbeats ?g)" for t x
      using that by (auto simp: ledger_late_def dget_def ledger_names_def)
    then show ?case using snoc by (cases ev) (auto simp: integrity_check_def Let_def filter_empty_conv)
  qed (simp add: boot start_ledger_watchdog_def ledger_watchdog_init_def)
  then show ?thesis using guard_run [OF assms(3)] by simp
qed

end
