(* ===== verification/Self_Tests.thy ===== *)
theory Self_Tests
  imports Bridge_Router
begin

text \<open>
  The self-test scripts of the receivers and the encoders (\<open>if __name__ == "__main__"\<close> at the end of their
  modules), as the state, or the frames, they end with. The encoders' scripts show what they announce; those
  of the four receivers and of the feedback node show nothing, since none of the sentences they call verified
  carries its own checksum. Printing is left out.
\<close>

section \<open>Receivers\<close>

definition crlf :: string where
  "crlf = [CHR 0x0D, CHR 0x0A]"

definition sensor_vectors :: "string list" where
  "sensor_vectors = [''$HEHDT,124.50,T*1C'' @ crlf, ''$SDDBT,24.6,f,7.50,M,4.1,F*0D'' @ crlf,
     ''$GPRMC,123519,A,4807.038,N,01131.000,E,14.2,34.4,230326,,,A*6A'' @ crlf]"

definition gun_vectors :: "string list" where
  "gun_vectors = [''$PMK45,088.00,025.00,0000*22'' @ crlf, ''$PMK45,090.58,025.15,0000*24'' @ crlf]"

definition async_vectors :: "string list" where
  "async_vectors = [''$MK45,045.50,012.20,0000*29'' @ crlf, ''$MK45,046.10,012.25,0000*2F'' @ crlf]"

definition flight_vectors :: "string list" where
  "flight_vectors = [''$AVNC,47.6062,-122.3321,1200.0,1450.0,120.0,22.4,0000*3B'' @ crlf,
     ''$AVNC,47.6085,-122.3315,1240.0,1495.0,122.5,22.1,0000*3D'' @ crlf]"

text \<open>The sentences with their clock readings: from 1000 in steps, or what the clock says.\<close>

definition stepped :: "real \<Rightarrow> string list \<Rightarrow> (string \<times> real) list" where
  "stepped step ls = zip ls (map (\<lambda>i. 1000 + step * real (Suc i)) [0..<length ls])"

definition sensor_self_test :: nmea_parser where
  "sensor_self_test = foldl (\<lambda>p (raw_frame, t_clock). parse_sentence p raw_frame t_clock) nmea_parser_init (stepped 0.2 sensor_vectors)"

definition gun_self_test :: weapon_parser where
  "gun_self_test = foldl (\<lambda>p (raw_sentence, t_clock). ingest_encoder_sentence p raw_sentence t_clock) weapon_parser_init (stepped 0.1 gun_vectors)"

definition async_self_test :: "real \<Rightarrow> (nat \<Rightarrow> real) \<Rightarrow> async_parser" where
  "async_self_test now clock = foldl (\<lambda>p (string_packet, t). process_async_line p string_packet t) (async_parser_init ''MK45'' now)
     (zip async_vectors (map clock [0..<length async_vectors]))"

definition flight_self_test :: "real \<Rightarrow> aviation_node" where
  "flight_self_test now = foldl (\<lambda>b (packet, t_clock). ingest_aerospace_sentence b packet t_clock) (aviation_init ''AVNC'' now) (stepped 0.1 flight_vectors)"

text \<open>The feedback node: a normal report, then up to nine of a stuck rudder until the jam is reported.\<close>

fun stuck_rounds :: "nat \<Rightarrow> string \<Rightarrow> feedback_node \<Rightarrow> feedback_node" where
  "stuck_rounds 0 fault_sentence n = n"
| "stuck_rounds (Suc k) fault_sentence n =
     (let n = process_hardware_feedback n fault_sentence (- 15) 0.2
      in if linkage_tracking_jammed (latest_status n) then n else stuck_rounds k fault_sentence n)"

definition feedback_self_test :: "string \<Rightarrow> string \<Rightarrow> feedback_node" where
  "feedback_self_test normal_sentence fault_sentence =
     stuck_rounds 9 fault_sentence (process_hardware_feedback (feedback_init ''UNVC'') normal_sentence (- 15) 0.2)"

definition normal_sentence :: string where
  "normal_sentence = ''$PUNVCAK,-14.80,0000,32.5*24'' @ crlf"

definition fault_sentence :: string where
  "fault_sentence = ''$PUNVCAK,-2.10,0003,58.0*20'' @ crlf"

lemma vectors_unsealed:
  "list_all (\<lambda>l. \<not> validate_checksum (py_strip l)) (sensor_vectors @ gun_vectors @ async_vectors @ flight_vectors)"
  by code_simp

lemma feedback_vectors_unsealed:
  "\<not> validate_checksum (py_strip normal_sentence)" "\<not> validate_checksum (py_strip fault_sentence)"
  by code_simp+

text \<open>A sentence the checksum test refuses leaves its flag and changes nothing else.\<close>

lemma unsealed_feedback:
  assumes "\<not> validate_checksum (py_strip l)"
  shows "process_hardware_feedback n l ordered dt = add_flag ''LINE_NOISE_CORRUPTION'' n"
  using assms by (simp add: process_hardware_feedback_def)

lemma stuck_rounds_mute:
  assumes "\<not> validate_checksum (py_strip l)" "\<not> linkage_tracking_jammed (latest_status n)"
    and "fault_flags (latest_status n) = [''LINE_NOISE_CORRUPTION'']"
  shows "stuck_rounds k l n = n"
proof (induction k)
  case (Suc k)
  have "add_flag ''LINE_NOISE_CORRUPTION'' n = n"
    using assms(3) by (simp add: add_flag_def)
  then show ?case using Suc assms by (simp add: unsealed_feedback)
qed simp

context guarded_receiver
begin

lemma listen_unsealed:
  assumes "\<forall>l\<in>set ls. \<not> validate_checksum (py_strip l)"
  shows "foldl (\<lambda>s (line, t). receive s line t) s (zip ls ts) = s"
  using assms
proof (induction ls arbitrary: ts)
  case (Cons l ls)
  then show ?case using drops [of l] by (cases ts) simp_all
qed simp

end

text \<open>A sealed report that keeps deviating is reported as a jam once its time adds up to the limit.\<close>

lemma stuck_rounds_jam:
  assumes "\<And>n. fb_prefix n = p \<Longrightarrow> process_hardware_feedback n l (- 15) 0.2 = apply_feedback n m h c (- 15) 0.2"
    and "deviates 2.5 (- 15) m"
    and "fb_prefix n = p" "tracking_error_threshold_deg n = 2.5" "max_error_time_allowed_sec n = 1.5"
    and "0 < k" "1.5 \<le> consecutive_error_seconds n + 0.2 * real k"
  shows "linkage_tracking_jammed (latest_status (stuck_rounds k l n))"
  using assms(3-)
proof (induction k arbitrary: n)
  case (Suc k)
  let ?n = "apply_feedback n m h c (- 15) 0.2"
  have dev: "deviates (tracking_error_threshold_deg n) (- 15) m" using assms(2) Suc.prems(2) by (simp only:)
  have fields: "fb_prefix ?n = p" "tracking_error_threshold_deg ?n = 2.5" "max_error_time_allowed_sec ?n = 1.5"
    "consecutive_error_seconds ?n = consecutive_error_seconds n + 0.2"
    "linkage_tracking_jammed (latest_status ?n) \<longleftrightarrow> 1.5 \<le> consecutive_error_seconds n + 0.2"
    using Suc.prems dev unfolding apply_feedback_fields jam_now_def by (auto simp: apply_feedback_def split_beta Let_def)
  show ?case
  proof (cases "1.5 \<le> consecutive_error_seconds n + 0.2")
    case False
    then have "0 < k" using Suc.prems(5) by (cases k) simp_all
    moreover have "1.5 \<le> consecutive_error_seconds ?n + 0.2 * real k"
      using Suc.prems(5) fields(4) by (simp add: field_simps)
    ultimately have "linkage_tracking_jammed (latest_status (stuck_rounds k l ?n))"
      by (intro Suc.IH fields(1-3))
    with False show ?thesis using assms(1) Suc.prems(1) fields(5) by simp
  qed (use assms(1) Suc.prems(1) fields(5) in simp)
qed simp

lemma feedback_sentence_read:
  assumes "plain_field h" "plain_field d" "plain_field x" "plain_field c" "fb_prefix n = h"
    and "py_float d = Some m" "py_float c = Some t"
  shows "process_hardware_feedback n (nmea_sentence (csv_join [h, d, x, c])) ordered dt = apply_feedback n m x t ordered dt"
proof -
  have plain: "\<forall>f \<in> set (h # [d, x, c]). plain_field f" using assms by simp
  show ?thesis
    using sealed_csv [OF plain] assms(5-) by (simp add: process_hardware_feedback_def Let_def float_field_def field_def)
qed

lemma decimals_read:
  "py_float ''-2.10'' = Some (Fin (- 2.1))" "py_float ''58.0'' = Some (Fin 58)"
  "py_float ''-14.80'' = Some (Fin (- 14.8))" "py_float ''32.5'' = Some (Fin 32.5)"
proof -
  have small: "to_pynum v = Fin v" if "\<bar>v\<bar> \<le> 100" for v
  proof -
    have "(100 :: real) < 10 ^ 300 + 1" by simp
    then show ?thesis using that float_limit_gt by (intro to_pynum_Fin) linarith
  qed
  show "py_float ''-2.10'' = Some (Fin (- 2.1))" "py_float ''58.0'' = Some (Fin 58)"
    "py_float ''-14.80'' = Some (Fin (- 14.8))" "py_float ''32.5'' = Some (Fin 32.5)"
    using py_float_signed [of "''2''" "''10''" True] py_float_signed [of "''58''" "''0''" False]
      py_float_signed [of "''14''" "''80''" True] py_float_signed [of "''32''" "''5''" False]
    by (simp_all add: nat_of_digits_def is_digit_def small)
qed

lemma resealed_jams:
  "linkage_tracking_jammed (latest_status (feedback_self_test
    (nmea_sentence (csv_join [''PUNVCAK'', ''-14.80'', ''0000'', ''32.5'']))
    (nmea_sentence (csv_join [''PUNVCAK'', ''-2.10'', ''0003'', ''58.0'']))))"
proof -
  let ?n = "process_hardware_feedback (feedback_init ''UNVC'') (nmea_sentence (csv_join [''PUNVCAK'', ''-14.80'', ''0000'', ''32.5''])) (- 15) 0.2"
  have prefix: "fb_prefix (feedback_init ''UNVC'') = ''PUNVCAK''" by code_simp
  have plain: "plain_field ''PUNVCAK''" "plain_field ''-14.80''" "plain_field ''0000''" "plain_field ''32.5''"
    "plain_field ''-2.10''" "plain_field ''0003''" "plain_field ''58.0''" by code_simp+
  have first: "?n = apply_feedback (feedback_init ''UNVC'') (Fin (- 14.8)) ''0000'' (Fin 32.5) (- 15) 0.2"
    by (intro feedback_sentence_read plain prefix decimals_read)
  have "fb_prefix ?n = ''PUNVCAK''" "tracking_error_threshold_deg ?n = 2.5" "max_error_time_allowed_sec ?n = 1.5"
    "consecutive_error_seconds ?n = 0"
    unfolding first apply_feedback_fields using prefix
    by (simp_all add: apply_feedback_def split_beta Let_def feedback_init_def deviates_def)
  then show ?thesis unfolding feedback_self_test_def
    by (intro stuck_rounds_jam [where p = "''PUNVCAK''" and m = "Fin (- 2.1)" and h = "''0003''" and c = "Fin 58"]
        feedback_sentence_read plain decimals_read) (simp_all add: deviates_def)
qed

lemma receivers_unmoved:
  "sensor_self_test = nmea_parser_init" "gun_self_test = weapon_parser_init"
  "async_self_test now clock = async_parser_init ''MK45'' now" "flight_self_test now = aviation_init ''AVNC'' now"
  unfolding sensor_self_test_def gun_self_test_def async_self_test_def flight_self_test_def stepped_def
  using vectors_unsealed
  by (intro sensors.listen_unsealed gun_bus.listen_unsealed gun_async.listen_unsealed flight.listen_unsealed; simp add: list_all_iff)+

text \<open>No self test of a receiver tests it: the four sensor and encoder scripts end in the state
  they started in, whatever the clock says, and the feedback script ends after all its nine rounds with a
  line-noise flag and no jam. The receiver is not to blame: with the same fields under their own checksum
  the feedback script reports the jam.
\<close>

theorem self_tests_mute:
  "sensor_self_test = nmea_parser_init \<and> gun_self_test = weapon_parser_init
   \<and> async_self_test now clock = async_parser_init ''MK45'' now \<and> flight_self_test now = aviation_init ''AVNC'' now
   \<and> feedback_self_test normal_sentence fault_sentence = add_flag ''LINE_NOISE_CORRUPTION'' (feedback_init ''UNVC'')
   \<and> \<not> linkage_tracking_jammed (latest_status (feedback_self_test normal_sentence fault_sentence))
   \<and> linkage_tracking_jammed (latest_status (feedback_self_test
       (nmea_sentence (csv_join [''PUNVCAK'', ''-14.80'', ''0000'', ''32.5'']))
       (nmea_sentence (csv_join [''PUNVCAK'', ''-2.10'', ''0003'', ''58.0'']))))"
proof -
  let ?n = "add_flag ''LINE_NOISE_CORRUPTION'' (feedback_init ''UNVC'')"
  have n: "\<not> linkage_tracking_jammed (latest_status ?n)" "fault_flags (latest_status ?n) = [''LINE_NOISE_CORRUPTION'']"
    by (simp_all add: add_flag_def feedback_init_def)
  have "feedback_self_test normal_sentence fault_sentence = ?n"
    unfolding feedback_self_test_def unsealed_feedback [OF feedback_vectors_unsealed(1)]
    by (rule stuck_rounds_mute [OF feedback_vectors_unsealed(2) n])
  then show ?thesis using n(1) receivers_unmoved resealed_jams by simp
qed

section \<open>Encoders\<close>

definition encoder_packet :: engine_packet where
  "encoder_packet = \<lparr>top = [''command_motor_torque_nm'' \<mapsto> 45200.5, ''command_rudder_angle_deg'' \<mapsto> - 14.25, ''active_rpm_cap'' \<mapsto> 480],
     insight_link = [''structural_fatigue_load_percentage'' \<mapsto> 42.1]\<rparr>"

definition encoder_self_test :: "string list" where
  "encoder_self_test = [serialize_rudder_command (actuator_serializer_init ''UNVC'') ''STR'' encoder_packet,
     serialize_propulsion_command (actuator_serializer_init ''UNVC'') ''PRP'' encoder_packet]"

definition mock_allocations :: "allocation list" where
  "mock_allocations =
     [\<lparr>mount_id = Some ''MAIN_5IN_MK45'', ordered_azimuth_deg = Some 12, target_range_meters = Some 0, allocation_status = Some ''NOMINAL''\<rparr>,
      \<lparr>mount_id = Some ''AUX_76MM_MK75'', ordered_azimuth_deg = Some 45.32, target_range_meters = Some 18450, allocation_status = Some ''OVERRIDE_ACTIVE''\<rparr>]"

definition weapon_self_test :: "string list" where
  "weapon_self_test = serialize_jammer_suppression_commands (weapon_serializer_init ''UNVC'') mock_allocations"

definition mock_buffer :: num_dict where
  "mock_buffer = [''target_bearing_deg'' \<mapsto> 142.55, ''current_elevation_deg'' \<mapsto> 22.4, ''is_target_locked'' \<mapsto> 1]"

definition mock_batteries :: "shore_weapon list" where
  "mock_batteries =
     [\<lparr>shore_station_id = Some ''SHORE_BATTERY_ALPHA'', umbilical_link_connected = Some True, navy_combat_release_cleared = Some True\<rparr>,
      \<lparr>shore_station_id = Some ''COASTAL_VLS_CELL_MATRIX'', umbilical_link_connected = Some False, navy_combat_release_cleared = Some True\<rparr>]"

definition shore_self_test :: "string list" where
  "shore_self_test = serialize_shore_fire_commands (shore_serializer_init ''PUNVC'') mock_buffer mock_batteries"

definition mock_stabilizer :: stabilizer_output where
  "mock_stabilizer = \<lparr>command_port_actuator_deg = Some (- 18.45), command_stbd_actuator_deg = Some 14.12,
     stabilization_state = Some ''APEX_COMBAT_LOCK_ACTIVE''\<rparr>"

definition asymmetric_self_test :: "string list" where
  "asymmetric_self_test = (case serialize_asymmetric_actuator_channels (asymmetric_serializer_init ''PUNVC'') mock_stabilizer 12.5 of
     (binary_port_frame, binary_stbd_frame) \<Rightarrow> [binary_port_frame, binary_stbd_frame])"

lemma fmt_fixed_exact:
  assumes "\<bar>x\<bar> * 10 ^ n = real m"
    and "(if x < 0 then ''-'' else []) @ nat_str (m div 10 ^ n) @ ''.'' @ pad_digits n (m mod 10 ^ n) = s"
  shows "fmt_fixed n x = s"
proof -
  have "round_half_even (\<bar>x\<bar> * 10 ^ n) = int m"
    unfolding assms(1) by (simp add: round_half_even_def)
  then show ?thesis using assms(2) by (simp add: fmt_fixed_def)
qed

lemma pad_digits_places:
  "pad_digits (Suc 0) n = [digit_char (n mod 10)]" "pad_digits 2 n = [digit_char (n div 10 mod 10), digit_char (n mod 10)]"
  by (simp_all add: numeral_2_eq_2)

lemmas decimal_digits = nat_str.simps digit_char_def pad_digits_places

lemma demo_numbers:
  "fmt_fixed 2 14.25 = ''14.25''" "fmt_fixed 1 15 = ''15.0''" "fmt_fixed 1 45200.5 = ''45200.5''" "fmt_fixed 1 480 = ''480.0''"
  "fmt_fixed 1 42.1 = ''42.1''" "fmt_fixed 2 12 = ''12.00''" "fmt_fixed 1 0 = ''0.0''" "fmt_fixed 2 45.32 = ''45.32''"
  "fmt_fixed 1 18450 = ''18450.0''" "fmt_fixed 2 142.55 = ''142.55''" "fmt_fixed 2 22.4 = ''22.40''" "fmt_fixed 2 (- 18.45) = ''-18.45''"
  "fmt_fixed 2 14.12 = ''14.12''" "fmt_fixed 1 12.5 = ''12.5''"
  subgoal by (rule fmt_fixed_exact [where m = 1425]; simp add: decimal_digits)
  subgoal by (rule fmt_fixed_exact [where m = 150]; simp add: decimal_digits)
  subgoal by (rule fmt_fixed_exact [where m = 452005]; simp add: decimal_digits)
  subgoal by (rule fmt_fixed_exact [where m = 4800]; simp add: decimal_digits)
  subgoal by (rule fmt_fixed_exact [where m = 421]; simp add: decimal_digits)
  subgoal by (rule fmt_fixed_exact [where m = 1200]; simp add: decimal_digits)
  subgoal by (rule fmt_fixed_exact [where m = 0]; simp add: decimal_digits)
  subgoal by (rule fmt_fixed_exact [where m = 4532]; simp add: decimal_digits)
  subgoal by (rule fmt_fixed_exact [where m = 184500]; simp add: decimal_digits)
  subgoal by (rule fmt_fixed_exact [where m = 14255]; simp add: decimal_digits)
  subgoal by (rule fmt_fixed_exact [where m = 2240]; simp add: decimal_digits)
  subgoal by (rule fmt_fixed_exact [where m = 1845]; simp add: decimal_digits)
  subgoal by (rule fmt_fixed_exact [where m = 1412]; simp add: decimal_digits)
  subgoal by (rule fmt_fixed_exact [where m = 125]; simp add: decimal_digits)
  done
lemma demo_headers:
  "''P'' @ actuator_serializer_init ''UNVC'' @ py_upper ''STR'' = ''PUNVCSTR''" "''P'' @ actuator_serializer_init ''UNVC'' @ py_upper ''PRP'' = ''PUNVCPRP''"
  "weapon_serializer_init ''UNVC'' = ''PUNVCEW''" "shore_serializer_init ''PUNVC'' = ''PUNVCSHR''"
  "port_header (asymmetric_serializer_init ''PUNVC'') = ''PUNVCPRT''" "stbd_header (asymmetric_serializer_init ''PUNVC'') = ''PUNVCSTB''"
  by code_simp+

text \<open>The frames of the encoders' scripts, payload by payload.\<close>

lemma demo_payloads:
  "encoder_self_test = map (\<lambda>fs. nmea_sentence (csv_join fs))
     [[''PUNVCSTR'', ''14.25'', ''L'', ''15.0''], [''PUNVCPRP'', ''45200.5'', ''480.0'', ''42.1'']]"
  "weapon_self_test = map (\<lambda>fs. nmea_sentence (csv_join fs))
     [[''PUNVCEW'', ''1'', ''12.00'', ''0.0'', ''0''], [''PUNVCEW'', ''2'', ''45.32'', ''18450.0'', ''1'']]"
  "shore_self_test = map (\<lambda>fs. nmea_sentence (csv_join fs))
     [[''PUNVCSHR'', ''101'', ''142.55'', ''22.40'', ''1''], [''PUNVCSHR'', ''102'', ''142.55'', ''22.40'', ''0'']]"
  "asymmetric_self_test = map (\<lambda>fs. nmea_sentence (csv_join fs))
     [[''PUNVCPRT'', ''-18.45'', ''12.5'', ''1''], [''PUNVCSTB'', ''14.12'', ''12.5'', ''1'']]"
proof -
  have nums: "nat_str 2 = ''2''" "nat_str 101 = ''101''" "nat_str 102 = ''102''"
    by (simp_all add: decimal_digits)
  show "encoder_self_test = map (\<lambda>fs. nmea_sentence (csv_join fs))
      [[''PUNVCSTR'', ''14.25'', ''L'', ''15.0''], [''PUNVCPRP'', ''45200.5'', ''480.0'', ''42.1'']]"
    unfolding encoder_self_test_def serialize_rudder_command_def serialize_propulsion_command_def Let_def demo_headers
    by (simp add: encoder_packet_def dget_def demo_numbers [simplified])
  show "weapon_self_test = map (\<lambda>fs. nmea_sentence (csv_join fs))
      [[''PUNVCEW'', ''1'', ''12.00'', ''0.0'', ''0''], [''PUNVCEW'', ''2'', ''45.32'', ''18450.0'', ''1'']]"
    unfolding weapon_self_test_def serialize_jammer_suppression_commands_def demo_headers
    by (simp add: mock_allocations_def serialize_allocation_def mount_id_map_def dget_def nums demo_numbers [simplified])
  show "shore_self_test = map (\<lambda>fs. nmea_sentence (csv_join fs))
      [[''PUNVCSHR'', ''101'', ''142.55'', ''22.40'', ''1''], [''PUNVCSHR'', ''102'', ''142.55'', ''22.40'', ''0'']]"
    unfolding shore_self_test_def serialize_shore_fire_commands_def demo_headers
    by (simp add: mock_batteries_def mock_buffer_def serialize_shore_weapon_def shore_interlock_bit_def shore_battery_catalog_def
        dget_def dflag_def nums demo_numbers [simplified])
  show "asymmetric_self_test = map (\<lambda>fs. nmea_sentence (csv_join fs))
      [[''PUNVCPRT'', ''-18.45'', ''12.5'', ''1''], [''PUNVCSTB'', ''14.12'', ''12.5'', ''1'']]"
    unfolding asymmetric_self_test_def serialize_asymmetric_actuator_channels_def asymmetric_sentence_def Let_def demo_headers
    by (simp add: mock_stabilizer_def demo_numbers [simplified])
qed

text \<open>What the encoders' scripts print: frames that pass the receivers' checksum test and split back into the
  announced fields. The battery with its cable disconnected gets a fire bit of 0, the mount on the jammer an
  override bit of 1, and a rudder order to port is a magnitude with the letter L.
\<close>

theorem encoder_self_tests_read:
  "map (sentence_fields \<circ> py_strip) (encoder_self_test @ weapon_self_test @ shore_self_test @ asymmetric_self_test) =
     [[''$PUNVCSTR'', ''14.25'', ''L'', ''15.0''], [''$PUNVCPRP'', ''45200.5'', ''480.0'', ''42.1''],
      [''$PUNVCEW'', ''1'', ''12.00'', ''0.0'', ''0''], [''$PUNVCEW'', ''2'', ''45.32'', ''18450.0'', ''1''],
      [''$PUNVCSHR'', ''101'', ''142.55'', ''22.40'', ''1''], [''$PUNVCSHR'', ''102'', ''142.55'', ''22.40'', ''0''],
      [''$PUNVCPRT'', ''-18.45'', ''12.5'', ''1''], [''$PUNVCSTB'', ''14.12'', ''12.5'', ''1'']]
   \<and> list_all (validate_checksum \<circ> py_strip) (encoder_self_test @ weapon_self_test @ shore_self_test @ asymmetric_self_test)"
  unfolding demo_payloads by (simp add: sealed_csv plain_field_def del: csv_join.simps)

end
