(* ===== verification/Drills.thy ===== *)
theory Drills
  imports Self_Tests Targeting Authority Hal Watchdogs Config_Tcp
begin

text \<open>
  The scripts at the end of the control and equipment modules, as the values they print. The clock readings
  are arguments, so each result is proved for whatever the clock says. Printing and sleeping are left out.
\<close>

section \<open>A plant put through its scenarios\<close>

fun scenario :: "('s \<Rightarrow> 'i \<Rightarrow> 's \<times> 'o) \<Rightarrow> 's \<Rightarrow> 'i list \<Rightarrow> 'o list" where
  "scenario f s [] = []"
| "scenario f s (i # is) = (let (s', out) = f s i in out # scenario f s' is)"

lemma scenario_length [simp]: "length (scenario f s is) = length is"
  by (induction "is" arbitrary: s) (simp_all add: split_beta Let_def)

lemma scenario_nth: "k < length is \<Longrightarrow> scenario f s is ! k = snd (f (foldl (\<lambda>s i. fst (f s i)) s (take k is)) (is ! k))"
proof (induction "is" arbitrary: s k)
  case (Cons i "is")
  then show ?case by (cases k) (simp_all add: split_beta Let_def)
qed simp

section \<open>Interlocks\<close>

definition weapon_idle :: num_dict where
  "weapon_idle = [''azimuth_rate_rads'' \<mapsto> 0, ''elevation_rate_rads'' \<mapsto> 0, ''bus_sync_active'' \<mapsto> 0]"

definition weapon_active :: num_dict where
  "weapon_active = [''azimuth_rate_rads'' \<mapsto> 0.15, ''elevation_rate_rads'' \<mapsto> 0.05, ''bus_sync_active'' \<mapsto> 1]"

definition anchor_drill :: "(anchor_mode \<times> string) list" where
  "anchor_drill = map (\<lambda>r. (anchor_lock_state r, telemetry_status_message r))
     (scenario (\<lambda>p (w, u). evaluate_anchor_safety_matrix p w u) anchor_init
        [(weapon_idle, False), (weapon_active, False), (weapon_idle, False), (weapon_idle, True)])"

text \<open>The anchor goes through release, lock, hold and the release by the Navy, each with its message.\<close>

theorem anchor_drill_passes:
  "anchor_drill = [(RELEASED, ''NOMINAL: Sea Machines autonomous anchor loop active.''),
     (LOCKED_EMERGENCY, ''CRITICAL: Weapons Awake. Anchor Interlock Forced LOCKED.''),
     (LOCKED_EMERGENCY, ''HOLD: Weapons Secure. Awaiting Manual Navy Unlock Command.''),
     (RELEASED, ''NOMINAL: Navy Override Active. Anchor released to Sea Machines.'')]"
  by (simp add: anchor_drill_def evaluate_anchor_safety_matrix_def weapon_is_awake_def weapon_idle_def
      weapon_active_def anchor_init_def dget_def dflag_def)

definition flag_drill :: "real \<Rightarrow> real \<Rightarrow> real \<Rightarrow> (flag_state \<times> real) list" where
  "flag_drill t0 t1 t2 = map (\<lambda>r. (active_flag_state_string r, commanded_halyard_motor_position_pct r))
     (scenario (\<lambda>p (t, w). evaluate_flag_logic_matrix p t w
        [''distance_to_bank_meters'' \<mapsto> 100, ''shallow_water_slowdown_active'' \<mapsto> 0]) (flag_init t0)
        [(t1, [''azimuth_rate_rads'' \<mapsto> 0, ''bus_sync_active'' \<mapsto> 0]),
         (t2, [''azimuth_rate_rads'' \<mapsto> 0.12, ''bus_sync_active'' \<mapsto> 1])])"

text \<open>What is printed as the motor target is the position after one step: 10 percent, not the 100 ordered.\<close>

theorem flag_drill_shows_position: "flag_drill t0 t1 t2 = [(ENSIGN, 0), (COMBAT, 10)]"
  using py_round_grid [of 10 1 100]
  by (simp add: flag_drill_def evaluate_flag_logic_matrix_def flag_target_def flag_init_def dget_def dflag_def)

section \<open>Bilge and shore authority\<close>

definition valve_wish :: "real \<Rightarrow> real \<Rightarrow> num_dict" where
  "valve_wish overboard recirc = [''actuator_overboard_valve_open'' \<mapsto> overboard, ''actuator_recirculation_valve_open'' \<mapsto> recirc]"

definition bilge_router_drill :: "real \<Rightarrow> (nat \<Rightarrow> real) \<Rightarrow> (string \<times> real) list" where
  "bilge_router_drill t0 clock = map (\<lambda>v. (resolved_mode v, resolved_overboard_valve_open v))
     (scenario (\<lambda>r (k, request).
        let r = (case request of None \<Rightarrow> r | Some mode \<Rightarrow> fst (set_control_authority r (mode, clock (2 * k))))
        in (r, resolve_final_actuator_commands r (clock (2 * k + 1)) (valve_wish 1 0) (valve_wish 0 1) (valve_wish 0 0)))
        (bilge_router_init t0) [(0, None), (1, Some ''REPLACEMENT''), (2, Some ''SEA_MACHINES'')])"

theorem bilge_router_drill_passes:
  "bilge_router_drill t0 clock = [(''UNIVAC'', 1), (''REPLACEMENT'', 0), (''SEA_MACHINES'', 0)]"
proof -
  have up: "py_strip (py_upper ''REPLACEMENT'') = ''REPLACEMENT''" "py_strip (py_upper ''SEA_MACHINES'') = ''SEA_MACHINES''"
    by code_simp+
  show ?thesis
    by (simp add: bilge_router_drill_def bilge_router_init_def set_control_authority_def up
        resolve_final_actuator_commands_def valve_commands_def valve_wish_def dget_def Let_def)
qed

definition bilge_telemetry :: "real \<Rightarrow> real \<Rightarrow> num_dict" where
  "bilge_telemetry roll_rate pitch = [''roll_rate_rads'' \<mapsto> roll_rate, ''pitch_angle_rad'' \<mapsto> pitch, ''bilge_pump_active_relay'' \<mapsto> 1]"

definition bilge_gating_drill :: "real \<Rightarrow> real \<Rightarrow> real \<Rightarrow> real \<Rightarrow> bilge_report list" where
  "bilge_gating_drill t0 t1 t2 t3 =
     scenario (\<lambda>g (t, tele, ppm). evaluate_discharge_safety_matrix g t tele ppm) (bilge_gate_init 14.8 t0)
       [(t1, bilge_telemetry 0.01 0, 3.2), (t2, bilge_telemetry 0.15 0.02, 9.5), (t3, bilge_telemetry 0.01 0, 16.4)]"

text \<open>Only the clean water of the first test goes over the side; the two others recirculate, and add nothing.\<close>

theorem bilge_gating_drill_passes:
  "map (\<lambda>r. (gating_valve_state_string r, actuator_overboard_valve_open r)) (bilge_gating_drill t0 t1 t2 t3)
     = [(DISCHARGING_OVERBOARD, 1), (RECIRCULATING_FAULT, 0), (RECIRCULATING_FAULT, 0)]
   \<and> map total_clean_water_discharged_liters (bilge_gating_drill t0 t1 t2 t3) = replicate 3 (py_round 1 (5 * (t1 - t0)))"
  by (simp add: bilge_gating_drill_def evaluate_discharge_safety_matrix_def bilge_gate_init_def bilge_telemetry_def
      is_sloshing_severe_def dget_def dflag_def numeral_3_eq_3)

definition mock_mainframe :: num_dict where
  "mock_mainframe = [''crane_hoist_power_pct'' \<mapsto> 0, ''substation_breaker_relay'' \<mapsto> 1, ''sump_pump_override_relay'' \<mapsto> 0,
     ''hvac_dehumidifier_setpoint'' \<mapsto> 45]"

definition mock_network :: num_dict where
  "mock_network = [''crane_hoist_power_pct'' \<mapsto> - 50, ''substation_breaker_relay'' \<mapsto> 1, ''sump_pump_override_relay'' \<mapsto> 1,
     ''hvac_dehumidifier_setpoint'' \<mapsto> 30]"

definition base_drill :: "real \<Rightarrow> (nat \<Rightarrow> real) \<Rightarrow> (string \<times> nat \<times> real) list" where
  "base_drill t0 clock = map (\<lambda>r. (resolved_infrastructure_source r,
       sump_pump_override_relay (dispatched_actuator_cache r), crane_hoist_power_pct (dispatched_actuator_cache r)))
     (scenario (\<lambda>c (k, request).
        let c = (case request of None \<Rightarrow> c | Some mode \<Rightarrow> fst (set_base_routing_authority c (mode, clock (2 * k))))
        in execute_infrastructure_update_step c (clock (2 * k + 1)) mock_network mock_mainframe)
        (base_core_init t0) [(0, None), (1, Some ''NETWORK_OVERRIDE'')])"

theorem base_drill_passes:
  "base_drill t0 clock = [(''UNIVAC_MAINFRAME_PASS_THROUGH'', 0, 0), (''NETWORK_REMOTE_CONSOLE'', 1, - 50)]"
proof -
  have up: "py_strip (py_upper ''NETWORK_OVERRIDE'') = ''NETWORK_OVERRIDE''" by code_simp
  show ?thesis
    by (simp add: base_drill_def base_core_init_def set_base_routing_authority_def up execute_infrastructure_update_step_def
        resolve_base_cache_def mock_mainframe_def mock_network_def relay_bit_def py_int_def clamp_def dget_def Let_def)
qed

section \<open>Encoders and signals\<close>

definition gray_drill :: "real \<Rightarrow> real \<Rightarrow> gray_telemetry" where
  "gray_drill t0 t = decode_cray_gray_word (gray_init t0) t 4 4"

theorem gray_drill_passes:
  "decoded_binary_integer (gray_drill t0 t) = 7 \<and> calibrated_shaft_angle_deg (gray_drill t0 t) = 157.5"
proof -
  have "gray_loop 4 4 = 7" by (simp add: gray_loop.simps)
  then show ?thesis
    using py_round_grid [of "157.5" 2 15750] by (simp add: gray_drill_def decode_cray_gray_word_def)
qed

definition hal_drill :: "(int \<times> nat list \<times> string) option list" where
  "hal_drill = scenario (\<lambda>h model.
     let h = fst (clear_interlocks_for_model h model)
     in (h, case pack_native_word_to_64bit h 0xFFFFFFFFFFFFFFFF of None \<Rightarrow> None
            | Some clean \<Rightarrow> map_option (\<lambda>(b, proto). (clean, b, proto)) (unpack_64bit_to_native_bytes h clean)))
     hal_init [''1219'', ''1108'', ''494'']"

text \<open>The word of ones comes out as the mask of the model. The second mask has 32 bits for a word of 36, and holes:
  the test named after the 36-bit mask constraint prints \<open>0FFAAAAAA\<close>.\<close>

theorem hal_drill_shows_masks:
  "hal_drill = [Some (0x3FFFF, [3, 255, 255], ''MIL_STD_1397_A''),
     Some (0xFFAAAAAA, [0, 255, 170, 170, 170], ''SCIENTIFIC_EXTENDED''),
     Some (0x3FFFFFFF, [63, 255, 255, 255], ''NTDS_PARALLEL_B'')]"
  by code_simp

definition mac_drill :: "real \<Rightarrow> real \<Rightarrow> (string \<times> bool) list" where
  "mac_drill t1 t2 = map (\<lambda>r. (computed_alignment_mac r, hardware_lock_secured r))
     [compute_lowest_possible_handshake_mac ''EARLY_AEGIS_CRUISER'' t1 1 0 0 0,
      compute_lowest_possible_handshake_mac ''ENTERPRISE_CARRIER'' t2 0 1 1 42]"

theorem mac_drill_passes: "mac_drill t1 t2 = [(''00:00:A3:00:00:05'', True), (''00:1D:6E:01:2A:02'', True)]"
proof -
  have keys: "py_strip (py_upper ''EARLY_AEGIS_CRUISER'') = ''EARLY_AEGIS_CRUISER''"
    "py_strip (py_upper ''ENTERPRISE_CARRIER'') = ''ENTERPRISE_CARRIER''" by code_simp+
  have octets: "fmt_02X 0 = ''00''" "fmt_02X 5 = ''05''" "fmt_02X (Suc 0) = ''01''" "fmt_02X 42 = ''2A''" "fmt_02X 2 = ''02''"
    by code_simp+
  have ouis: "dget vessel_oui_catalog ''EARLY_AEGIS_CRUISER'' d = ''00:00:A3''"
    "dget vessel_oui_catalog ''ENTERPRISE_CARRIER'' d = ''00:1D:6E''" for d
    by (simp_all add: vessel_oui_catalog_def dget_def)
  show ?thesis
    by (simp add: mac_drill_def compute_lowest_possible_handshake_mac_def keys ouis latch_octet_cases clamp_def octets)
qed

definition modulator_drill :: "(nat \<Rightarrow> real) \<Rightarrow> (string \<times> real \<times> bool) list" where
  "modulator_drill clock = map (\<lambda>(k, flux). let r = modulate_flux_to_hex_spectrum 4 (clock k) flux
     in (hex_crest_trough_snippet r, quantized_voltage_output r, signal_saturation_alert r)) [(0, 0), (1, 52.4), (2, 98.5)]"

definition led_drill :: "real \<Rightarrow> real \<Rightarrow> valve_state option list" where
  "led_drill t1 t2 = [led_vacuum_transfer_step 25 8500 t1 (- 2) 150, led_vacuum_transfer_step 25 8500 t2 1 150]"

lemma quantized_step_at: "0 \<le> f \<Longrightarrow> f \<le> 100 \<Longrightarrow> real k \<le> f / 100 * 15 \<Longrightarrow> f / 100 * 15 < real k + 1 \<Longrightarrow> quantized_step f = k"
  by (simp add: quantized_step_def clamp_def floor_eq4)

text \<open>Trough, midband and crest; of the three only the crest raises the alert.\<close>

theorem modulator_drill_passes:
  "modulator_drill clock = [(''0x0'', 0, False), (''0x7'', py_round 3 (28 / 15), False), (''0xE'', py_round 3 (56 / 15), True)]"
proof -
  have "quantized_step 0 = 0" "quantized_step 52.4 = 7" "quantized_step 98.5 = 14" by (simp_all add: quantized_step_at)
  moreover have "hex_str 0 = ''0''" "hex_str 7 = ''7''" "hex_str 14 = ''E''" by code_simp+
  ultimately show ?thesis by (simp add: modulator_drill_def modulate_flux_to_hex_spectrum_def)
qed

text \<open>The tube at its standard negative bias already emits the whole range of the modulator: scenario A of the tube is
  a crest with alert for the modulator, and the second scenario, announced as intense, is not saturated either.\<close>

theorem standard_bias_is_a_crest:
  "\<exists>a b. led_drill t1 t2 = [Some a, Some b]
    \<and> simulated_led_photon_flux_lumen a = 100 \<and> \<not> valve_saturation_fault a \<and> \<not> valve_saturation_fault b
    \<and> anode_plate_current_ma a = 11.76 \<and> anode_plate_current_ma b = 20.59
    \<and> signal_saturation_alert (modulate_flux_to_hex_spectrum 4 t (simulated_led_photon_flux_lumen a))
    \<and> hex_crest_trough_snippet (modulate_flux_to_hex_spectrum 4 t (simulated_led_photon_flux_lumen a)) = ''0xF''"
proof -
  have "(4::real) powr 1.5 = (4 powr (1 / 2)) ^ 3" by (simp add: powr_powr flip: powr_realpow)
  then have "(4::real) powr 1.5 = 8" by (simp add: powr_half_sqrt real_sqrt_four)
  then have flux: "py_round 2 (12.5 * 4 powr 1.5) = 100" using py_round_grid [of 100 2 10000] by simp
  have current: "py_round 2 (200 / 17) = 11.76" "py_round 2 (350 / 17) = 20.59"
    by (simp_all add: py_round_def round_half_even_def)
  have "quantized_step 100 = 15" by (simp add: quantized_step_at)
  moreover have "hex_str 15 = ''F''" by code_simp
  ultimately show ?thesis using flux current
    by (simp add: led_drill_def led_vacuum_transfer_step_def modulate_flux_to_hex_spectrum_def Let_def)
qed

section \<open>Targeting\<close>

definition weapons_inventory :: "mount list" where
  "weapons_inventory =
     [\<lparr>mount_id = ''MAIN_5IN_MK45'', is_engaged = True, current_azimuth = 12\<rparr>,
      \<lparr>mount_id = ''AUX_76MM_MK75'', is_engaged = False, current_azimuth = 0\<rparr>,
      \<lparr>mount_id = ''PORT_CIWS_MK15'', is_engaged = False, current_azimuth = 270\<rparr>]"

definition jammer_drill :: "real \<Rightarrow> (real \<times> real \<times> (string \<times> string \<times> real) list) option" where
  "jammer_drill pole = map_option (\<lambda>s. (range_meters (computed_jammer_state s), bearing_true_deg (computed_jammer_state s),
       map (\<lambda>c. (command_mount_id c, allocation_status c, ordered_azimuth_deg c)) (allocate_idle_weapons s weapons_inventory)))
     (compute_jammer_location pole (jammer_system_init 0 0) 45 [''strobe_deg'' \<mapsto> 315, ''x_m'' \<mapsto> 15000, ''y_m'' \<mapsto> 5000])"

text \<open>The jammer stands 10 km east and 10 km north; the two idle mounts get its bearing.\<close>

theorem jammer_drill_passes:
  "jammer_drill pole = Some (10000 * sqrt 2, 45, [(''MAIN_5IN_MK45'', ''NOMINAL'', 12),
     (''AUX_76MM_MK75'', ''OVERRIDE_ACTIVE'', 45), (''PORT_CIWS_MK15'', ''OVERRIDE_ACTIVE'', 45)])"
proof -
  have own: "(10000, 10000) = seen_from (own_x (jammer_system_init 0 0)) (own_y (jammer_system_init 0 0)) (10000 * sqrt 2) 45"
    by (simp add: seen_from_def jammer_system_init_def radians_45)
  have partner: "(10000, 10000) = seen_from 15000 5000 (5000 * sqrt 2) 315" by (simp add: seen_from_def radians_45)
  have "sqrt 2 < sqrt 4" by (rule real_sqrt_less_mono) simp
  then have r: "0 < 10000 * sqrt 2" "10000 * sqrt 2 < 150000" by simp_all
  have s: "sin (radians 45) \<noteq> 0" "sin (radians 315) \<noteq> 0" by (simp_all add: radians_45)
  have apart: "0.001 \<le> \<bar>py_tan pole (radians (90 - 45)) - py_tan pole (radians (90 - 315))\<bar>"
    by (simp only: py_tan_def tan_def strobe_angle radians_45) simp
  have "py_mod 45 360 = 45" "py_round 2 45 = 45" using py_round_grid [of 45 2 4500] by (simp_all add: py_mod_def)
  then show ?thesis
    using triangulation_exact [OF own partner r s apart]
    by (simp add: jammer_drill_def allocate_idle_weapons_def weapons_inventory_def)
qed

section \<open>Network\<close>

definition command_drill :: "(string \<times> setpoints) outcome" where
  "command_drill = (case validate_and_update_targets setpoints_init
       (JObj [(''rpm'', JNum (Fin 450)), (''target_yaw_rate'', JNum (Fin 0.05))]) of
     Exn e \<Rightarrow> Exn e | Ret (s, is_valid, msg) \<Rightarrow> Ret (msg, get_latest_targets s))"

theorem command_drill_passes:
  "command_drill = Ret (''ACCEPTED: Targets updated successfully'', \<lparr>sp_rpm = 450, sp_yaw = 0.05\<rparr>)"
  by (simp add: command_drill_def validate_and_update_targets_def setpoints_init_def get_latest_targets_def
      json_real_def)

definition router_drill :: "real \<Rightarrow> pynum option" where
  "router_drill now = get_synchronized_telemetry
     (ingest_raw_serial_line (start_router_services (router_init ''UNVC''))
        (''$SDDBT,24.6,f,8.40,M,4.1,F*0E'' @ crlf) now) ''depth''"

text \<open>The sentence carries the wrong checksum, so the script prints the depth the parser starts with, 50 metres, as
  its verification; with the right checksum the cache has the 8.40 of the comment.\<close>

theorem router_drill_shows_default:
  "router_drill now = Some (Fin 50)
   \<and> get_synchronized_telemetry (ingest_raw_serial_line (start_router_services (router_init ''UNVC''))
        (''$SDDBT,24.6,f,8.40,M,4.1,F*0F'' @ crlf) now) ''depth'' = Some (Fin 8.4)"
proof -
  let ?r = "start_router_services (router_init ''UNVC'')" and ?bad = "''$SDDBT,24.6,f,8.40,M,4.1,F*0E'' @ crlf"
  have r: "r_parser ?r = nmea_parser_init" by (simp add: start_router_services_def router_init_def)
  have "\<not> validate_checksum (py_strip ?bad)" by code_simp
  then have "parse_sentence nmea_parser_init ?bad now = nmea_parser_init" by (rule sensors.drops)
  moreover have "fmt_fixed 2 8.4 = ''8.40''" by (rule fmt_fixed_exact [where m = 840]; simp add: decimal_digits)
  moreover have "nmea_sentence (csv_join [''SD'' @ ''DBT'', ''24.6'', ''f'', ''8.40'', ''M'', ''4.1'', ''F'']) = ''$SDDBT,24.6,f,8.40,M,4.1,F*0F'' @ crlf"
    by code_simp
  moreover have "py_round 2 8.4 = 8.4" using py_round_grid [of "8.4" 2 840] by simp
  ultimately show ?thesis
    using depth_sentence_readback [of "''SD''" "''24.6''" "''4.1''" "''0.5''" "8.4" nmea_parser_init 2 now]
    by (simp add: router_drill_def get_synchronized_telemetry_def live_telemetry_cache_def ingest_raw_serial_line_def r
        set_cache_def nmea_parser_init_def plain_field_def)
qed

section \<open>Watchdogs\<close>

text \<open>The four pokes with their clock readings, checks of the monitor thread anywhere, and the diagnostics after its
  last check: the fault flag and the tripped list.\<close>

definition watchdog_drill :: "real \<Rightarrow> watch_event list \<Rightarrow> real \<Rightarrow> bool \<times> string list" where
  "watchdog_drill t0 es t =
     (let w = monitor_check (watch_run (started 0.5 t0) es) t; (_, fault, tripped) = get_watchdog_diagnostics w t
      in (fault, lists w ! tripped))"

definition drill_pokes :: "(string \<times> real) list \<Rightarrow> bool" where
  "drill_pokes ps \<longleftrightarrow> map fst ps = [''MAIN_CORE_MATH'', ''NMEA_SERIAL_IN'', ''WEAPON_BUS_IN'', ''TCP_COMMAND_IN'']"

text \<open>Wherever the checks fall between the pokes, once the pause has lasted longer than half a second the report names
  all four threads; as long as it has not, the report is clean.\<close>

theorem watchdog_drill_passes:
  assumes "drill_pokes (pokes es)" "\<forall>p \<in> set (pokes es). t1 \<le> snd p \<and> snd p \<le> t2"
  shows "0.5 < t - t2 \<Longrightarrow> watchdog_drill t0 es t = (True, thread_names)"
    and "t - t1 \<le> 0.5 \<Longrightarrow> watchdog_drill t0 es t = (False, [])"
proof -
  obtain a b c d where ps: "pokes es = [(''MAIN_CORE_MATH'', a), (''NMEA_SERIAL_IN'', b), (''WEAPON_BUS_IN'', c), (''TCP_COMMAND_IN'', d)]"
    using assms(1) by (auto simp: drill_pokes_def map_eq_Cons_conv)
  have "t1 \<le> last_beat t0 es n \<and> last_beat t0 es n \<le> t2" if "n \<in> set thread_names" for n
    using that assms(2) by (auto simp: ps thread_names_def last_beat_def)
  then have "0.5 < t - t2 \<Longrightarrow> filter (\<lambda>n. t - last_beat t0 es n > 0.5) thread_names = thread_names"
    and "t - t1 \<le> 0.5 \<Longrightarrow> filter (\<lambda>n. t - last_beat t0 es n > 0.5) thread_names = []"
    by (fastforce simp: filter_id_conv filter_empty_conv)+
  then show "0.5 < t - t2 \<Longrightarrow> watchdog_drill t0 es t = (True, thread_names)"
    and "t - t1 \<le> 0.5 \<Longrightarrow> watchdog_drill t0 es t = (False, [])"
    using watchdog_verdict_exact [of "0.5" t0 es t]
    by (simp_all add: watchdog_drill_def get_watchdog_diagnostics_def Let_def thread_names_def)
qed

text \<open>The ledgers: three write reports, a queue of twelve entered by hand, checks, and the diagnostics after the last.\<close>

definition ledger_drill :: "real \<Rightarrow> real \<Rightarrow> real \<Rightarrow> real \<Rightarrow> real list \<Rightarrow> real \<Rightarrow> bool \<times> string list" where
  "ledger_drill t0 a b c ts t =
     (let w = start_ledger_watchdog (ledger_watchdog_init 0.5 t0) t0;
          w = foldl log_write_success w [(''FLAG_HALYARD_AUDIT'', 0, a), (''MARPOL_BILGE_AUDIT'', 0, b), (''MISSION_TELEMETRY'', 0, c)];
          w = w\<lparr>ledger_queue_depths := touch ''FLAG_HALYARD_AUDIT'' 12 (ledger_queue_depths w)\<rparr>;
          w = integrity_check (foldl integrity_check w ts) t;
          (_, fault, tripped) = get_ledger_diagnostics w t
      in (fault, l_lists w ! tripped))"

lemma integrity_checks_frame:
  "ledger_heartbeats (foldl integrity_check w ts) = ledger_heartbeats w"
  "ledger_queue_depths (foldl integrity_check w ts) = ledger_queue_depths w"
  "l_timeout (foldl integrity_check w ts) = l_timeout w" "l_monitoring (foldl integrity_check w ts) = l_monitoring w"
  "tripped_ledgers w < length (l_lists w) \<Longrightarrow> tripped_ledgers (foldl integrity_check w ts) < length (l_lists (foldl integrity_check w ts))"
  by (induction ts rule: rev_induct) (auto simp: integrity_check_def Let_def)

text \<open>The halyard ledger trips when its last write is more than half a second old, and it alone: the other two are as
  old, but have nothing queued.\<close>

theorem ledger_drill_passes:
  "ledger_drill t0 a b c ts t = (if 0.5 < t - a then (True, [''FLAG_HALYARD_AUDIT'']) else (False, []))"
proof -
  have up: "py_strip (py_upper ''FLAG_HALYARD_AUDIT'') = ''FLAG_HALYARD_AUDIT''" "py_strip (py_upper ''MARPOL_BILGE_AUDIT'') = ''MARPOL_BILGE_AUDIT''"
    "py_strip (py_upper ''MISSION_TELEMETRY'') = ''MISSION_TELEMETRY''" by code_simp+
  let ?w = "\<lparr>l_timeout = 0.5, l_monitoring = True,
    ledger_heartbeats = [(''FLAG_HALYARD_AUDIT'', a), (''MARPOL_BILGE_AUDIT'', b), (''MISSION_TELEMETRY'', c)],
    ledger_queue_depths = [(''FLAG_HALYARD_AUDIT'', 12), (''MARPOL_BILGE_AUDIT'', 0), (''MISSION_TELEMETRY'', 0)],
    l_faulted = False, tripped_ledgers = 0, l_lists = [[]]\<rparr>"
  define v where "v = foldl integrity_check ?w ts"
  have v: "ledger_heartbeats v = ledger_heartbeats ?w" "ledger_queue_depths v = ledger_queue_depths ?w"
    "l_timeout v = l_timeout ?w" "l_monitoring v = l_monitoring ?w" "tripped_ledgers v < length (l_lists v)"
    unfolding v_def by (simp_all add: integrity_checks_frame)
  have "ledger_drill t0 a b c ts t =
      (let w = integrity_check v t; (_, fault, tripped) = get_ledger_diagnostics w t in (fault, l_lists w ! tripped))"
    by (simp add: ledger_drill_def v_def start_ledger_watchdog_def ledger_watchdog_init_def ledger_names_def
        log_write_success_def touch_def up Let_def)
  then show ?thesis
    using v(5) by (simp add: integrity_check_def get_ledger_diagnostics_def ledger_late_def v(1-4) dget_def Let_def)
qed

end
