(* ===== verification/Spec2Isabelle.thy ===== *)
theory Spec2Isabelle
  imports Authority Bridge_Router Watchdogs Audit_Ledger Hal Config_Tcp Engine Targeting Loopback
    Museum_Final Tcp_Server Boot_Manifest Consoles Serial_Listener Typer_Node Stress_Antenna
    Shore_Logger Tactical_Consoles Feature_Library Console_Panels Main_Fragments Main_Boot
    Main_Timing Drills
begin

text \<open>
  Verification library of the UNIVAC replacement bridge: the control software of a ship's
  bridge, written in Python. Sensors and gun mounts talk to it over serial lines in NMEA
  sentences, an operator sends setpoints over TCP as JSON lines, a control engine computes motor
  torque and rudder angle each cycle, serialisers turn the commands into sentences for the
  actuators, interlocks guard anchor, flag, bilge and shore equipment, loggers keep
  hash-chained audit ledgers that a boot suite inspects, and watchdogs supervise the threads.

  Theories, from the bottom up.

  \<^item> \<open>Prelude\<close>: clamping, angles, Python's float modulus and rounding, dictionaries of numbers.
  \<^item> \<open>Py_Math\<close>: division, roots, logarithms, powers and inverse trigonometry of Python with their
    domain errors as \<open>None\<close>.
  \<^item> \<open>Py_Text\<close>: the string operations, number formats and number readers of Python the code
    uses, with \<open>inf\<close> and \<open>nan\<close> where text is read.
  \<^item> \<open>Nmea_Frame\<close>: checksum, sealing and checking of a sentence
    (\<open>actuator_serial_serializer.py\<close>, \<open>nmea_serial_parser.py\<close>); the locale \<open>checked_link\<close> is what
    the parsers rely on.
  \<^item> \<open>Serializers\<close>: rudder, propulsion, weapon, shore and asymmetric sentences, the UDP interface
    (\<open>*_serializer.py\<close>, \<open>bridge_network_interface.py\<close>).
  \<^item> \<open>Nmea_Parsers\<close>: sensor, weapon bus, asynchronous weapon and aviation parsers. The locale
    \<open>guarded_receiver\<close> (what fails its checksum leaves the state alone) is interpreted on all four.
  \<^item> \<open>Bridge_Router\<close>: actuator feedback with jam detection, and the router with the cache it shares
    with the parser (\<open>actuator_telemetry_receiver.py\<close>, \<open>bridge_network_router.py\<close>).
  \<^item> \<open>Interlocks\<close>: anchor windlass and flag changer; locales \<open>latch\<close> and \<open>authority_gate\<close>.
  \<^item> \<open>Authority\<close>: bilge discharge gate, bilge authority router, shore infrastructure core, central
    warning registry.
  \<^item> \<open>Watchdogs\<close>: thread and ledger watchdogs; locale \<open>known_register\<close>.
  \<^item> \<open>Audit_Ledger\<close>: the hash-chained loggers and the mission logger with the start and stop of
    their writer threads, and the boot suite's inspection.
  \<^item> \<open>Hal\<close>: word widths of the UNIVAC models, Gray code, MAC alignment, handshake audit, flux modulator.
  \<^item> \<open>Config_Tcp\<close>: configuration loader and TCP command listener over JSON values.
  \<^item> \<open>Hydro\<close>: wave processor, bank suction tables, channel trim, roll stabiliser, coordinated predictor.
  \<^item> \<open>Engine\<close>: the bridge execution engine, one cycle and whole watches.
  \<^item> \<open>Targeting\<close>: triangulation and weapons allocation, dead reckoning, ballistics, passive sonar,
    gun mass matrix, tube emulator, cognitive ring.
  \<^item> \<open>Loopback\<close>: the serial loopback test and what the serial listener does with one line.
  \<^item> \<open>Serial_Listener\<close>: the listener's reader threads, faults, emulation, start and stop, with the router
    they feed (\<open>serial_port_listener.py\<close>).
  \<^item> \<open>Tcp_Server\<close>: the life cycle of the TCP server and its refinement to a register of setpoints.
  \<^item> \<open>Boot_Manifest\<close>: reading the hardware manifest, boot stage 6 and the constructor of the boot
    suite (\<open>hardware_serial_validator.py\<close>, \<open>hardware_network_validator.py\<close>,
    \<open>boot_verification_suite.py\<close>).
  \<^item> \<open>Museum_Physics\<close> (nodes 1 to 60), \<open>Museum_Systems\<close> (61 to 140), \<open>Museum_Final\<close> (158 to 313): the
    formulas of \<open>museum_history_matrix.py\<close>, one definition whose name starts with \<open>equation_\<close>, per function.
  \<^item> \<open>Consoles\<close>: one refresh tick of the bilge dashboard and of the flag alert console
    (\<open>bilge_monitor_dashboard.py\<close>, \<open>flag_alert_console.py\<close>); \<open>Typer_Node\<close>: the character typer
    (\<open>async_typer_node.py\<close>); \<open>Stress_Antenna\<close>: the encoder stress test and the antenna tuner.
  \<^item> \<open>Shore_Logger\<close>: the shore facility logger (\<open>shore_audit_logger.py\<close>) as a refinement of the chained
    logger with a live endpoint; \<open>Tactical_Consoles\<close>: trackers and painting of
    \<open>buffered_tactical_console.py\<close> and \<open>config_linked_console.py\<close>; \<open>Feature_Library\<close>: the four feature
    classes of \<open>univac_features_library.py\<close>, with the wave features compared to their two other copies.
    \<open>Console_Strobe\<close>: the lead compensation and the jammer mark pasted into the first console;
    \<open>Console_Panels\<close>: the text panels of both, which read back as the registers they show.
    These files do not parse as shipped; their methods and fragments are read with the indentation they lost.
  \<^item> \<open>Main_Cycle\<close>: the 50 Hz loop of \<open>main.py\<close> over the components above: the objects of the bootstrap,
    one turn as a list of stages that may raise, the bounded transmit queue with its worker, and the events
    between the turns. \<open>Main_Watch\<close> proves what holds over whole watches; \<open>Main_Boot\<close> is the boot
    sequence before it and what the configuration checks mean for its orders; \<open>Main_Fragments\<close> models the
    pieces pasted around the loop. The two calls of the loop that fail as shipped are entries of the
    record \<open>wiring\<close>: \<open>shipped_wiring\<close> is the program as it stands, \<open>repaired\<close> says that both return.
  \<^item> \<open>Pacing\<close>: the two ways the background loops keep time (a fixed pause, or the rest of the interval), with the
    detection time of the thread watchdog; \<open>Main_Timing\<close>: the 50 Hz loop against the wall clock, and the path from a
    frozen audit ledger over the ledger watchdog to a torque of zero, in seconds.
  \<^item> \<open>Self_Tests\<close>: the scripts at the end of the serialisers and receivers under \<open>network_layer\<close>: what
    the encoders print reads back as announced, and no receiver is ever tested by its own script. \<open>Drills\<close>: the scripts of interlocks, authorities,
    encoders, targeting, command server, router and watchdogs, for any clock readings.

  How the code is read. An object is a record of its registers and each method a function from
  the record and the arguments to the new record and the result; raised exceptions are \<open>None\<close> or
  the constructor of an outcome type; reading the clock is an argument. A background thread is
  modelled by its loop body as one step, and statements about it quantify over all sequences of
  such steps and of the public operations, so no interleaving of whole operations is left out;
  the data races of unlocked fields inside one operation are not modelled. Floats are exact reals:
  rounding errors are outside the model, and where a float artefact decides (the tangent of a
  right angle, numbers read from text) it is a parameter or the type \<open>pynum\<close>. Dictionaries of
  numbers and booleans are maps to reals with truth as being non-zero.

  What is a parameter. SHA-256 is an arbitrary function in \<open>Audit_Ledger\<close>, and the tamper theorem
  produces a collision instead of assuming there is none; \<open>json.loads\<close> is an arbitrary function in
  \<open>Config_Tcp\<close>; sockets, serial ports and the file system are arguments; the subsystem objects
  of the engine are a record of arbitrary functions, because the classes the engine imports do
  not exist in the repository.

  What the lemmas show. Each theory first gives the functional behaviour of its operations, then
  invariants over all histories, and finally the properties, each numbered and followed by a
  witness on concrete values where it has hypotheses. Properties that span theories are stated where
  the upper component lives: the routers on the serialisers and parsers, the ledgers on the
  inspection, the allocator on the triangulation, the serial listener and the dashboard on the router,
  stage 6 on the handshake, and in \<open>Main_Watch\<close> the loop on all of them. \<open>Tcp_Server\<close> states the abstract specification of the command server,
  a register of the last order, and that the server with its chunks, buffers, clients and faults refines it.

  Bounds. No fuel is used: every loop of the modelled code is structural or has a measure
  (the Gray code and parity loops shift a natural number to zero). Halyard settling, the draining of the
  typer and of the loggers are bounded by the number of steps in their theorems.

  Not modelled: printing, sleeping and the shell command of \<open>main.py\<close>; the layout of the windows; the
  self-test scripts of the modules outside \<open>Self_Tests\<close> and \<open>Drills\<close>; the C++, IDL and CMS-2 files.
\<close>

end
